(* ===== verification/Hive_Prelude.thy ===== *)
theory Hive_Prelude
  imports Main "HOL-Library.Word" "HOL-Library.Monad_Syntax" "HOL-Library.Sublist"
begin

text \<open>
  What every component shares: the types that stand for C data, the undefined-behaviour monad
  and the string functions of the C library that the sources call.

  \<^item> A C string (the bytes before the terminating NUL) and a byte buffer are both a list of
    \<^typ>\<open>char\<close> (a \<^typ>\<open>char\<close> is exactly one byte).  A pointer that may be NULL is an option.
  \<^item> A computation that the C standard leaves without a result (a failed \<open>assert\<close>, a null
    dereference, a write past the end of an array) is \<open>None\<close> in the \<^typ>\<open>'a option\<close> monad of
    \<open>Monad_Syntax\<close>; a computation that returns is \<open>Some\<close> of its result and the new state.
  \<^item> A C \<open>int\<close>, \<open>long\<close> or \<open>ssize_t\<close> is an \<^typ>\<open>int\<close>; the places where the width or the
    signedness of an expression decides its value (the error macros, the response-body growth,
    the value record header) work on words.  The data model is LP64: \<open>int\<close> has 32 bits, \<open>long\<close>,
    \<open>size_t\<close> and \<open>ssize_t\<close> 64.
\<close>

named_theorems hive_const \<open>values of the preprocessor constants\<close>
named_theorems hive_op \<open>defining equations of the operations\<close>
named_theorems hive_frame \<open>what an operation leaves unchanged\<close>
named_theorems hive_post \<open>rules that take a postcondition through a computation\<close>

type_synonym bytes = "char list"
type_synonym u32 = "32 word"
type_synonym u64 = "64 word"

abbreviation NUL :: char where
  "NUL \<equiv> CHR 0x00"

abbreviation (input) c_assert :: "bool \<Rightarrow> unit option" where
  "c_assert b \<equiv> (if b then Some () else None)"

section \<open>Null pointers and empty strings\<close>

text \<open>The sources test \<open>!p || !*p\<close> on every string argument.\<close>

definition null_or_empty :: "string option \<Rightarrow> bool" where
  "null_or_empty p \<longleftrightarrow> p = None \<or> p = Some []"

lemma null_or_empty_simps [simp]:
  "null_or_empty None"
  "null_or_empty (Some s) \<longleftrightarrow> s = []"
  by (auto simp: null_or_empty_def)

lemma not_null_or_emptyE [elim]:
  assumes "\<not> null_or_empty p"
  obtains s where "p = Some s" and "s \<noteq> []"
  using assms by (cases p) auto

section \<open>Bounded writes\<close>

text \<open>
  \<open>sprintf\<close> and \<open>strcpy\<close> into an array of \<open>cap\<close> bytes: the string and its NUL must fit,
  otherwise the write leaves the array.  \<open>snprintf\<close> keeps the first \<open>cap - 1\<close> bytes and
  returns the length the full text would have had.
\<close>

definition c_strcpy :: "nat \<Rightarrow> string \<Rightarrow> string option" where
  "c_strcpy cap s = (if length s < cap then Some s else None)"

definition c_snprintf :: "nat \<Rightarrow> string \<Rightarrow> int \<times> string" where
  "c_snprintf cap s = (int (length s), take (cap - 1) s)"

lemma c_strcpy_Some_iff [simp]: "c_strcpy cap s = Some t \<longleftrightarrow> t = s \<and> length s < cap"
  by (auto simp: c_strcpy_def)

lemma c_strcpy_None_iff [simp]: "c_strcpy cap s = None \<longleftrightarrow> cap \<le> length s"
  by (auto simp: c_strcpy_def)

lemma c_strcpy_ok [simp]: "length s < cap \<Longrightarrow> c_strcpy cap s = Some s"
  by simp

lemma c_strcpy_overflow [simp]: "cap \<le> length s \<Longrightarrow> c_strcpy cap s = None"
  by simp

lemma c_snprintf_fits: "length s < cap \<Longrightarrow> c_snprintf cap s = (int (length s), s)"
  by (simp add: c_snprintf_def)

lemma c_snprintf_bound: "0 < cap \<Longrightarrow> c_snprintf cap s = (n, t) \<Longrightarrow> length t < cap"
  by (auto simp: c_snprintf_def)

text \<open>The C string held in a block of memory: the bytes before the first NUL; without a NUL in
  the block a string function reads past its end.\<close>

definition c_string_in :: "bytes \<Rightarrow> string option" where
  "c_string_in blk = (if NUL \<in> set blk then Some (takeWhile (\<lambda>c. c \<noteq> NUL) blk) else None)"

lemma c_string_in_append_NUL:
  "NUL \<notin> set s \<Longrightarrow> c_string_in (s @ NUL # rest) = Some s"
  by (induction s) (auto simp: c_string_in_def)

section \<open>Decimal output\<close>

definition digit_char :: "nat \<Rightarrow> char" where
  "digit_char d = char_of (48 + d)"

fun show_nat :: "nat \<Rightarrow> string" where
  "show_nat n = (if n < 10 then [digit_char n] else show_nat (n div 10) @ [digit_char (n mod 10)])"

declare show_nat.simps [simp del]

definition show_int :: "int \<Rightarrow> string" where
  "show_int i = (if i < 0 then CHR ''-'' # show_nat (nat (- i)) else show_nat (nat i))"

lemma show_nat_nonempty [simp]: "show_nat n \<noteq> []"
  by (subst show_nat.simps) simp

text \<open>Reading the digits back, which is how the length of a printed number is checked.\<close>

definition digit_val :: "char \<Rightarrow> nat" where
  "digit_val c = of_char c - 48"

definition is_digit :: "char \<Rightarrow> bool" where
  "is_digit c \<longleftrightarrow> 48 \<le> (of_char c :: nat) \<and> (of_char c :: nat) \<le> 57"

definition read_nat :: "string \<Rightarrow> nat" where
  "read_nat s = foldl (\<lambda>n c. 10 * n + digit_val c) 0 s"

lemma digit_char_val [simp]: "d < 10 \<Longrightarrow> digit_val (digit_char d) = d"
  by (simp add: digit_val_def digit_char_def)

lemma digit_char_is_digit [simp]: "d < 10 \<Longrightarrow> is_digit (digit_char d)"
  by (simp add: is_digit_def digit_char_def)

lemma read_show_nat: "read_nat (show_nat n) = n"
proof (induction n rule: show_nat.induct)
  case (1 n)
  then show ?case
    by (subst show_nat.simps) (auto simp: read_nat_def)
qed

lemma show_nat_digits: "c \<in> set (show_nat n) \<Longrightarrow> is_digit c"
proof (induction n arbitrary: c rule: show_nat.induct)
  case (1 n)
  show ?case
  proof (cases "n < 10")
    case True
    with "1.prems" show ?thesis by (subst (asm) show_nat.simps) simp
  next
    case False
    with "1.prems" have "c \<in> set (show_nat (n div 10)) \<or> c = digit_char (n mod 10)"
      by (subst (asm) show_nat.simps) auto
    with "1.IH" [OF False] show ?thesis by auto
  qed
qed

lemma show_nat_length: "n < 10 ^ k \<Longrightarrow> 0 < k \<Longrightarrow> length (show_nat n) \<le> k"
proof (induction n arbitrary: k rule: show_nat.induct)
  case (1 n)
  show ?case
  proof (cases "n < 10")
    case True
    with "1.prems" show ?thesis by (subst show_nat.simps) simp
  next
    case False
    with "1.prems" obtain j where j: "k = Suc j" "0 < j"
      by (cases k; cases "k - 1") auto
    with "1.prems"(1) have "n div 10 < 10 ^ j"
      by (simp add: less_mult_imp_div_less)
    with "1.IH" [OF False] j have "length (show_nat (n div 10)) \<le> j" by blast
    with False j show ?thesis by (subst show_nat.simps) simp
  qed
qed

section \<open>Case folding\<close>

definition c_tolower :: "char \<Rightarrow> char" where
  "c_tolower c = (let n = of_char c :: nat in if 65 \<le> n \<and> n \<le> 90 then char_of (n + 32) else c)"

section \<open>Splitting at a character\<close>

lemma takeWhile_neq_append [simp]: "x \<notin> set s \<Longrightarrow> takeWhile (\<lambda>c. c \<noteq> x) (s @ x # r) = s"
  by (induction s) auto

lemma dropWhile_neq_append [simp]: "x \<notin> set s \<Longrightarrow> dropWhile (\<lambda>c. c \<noteq> x) (s @ x # r) = x # r"
  by (induction s) auto

lemma takeWhile_neq_none [simp]: "x \<notin> set s \<Longrightarrow> takeWhile (\<lambda>c. c \<noteq> x) s = s"
  by (induction s) auto

lemma dropWhile_neq_none [simp]: "x \<notin> set s \<Longrightarrow> dropWhile (\<lambda>c. c \<noteq> x) s = []"
  by (induction s) auto

section \<open>Substrings and path names\<close>

definition c_strstr :: "string \<Rightarrow> string \<Rightarrow> bool" where
  "c_strstr hay needle \<longleftrightarrow> sublist needle hay"

text \<open>POSIX \<open>dirname\<close> and \<open>basename\<close>.\<close>

definition strip_slashes :: "string \<Rightarrow> string" where
  "strip_slashes s = rev (dropWhile (\<lambda>c. c = CHR ''/'') (rev s))"

definition c_dirname :: "string \<Rightarrow> string" where
  "c_dirname s =
     (if s = [] then ''.''
      else let t = strip_slashes s in
        if t = [] then ''/''
        else if CHR ''/'' \<notin> set t then ''.''
        else let d = strip_slashes (rev (dropWhile (\<lambda>c. c \<noteq> CHR ''/'') (rev t)))
             in if d = [] then ''/'' else d)"

definition c_basename :: "string \<Rightarrow> string" where
  "c_basename s =
     (if s = [] then ''.''
      else let t = strip_slashes s in
        if t = [] then ''/'' else rev (takeWhile (\<lambda>c. c \<noteq> CHR ''/'') (rev t)))"

lemma strip_slashes_no_slash: "CHR ''/'' \<notin> set s \<Longrightarrow> strip_slashes s = s"
  by (cases s rule: rev_cases) (auto simp: strip_slashes_def)

lemma strip_slashes_snoc [simp]: "c \<noteq> CHR ''/'' \<Longrightarrow> strip_slashes (s @ [c]) = s @ [c]"
  by (simp add: strip_slashes_def)

lemma last_no_slash:
  "f \<noteq> [] \<Longrightarrow> CHR ''/'' \<notin> set f \<Longrightarrow> last f \<noteq> CHR ''/''"
  using last_in_set by force

lemma c_dirname_join:
  assumes "f \<noteq> []" "CHR ''/'' \<notin> set f" "d \<noteq> []" "last d \<noteq> CHR ''/''"
  shows "c_dirname (d @ ''/'' @ f) = d"
proof -
  have s: "strip_slashes (d @ ''/'' @ f) = d @ ''/'' @ f"
    using assms(1,2) last_no_slash [OF assms(1,2)]
    by (cases f rule: rev_cases) (auto simp: strip_slashes_def)
  have "dropWhile (\<lambda>c. c \<noteq> CHR ''/'') (rev f @ CHR ''/'' # rev d) = CHR ''/'' # rev d"
    using assms(2) by (subst dropWhile_append2) auto
  moreover have "strip_slashes (d @ ''/'') = d"
    using assms(3,4) by (cases d rule: rev_cases) (auto simp: strip_slashes_def)
  ultimately show ?thesis
    using assms(3) s by (simp add: c_dirname_def Let_def)
qed

lemma c_basename_join:
  assumes "f \<noteq> []" "CHR ''/'' \<notin> set f"
  shows "c_basename (d @ ''/'' @ f) = f"
proof -
  have s: "strip_slashes (d @ ''/'' @ f) = d @ ''/'' @ f"
    using assms last_no_slash [OF assms]
    by (cases f rule: rev_cases) (auto simp: strip_slashes_def)
  have "takeWhile (\<lambda>c. c \<noteq> CHR ''/'') (rev f @ CHR ''/'' # rev d) = rev f"
    using assms(2) by (subst takeWhile_append2) auto
  with s show ?thesis by (simp add: c_basename_def Let_def)
qed

section \<open>The option monad\<close>

lemma bind_eq_Some_iff: "Option.bind m f = Some y \<longleftrightarrow> (\<exists>x. m = Some x \<and> f x = Some y)"
  by (cases m) auto

lemma bind_eq_None_iff: "Option.bind m f = None \<longleftrightarrow> m = None \<or> (\<exists>x. m = Some x \<and> f x = None)"
  by (cases m) auto

lemma c_assert_bind [simp]:
  "Option.bind (c_assert b) (\<lambda>_. m) = (if b then m else None)"
  by simp

section \<open>Postconditions\<close>

text \<open>\<open>post m P\<close>: if \<open>m\<close> returns, its result satisfies \<open>P\<close>.  The rules of \<open>hive_post\<close> follow the
  shape of a computation, so that \<open>intro hive_post\<close> leaves one goal per path through it; a call
  is passed with \<open>post_call\<close> and the postcondition proved for it.\<close>

definition post :: "'a option \<Rightarrow> ('a \<Rightarrow> bool) \<Rightarrow> bool" where
  "post m P \<longleftrightarrow> (\<forall>y. m = Some y \<longrightarrow> P y)"

lemma postI: "(\<And>y. m = Some y \<Longrightarrow> P y) \<Longrightarrow> post m P"
  by (simp add: post_def)

lemma postD: "post m P \<Longrightarrow> m = Some y \<Longrightarrow> P y"
  by (simp add: post_def)

lemma post_call: "post m Q \<Longrightarrow> (\<And>y. Q y \<Longrightarrow> P y) \<Longrightarrow> post m P"
  by (simp add: post_def)

lemma post_Some [hive_post]: "P y \<Longrightarrow> post (Some y) P"
  by (simp add: post_def)

lemma post_None [hive_post]: "post None P"
  by (simp add: post_def)

lemma post_bind [hive_post]: "post m (\<lambda>x. post (f x) P) \<Longrightarrow> post (Option.bind m f) P"
  by (auto simp: post_def bind_eq_Some_iff)

lemma post_if [hive_post]:
  "(b \<Longrightarrow> post m P) \<Longrightarrow> (\<not> b \<Longrightarrow> post n P) \<Longrightarrow> post (if b then m else n) P"
  by simp

lemma post_let [hive_post]: "post (f v) P \<Longrightarrow> post (Let v f) P"
  by simp

lemma post_prod [hive_post]:
  "(\<And>a b. p = (a, b) \<Longrightarrow> post (f a b) P) \<Longrightarrow> post (case p of (a, b) \<Rightarrow> f a b) P"
  by (cases p) simp

lemma post_prod_app [hive_post]:
  "(\<And>a b. p = (a, b) \<Longrightarrow> post (f a b z) P) \<Longrightarrow> post ((case p of (a, b) \<Rightarrow> f a b) z) P"
  by (cases p) simp

lemma post_option [hive_post]:
  "(x = None \<Longrightarrow> post m P) \<Longrightarrow> (\<And>y. x = Some y \<Longrightarrow> post (f y) P) \<Longrightarrow>
     post (case x of None \<Rightarrow> m | Some y \<Rightarrow> f y) P"
  by (cases x) simp_all

lemma post_sum [hive_post]:
  "(\<And>a. x = Inl a \<Longrightarrow> post (f a) P) \<Longrightarrow> (\<And>b. x = Inr b \<Longrightarrow> post (g b) P) \<Longrightarrow>
     post (case x of Inl a \<Rightarrow> f a | Inr b \<Rightarrow> g b) P"
  by (cases x) simp_all

lemma post_list [hive_post]:
  "(xs = [] \<Longrightarrow> post m P) \<Longrightarrow> (\<And>y ys. xs = y # ys \<Longrightarrow> post (f y ys) P) \<Longrightarrow>
     post (case xs of [] \<Rightarrow> m | y # ys \<Rightarrow> f y ys) P"
  by (cases xs) simp_all

lemma post_assert [hive_post]: "(b \<Longrightarrow> P ()) \<Longrightarrow> post (c_assert b) P"
  by (simp add: post_def)

lemma post_conj: "post m P \<Longrightarrow> post m Q \<Longrightarrow> post m (\<lambda>y. P y \<and> Q y)"
  by (simp add: post_def)

lemma post_triple:
  "post m (\<lambda>(a, b, c). P a b c) \<Longrightarrow> m = Some (a, b, c) \<Longrightarrow> P a b c"
  by (simp add: post_def)

end
