(* ===== verification/Hive_Error.thy ===== *)
theory Hive_Error
  imports Hive_Prelude
begin

text \<open>
  The error numbers of the SDK (\<open>src/src/ela_hive.h\<close>, \<open>src/src/hive_error.c\<close>) and the HTTP
  status table (\<open>src/src/http_status.h\<close>, \<open>src/src/http_status.c\<close>).

  An error number is an unsigned 32-bit value: severity bit, facility in bits 24 to 27, code
  below.  The functions of the SDK return it through an \<open>int\<close> (where it is negative) or through
  an \<open>ssize_t\<close> (where the unsigned value is zero-extended, hence positive): \<open>int_of_error\<close> and
  \<open>ssize_of_error\<close> are the two conversions.
\<close>

section \<open>Constants of \<open>ela_hive.h\<close>\<close>

definition HIVEF_GENERAL :: int where [hive_const]: "HIVEF_GENERAL = 1"
definition HIVEF_SYS :: int where [hive_const]: "HIVEF_SYS = 2"
definition HIVEF_RESERVED1 :: int where [hive_const]: "HIVEF_RESERVED1 = 3"
definition HIVEF_RESERVED2 :: int where [hive_const]: "HIVEF_RESERVED2 = 4"
definition HIVEF_CURL :: int where [hive_const]: "HIVEF_CURL = 5"
definition HIVEF_CURLU :: int where [hive_const]: "HIVEF_CURLU = 6"
definition HIVEF_HTTP_STATUS :: int where [hive_const]: "HIVEF_HTTP_STATUS = 7"
definition HIVEOK :: int where [hive_const]: "HIVEOK = 0"
definition HIVEERR_INVALID_ARGS :: int where [hive_const]: "HIVEERR_INVALID_ARGS = 1"
definition HIVEERR_OUT_OF_MEMORY :: int where [hive_const]: "HIVEERR_OUT_OF_MEMORY = 2"
definition HIVEERR_BUFFER_TOO_SMALL :: int where [hive_const]: "HIVEERR_BUFFER_TOO_SMALL = 3"
definition HIVEERR_BAD_PERSISTENT_DATA :: int where [hive_const]: "HIVEERR_BAD_PERSISTENT_DATA = 4"
definition HIVEERR_INVALID_PERSISTENCE_FILE :: int where [hive_const]: "HIVEERR_INVALID_PERSISTENCE_FILE = 5"
definition HIVEERR_INVALID_CREDENTIAL :: int where [hive_const]: "HIVEERR_INVALID_CREDENTIAL = 6"
definition HIVEERR_NOT_READY :: int where [hive_const]: "HIVEERR_NOT_READY = 7"
definition HIVEERR_NOT_EXIST :: int where [hive_const]: "HIVEERR_NOT_EXIST = 8"
definition HIVEERR_ALREADY_EXIST :: int where [hive_const]: "HIVEERR_ALREADY_EXIST = 9"
definition HIVEERR_INVALID_USERID :: int where [hive_const]: "HIVEERR_INVALID_USERID = 10"
definition HIVEERR_WRONG_STATE :: int where [hive_const]: "HIVEERR_WRONG_STATE = 11"
definition HIVEERR_BUSY :: int where [hive_const]: "HIVEERR_BUSY = 12"
definition HIVEERR_LANGUAGE_BINDING :: int where [hive_const]: "HIVEERR_LANGUAGE_BINDING = 13"
definition HIVEERR_ENCRYPT :: int where [hive_const]: "HIVEERR_ENCRYPT = 14"
definition HIVEERR_NOT_IMPLEMENTED :: int where [hive_const]: "HIVEERR_NOT_IMPLEMENTED = 15"
definition HIVEERR_NOT_SUPPORTED :: int where [hive_const]: "HIVEERR_NOT_SUPPORTED = 16"
definition HIVEERR_LIMIT_EXCEEDED :: int where [hive_const]: "HIVEERR_LIMIT_EXCEEDED = 17"
definition HIVEERR_ENCRYPTED_PERSISTENT_DATA :: int where [hive_const]: "HIVEERR_ENCRYPTED_PERSISTENT_DATA = 18"
definition HIVEERR_BAD_BOOTSTRAP_HOST :: int where [hive_const]: "HIVEERR_BAD_BOOTSTRAP_HOST = 19"
definition HIVEERR_BAD_BOOTSTRAP_PORT :: int where [hive_const]: "HIVEERR_BAD_BOOTSTRAP_PORT = 20"
definition HIVEERR_BAD_ADDRESS :: int where [hive_const]: "HIVEERR_BAD_ADDRESS = 21"
definition HIVEERR_BAD_JSON_FORMAT :: int where [hive_const]: "HIVEERR_BAD_JSON_FORMAT = 22"
definition HIVEERR_TRY_AGAIN :: int where [hive_const]: "HIVEERR_TRY_AGAIN = 23"
definition HIVEERR_UNKNOWN :: int where [hive_const]: "HIVEERR_UNKNOWN = 255"

section \<open>Building error numbers\<close>

text \<open>\<open>HIVE_MK_ERROR\<close>, for a code of type \<open>int\<close>.  With a code of type \<open>long\<close> (the HTTP
  response code) the macro is computed at 64 bits; every operand is masked below bit 32 or a
  non-negative constant, so its value is the zero-extension of the 32-bit one
  (\<open>HIVE_MK_ERROR_long_eq\<close>).\<close>

definition HIVE_MK_ERROR :: "int \<Rightarrow> int \<Rightarrow> u32" where
  "HIVE_MK_ERROR facility code =
     or (0x80000000) (or (push_bit 24 (word_of_int facility))
       (or (drop_bit 8 (and (word_of_int code) 0x80000000)) (and (word_of_int code) 0x7FFFFFFF)))"

definition HIVE_MK_ERROR_long :: "int \<Rightarrow> int \<Rightarrow> u64" where
  "HIVE_MK_ERROR_long facility code =
     or (0x80000000) (or (push_bit 24 (word_of_int facility))
       (or (drop_bit 8 (and (word_of_int code) 0x80000000)) (and (word_of_int code) 0x7FFFFFFF)))"

definition HIVE_GENERAL_ERROR :: "int \<Rightarrow> u32" where
  "HIVE_GENERAL_ERROR code = HIVE_MK_ERROR HIVEF_GENERAL code"

definition HIVE_SYS_ERROR :: "int \<Rightarrow> u32" where
  "HIVE_SYS_ERROR code = HIVE_MK_ERROR HIVEF_SYS code"

definition HIVE_CURL_ERROR :: "int \<Rightarrow> u32" where
  "HIVE_CURL_ERROR code = HIVE_MK_ERROR HIVEF_CURL code"

definition HIVE_CURLU_ERROR :: "int \<Rightarrow> u32" where
  "HIVE_CURLU_ERROR code = HIVE_MK_ERROR HIVEF_CURLU code"

definition HIVE_HTTP_STATUS_ERROR :: "int \<Rightarrow> u32" where
  "HIVE_HTTP_STATUS_ERROR code = HIVE_MK_ERROR HIVEF_HTTP_STATUS code"

text \<open>The two conversions C applies to an error number.\<close>

definition int_of_error :: "u32 \<Rightarrow> int" where
  "int_of_error e = sint e"

definition ssize_of_error :: "u32 \<Rightarrow> int" where
  "ssize_of_error e = uint e"

text \<open>The conversion \<open>(int)x\<close> of a 64-bit value.\<close>

definition int_of_ssize :: "int \<Rightarrow> int" where
  "int_of_ssize x = sint (word_of_int x :: u32)"

section \<open>HTTP status codes\<close>

definition HttpStatus_Continue :: int where [hive_const]: "HttpStatus_Continue = 100"
definition HttpStatus_SwitchingProtocols :: int where [hive_const]: "HttpStatus_SwitchingProtocols = 101"
definition HttpStatus_Processing :: int where [hive_const]: "HttpStatus_Processing = 102"
definition HttpStatus_EarlyHints :: int where [hive_const]: "HttpStatus_EarlyHints = 103"
definition HttpStatus_OK :: int where [hive_const]: "HttpStatus_OK = 200"
definition HttpStatus_Created :: int where [hive_const]: "HttpStatus_Created = 201"
definition HttpStatus_Accepted :: int where [hive_const]: "HttpStatus_Accepted = 202"
definition HttpStatus_NonAuthoritativeInformation :: int where [hive_const]: "HttpStatus_NonAuthoritativeInformation = 203"
definition HttpStatus_NoContent :: int where [hive_const]: "HttpStatus_NoContent = 204"
definition HttpStatus_ResetContent :: int where [hive_const]: "HttpStatus_ResetContent = 205"
definition HttpStatus_PartialContent :: int where [hive_const]: "HttpStatus_PartialContent = 206"
definition HttpStatus_MultiStatus :: int where [hive_const]: "HttpStatus_MultiStatus = 207"
definition HttpStatus_AlreadyReported :: int where [hive_const]: "HttpStatus_AlreadyReported = 208"
definition HttpStatus_IMUsed :: int where [hive_const]: "HttpStatus_IMUsed = 226"
definition HttpStatus_MultipleChoices :: int where [hive_const]: "HttpStatus_MultipleChoices = 300"
definition HttpStatus_MovedPermanently :: int where [hive_const]: "HttpStatus_MovedPermanently = 301"
definition HttpStatus_Found :: int where [hive_const]: "HttpStatus_Found = 302"
definition HttpStatus_SeeOther :: int where [hive_const]: "HttpStatus_SeeOther = 303"
definition HttpStatus_NotModified :: int where [hive_const]: "HttpStatus_NotModified = 304"
definition HttpStatus_UseProxy :: int where [hive_const]: "HttpStatus_UseProxy = 305"
definition HttpStatus_TemporaryRedirect :: int where [hive_const]: "HttpStatus_TemporaryRedirect = 307"
definition HttpStatus_PermanentRedirect :: int where [hive_const]: "HttpStatus_PermanentRedirect = 308"
definition HttpStatus_BadRequest :: int where [hive_const]: "HttpStatus_BadRequest = 400"
definition HttpStatus_Unauthorized :: int where [hive_const]: "HttpStatus_Unauthorized = 401"
definition HttpStatus_PaymentRequired :: int where [hive_const]: "HttpStatus_PaymentRequired = 402"
definition HttpStatus_Forbidden :: int where [hive_const]: "HttpStatus_Forbidden = 403"
definition HttpStatus_NotFound :: int where [hive_const]: "HttpStatus_NotFound = 404"
definition HttpStatus_MethodNotAllowed :: int where [hive_const]: "HttpStatus_MethodNotAllowed = 405"
definition HttpStatus_NotAcceptable :: int where [hive_const]: "HttpStatus_NotAcceptable = 406"
definition HttpStatus_ProxyAuthenticationRequired :: int where [hive_const]: "HttpStatus_ProxyAuthenticationRequired = 407"
definition HttpStatus_RequestTimeout :: int where [hive_const]: "HttpStatus_RequestTimeout = 408"
definition HttpStatus_Conflict :: int where [hive_const]: "HttpStatus_Conflict = 409"
definition HttpStatus_Gone :: int where [hive_const]: "HttpStatus_Gone = 410"
definition HttpStatus_LengthRequired :: int where [hive_const]: "HttpStatus_LengthRequired = 411"
definition HttpStatus_PreconditionFailed :: int where [hive_const]: "HttpStatus_PreconditionFailed = 412"
definition HttpStatus_PayloadTooLarge :: int where [hive_const]: "HttpStatus_PayloadTooLarge = 413"
definition HttpStatus_URITooLong :: int where [hive_const]: "HttpStatus_URITooLong = 414"
definition HttpStatus_UnsupportedMediaType :: int where [hive_const]: "HttpStatus_UnsupportedMediaType = 415"
definition HttpStatus_RangeNotSatisfiable :: int where [hive_const]: "HttpStatus_RangeNotSatisfiable = 416"
definition HttpStatus_ExpectationFailed :: int where [hive_const]: "HttpStatus_ExpectationFailed = 417"
definition HttpStatus_ImATeapot :: int where [hive_const]: "HttpStatus_ImATeapot = 418"
definition HttpStatus_UnprocessableEntity :: int where [hive_const]: "HttpStatus_UnprocessableEntity = 422"
definition HttpStatus_Locked :: int where [hive_const]: "HttpStatus_Locked = 423"
definition HttpStatus_FailedDependency :: int where [hive_const]: "HttpStatus_FailedDependency = 424"
definition HttpStatus_UpgradeRequired :: int where [hive_const]: "HttpStatus_UpgradeRequired = 426"
definition HttpStatus_PreconditionRequired :: int where [hive_const]: "HttpStatus_PreconditionRequired = 428"
definition HttpStatus_TooManyRequests :: int where [hive_const]: "HttpStatus_TooManyRequests = 429"
definition HttpStatus_RequestHeaderFieldsTooLarge :: int where [hive_const]: "HttpStatus_RequestHeaderFieldsTooLarge = 431"
definition HttpStatus_UnavailableForLegalReasons :: int where [hive_const]: "HttpStatus_UnavailableForLegalReasons = 451"
definition HttpStatus_InternalServerError :: int where [hive_const]: "HttpStatus_InternalServerError = 500"
definition HttpStatus_NotImplemented :: int where [hive_const]: "HttpStatus_NotImplemented = 501"
definition HttpStatus_BadGateway :: int where [hive_const]: "HttpStatus_BadGateway = 502"
definition HttpStatus_ServiceUnavailable :: int where [hive_const]: "HttpStatus_ServiceUnavailable = 503"
definition HttpStatus_GatewayTimeout :: int where [hive_const]: "HttpStatus_GatewayTimeout = 504"
definition HttpStatus_HTTPVersionNotSupported :: int where [hive_const]: "HttpStatus_HTTPVersionNotSupported = 505"
definition HttpStatus_VariantAlsoNegotiates :: int where [hive_const]: "HttpStatus_VariantAlsoNegotiates = 506"
definition HttpStatus_InsufficientStorage :: int where [hive_const]: "HttpStatus_InsufficientStorage = 507"
definition HttpStatus_LoopDetected :: int where [hive_const]: "HttpStatus_LoopDetected = 508"
definition HttpStatus_NotExtended :: int where [hive_const]: "HttpStatus_NotExtended = 510"
definition HttpStatus_NetworkAuthenticationRequired :: int where [hive_const]: "HttpStatus_NetworkAuthenticationRequired = 511"

type_synonym error_desc = "(int \<times> string) list"

definition status_codes :: error_desc where
  "status_codes = [
    (HttpStatus_Continue, ''Continue''),
    (HttpStatus_SwitchingProtocols, ''Switching Protocols''),
    (HttpStatus_Processing, ''Processing''),
    (HttpStatus_EarlyHints, ''Early Hints''),
    (HttpStatus_OK, ''OK''),
    (HttpStatus_Created, ''Created''),
    (HttpStatus_Accepted, ''Accepted''),
    (HttpStatus_NonAuthoritativeInformation, ''Non-Authoritative Information''),
    (HttpStatus_NoContent, ''No Content''),
    (HttpStatus_ResetContent, ''Reset Content''),
    (HttpStatus_PartialContent, ''Partial Content''),
    (HttpStatus_MultiStatus, ''Multi-Status''),
    (HttpStatus_AlreadyReported, ''Already Reported''),
    (HttpStatus_IMUsed, ''IM Used''),
    (HttpStatus_MultipleChoices, ''Multiple Choices''),
    (HttpStatus_MovedPermanently, ''Moved Permanently''),
    (HttpStatus_Found, ''Found''),
    (HttpStatus_SeeOther, ''See Other''),
    (HttpStatus_NotModified, ''Not Modified''),
    (HttpStatus_UseProxy, ''Use Proxy''),
    (HttpStatus_TemporaryRedirect, ''Temporary Redirect''),
    (HttpStatus_PermanentRedirect, ''Permanent Redirect''),
    (HttpStatus_BadRequest, ''Bad Request''),
    (HttpStatus_Unauthorized, ''Unauthorized''),
    (HttpStatus_PaymentRequired, ''Payment Required''),
    (HttpStatus_Forbidden, ''Forbidden''),
    (HttpStatus_NotFound, ''Not Found''),
    (HttpStatus_MethodNotAllowed, ''Method Not Allowed''),
    (HttpStatus_NotAcceptable, ''Not Acceptable''),
    (HttpStatus_ProxyAuthenticationRequired, ''Proxy Authentication Required''),
    (HttpStatus_RequestTimeout, ''Request Timeout''),
    (HttpStatus_Conflict, ''Conflict''),
    (HttpStatus_Gone, ''Gone''),
    (HttpStatus_LengthRequired, ''Length Required''),
    (HttpStatus_PreconditionFailed, ''Precondition Failed''),
    (HttpStatus_PayloadTooLarge, ''Payload Too Large''),
    (HttpStatus_URITooLong, ''URI Too Long''),
    (HttpStatus_UnsupportedMediaType, ''Unsupported Media Type''),
    (HttpStatus_RangeNotSatisfiable, ''Range Not Satisfiable''),
    (HttpStatus_ExpectationFailed, ''Expectation Failed''),
    (HttpStatus_ImATeapot, ''I'' @ [CHR 0x27] @ ''m a teapot''),
    (HttpStatus_UnprocessableEntity, ''Unprocessable Entity''),
    (HttpStatus_Locked, ''Locked''),
    (HttpStatus_FailedDependency, ''Failed Dependency''),
    (HttpStatus_UpgradeRequired, ''Upgrade Required''),
    (HttpStatus_PreconditionRequired, ''Precondition Required''),
    (HttpStatus_TooManyRequests, ''Too Many Requests''),
    (HttpStatus_RequestHeaderFieldsTooLarge, ''Request Header Fields Too Large''),
    (HttpStatus_UnavailableForLegalReasons, ''Unavailable For Legal Reasons''),
    (HttpStatus_InternalServerError, ''Internal Server Error''),
    (HttpStatus_NotImplemented, ''Not Implemented''),
    (HttpStatus_BadGateway, ''Bad Gateway''),
    (HttpStatus_ServiceUnavailable, ''Service Unavailable''),
    (HttpStatus_GatewayTimeout, ''Gateway Time-out''),
    (HttpStatus_HTTPVersionNotSupported, ''HTTP Version Not Supported''),
    (HttpStatus_VariantAlsoNegotiates, ''Variant Also Negotiates''),
    (HttpStatus_InsufficientStorage, ''Insufficient Storage''),
    (HttpStatus_LoopDetected, ''Loop Detected''),
    (HttpStatus_NotExtended, ''Not Extended''),
    (HttpStatus_NetworkAuthenticationRequired, ''Network Authentication Required'')]"

definition error_codes :: error_desc where
  "error_codes = [
    (HIVEERR_INVALID_ARGS, ''Invalid argument(s)''),
    (HIVEERR_OUT_OF_MEMORY, ''Out of memory''),
    (HIVEERR_BUFFER_TOO_SMALL, ''Too small buffer size''),
    (HIVEERR_BAD_PERSISTENT_DATA, ''Bad persistent data''),
    (HIVEERR_INVALID_PERSISTENCE_FILE, ''Invalid persistent file''),
    (HIVEERR_INVALID_CREDENTIAL, ''Invalid credential''),
    (HIVEERR_NOT_READY, ''SDK not ready''),
    (HIVEERR_NOT_EXIST, ''Entity not exists''),
    (HIVEERR_ALREADY_EXIST, ''Entity already exists''),
    (HIVEERR_INVALID_USERID, ''Invalid user id''),
    (HIVEERR_WRONG_STATE, ''Being in wrong state''),
    (HIVEERR_BUSY, ''Instance is being busy''),
    (HIVEERR_LANGUAGE_BINDING, ''Language binding error''),
    (HIVEERR_ENCRYPT, ''Encrypt error''),
    (HIVEERR_NOT_IMPLEMENTED, ''Not implemented yet''),
    (HIVEERR_NOT_SUPPORTED, ''Not supported''),
    (HIVEERR_LIMIT_EXCEEDED, ''Exceeding the limit''),
    (HIVEERR_ENCRYPTED_PERSISTENT_DATA, ''Load encrypted persistent data error''),
    (HIVEERR_BAD_BOOTSTRAP_HOST, ''Bad bootstrap host''),
    (HIVEERR_BAD_BOOTSTRAP_PORT, ''Bad bootstrap port''),
    (HIVEERR_BAD_ADDRESS, ''Bad carrier node address''),
    (HIVEERR_BAD_JSON_FORMAT, ''Bad json format''),
    (HIVEERR_TRY_AGAIN, ''Try again the operation''),
    (HIVEERR_UNKNOWN, ''Unknown error'')]"

text \<open>The linear search of \<open>general_error\<close>, \<open>http_status_error\<close> and \<open>curlu_strerror\<close>: the
  description at the first index whose code matches, none when the loop reaches the end.\<close>

fun find_desc :: "error_desc \<Rightarrow> int \<Rightarrow> string option" where
  "find_desc [] errcode = None"
| "find_desc ((c, d) # es) errcode = (if errcode = c then Some d else find_desc es errcode)"

lemma find_desc_map_of: "find_desc es errcode = map_of es errcode"
  by (induction es errcode rule: find_desc.induct) auto

section \<open>Reading error numbers back\<close>

text \<open>\<open>(errnum >> 24) & 0x0F\<close> and \<open>errnum & 0x00FFFFFF\<close>, as \<open>hive_get_strerror\<close> takes an
  error number apart.\<close>

definition facility_of :: "int \<Rightarrow> int" where
  "facility_of errnum = uint (and (signed_drop_bit 24 (word_of_int errnum :: u32)) 0x0F)"

definition errcode_of :: "int \<Rightarrow> int" where
  "errcode_of errnum = uint (and (word_of_int errnum :: u32) 0x00FFFFFF)"

lemma HIVE_MK_ERROR_bit31: "bit (HIVE_MK_ERROR f c) 31"
  by (simp add: HIVE_MK_ERROR_def bit_simps)

lemma sint_neg_iff_bit31: "sint (w :: u32) < 0 \<longleftrightarrow> bit w 31"
  using bit_last_iff [of w] by simp

lemma int_of_error_neg [simp]: "int_of_error (HIVE_MK_ERROR f c) < 0"
  by (simp add: int_of_error_def sint_neg_iff_bit31 HIVE_MK_ERROR_bit31)

lemma ssize_of_error_pos [simp]: "0 < ssize_of_error (HIVE_MK_ERROR f c)"
proof -
  have "HIVE_MK_ERROR f c \<noteq> 0"
    using HIVE_MK_ERROR_bit31 [of f c] by auto
  then show ?thesis
    by (simp add: ssize_of_error_def word_neq_0_conv word_less_def)
qed

lemma int_bit_above: "0 \<le> c \<Longrightarrow> c < 2 ^ k \<Longrightarrow> k \<le> n \<Longrightarrow> \<not> bit (c :: int) n"
  by (metis bit_take_bit_iff not_le take_bit_int_eq_self)

lemma bit_numerals [simp]:
  "bit (2147483648 :: int) n \<longleftrightarrow> n = 31"
  "bit (8388608 :: int) n \<longleftrightarrow> n = 23"
  "bit (2147483647 :: int) n \<longleftrightarrow> n < 31"
proof -
  have "(2147483648 :: int) = 2 ^ 31" "(8388608 :: int) = 2 ^ 23" "(2147483647 :: int) = mask 31"
    by (simp_all add: mask_eq_exp_minus_1)
  then show "bit (2147483648 :: int) n \<longleftrightarrow> n = 31" "bit (8388608 :: int) n \<longleftrightarrow> n = 23"
    "bit (2147483647 :: int) n \<longleftrightarrow> n < 31"
    by (simp_all only: bit_exp_iff bit_mask_iff possible_bit_int) auto
qed

text \<open>The value of an error number with a facility below 128 and a code below \<open>2\<^sup>2\<^sup>4\<close>.\<close>

lemma HIVE_MK_ERROR_concat:
  assumes "0 \<le> c" "c < 2 ^ 24" "0 \<le> f" "f < 128"
  shows "HIVE_MK_ERROR f c = word_of_int (concat_bit 24 c (concat_bit 7 f 1))"
proof (rule bit_word_eqI)
  fix n assume "n < LENGTH(32)"
  then have n: "n < 32" by simp
  have c: "bit c m \<Longrightarrow> m < 24" for m
    using int_bit_above [OF assms(1,2)] not_le by blast
  have f: "bit f m \<Longrightarrow> m < 7" for m
    using int_bit_above [of f 7] assms(3,4) not_le by auto
  have one: "bit (1 :: int) m \<longleftrightarrow> m = 0" for m
    by (simp add: bit_1_iff)
  from n show "bit (HIVE_MK_ERROR f c) n
      = bit (word_of_int (concat_bit 24 c (concat_bit 7 f 1)) :: u32) n"
    by (auto simp: HIVE_MK_ERROR_def bit_simps bit_concat_bit_iff one dest: c f)
qed

lemma HIVE_MK_ERROR_long_eq:
  assumes "0 \<le> f" "f < 128"
  shows "HIVE_MK_ERROR_long f c = ucast (HIVE_MK_ERROR f c)"
proof (rule bit_word_eqI)
  fix n assume "n < LENGTH(64)"
  have f: "bit f m \<Longrightarrow> m < 7" for m
    using int_bit_above [of f 7] assms not_le by auto
  have u: "bit (0x80000000 :: u64) m \<longleftrightarrow> m = 31" "bit (0x80000000 :: u32) m \<longleftrightarrow> m = 31"
    "bit (0x7FFFFFFF :: u64) m \<longleftrightarrow> m < 31" "bit (0x7FFFFFFF :: u32) m \<longleftrightarrow> m < 31" for m
  proof -
    have e: "(0x80000000 :: u64) = push_bit 31 1" "(0x80000000 :: u32) = push_bit 31 1"
      "(0x7FFFFFFF :: u64) = mask 31" "(0x7FFFFFFF :: u32) = mask 31"
      by (simp_all add: mask_eq_exp_minus_1)
    show "bit (0x80000000 :: u64) m \<longleftrightarrow> m = 31" "bit (0x80000000 :: u32) m \<longleftrightarrow> m = 31"
      "bit (0x7FFFFFFF :: u64) m \<longleftrightarrow> m < 31" "bit (0x7FFFFFFF :: u32) m \<longleftrightarrow> m < 31"
      unfolding e by (auto simp: bit_simps)
  qed
  have fn: "bit f (n - 24) \<Longrightarrow> 24 \<le> n \<Longrightarrow> n < 31"
    using f [of "n - 24"] by simp
  show "bit (HIVE_MK_ERROR_long f c) n = bit (ucast (HIVE_MK_ERROR f c) :: u64) n"
  proof (cases "n < 31")
    case True
    then show ?thesis
      by (auto simp: HIVE_MK_ERROR_long_def HIVE_MK_ERROR_def bit_simps u)
  next
    case False
    with fn have "\<not> (24 \<le> n \<and> bit f (n - 24))" by blast
    with False show ?thesis
      by (auto simp: HIVE_MK_ERROR_long_def HIVE_MK_ERROR_def bit_simps u)
  qed
qed

lemma uint_HIVE_MK_ERROR:
  assumes "0 \<le> c" "c < 2 ^ 24" "0 \<le> f" "f < 128"
  shows "uint (HIVE_MK_ERROR f c) = 2 ^ 31 + f * 2 ^ 24 + c"
proof -
  have t: "take_bit 24 c = c" "take_bit 7 f = f"
    using assms by (simp_all add: take_bit_int_eq_self)
  have eq: "concat_bit 24 c (concat_bit 7 f 1) = 2 ^ 31 + f * 2 ^ 24 + c"
    by (simp only: concat_bit_eq t push_bit_eq_mult) simp
  have "take_bit 32 (2 ^ 31 + f * 2 ^ 24 + c) = 2 ^ 31 + f * 2 ^ 24 + c"
    using assms by (intro take_bit_int_eq_self) auto
  then show ?thesis
    by (simp only: HIVE_MK_ERROR_concat [OF assms] eq uint_word_of_int_eq len_num0 len_bit0 len_num1) simp
qed

lemma uint_u32_small: "0 \<le> x \<Longrightarrow> x < 2 ^ 32 \<Longrightarrow> uint (word_of_int x :: u32) = x"
  by (simp add: uint_word_of_int_eq take_bit_int_eq_self)

lemma sint_u32_negative: "bit (w :: u32) 31 \<Longrightarrow> sint w = uint w - 2 ^ 32"
  using take_bit_int_eq_self [of "uint w" 32] uint_lt2p [of w]
  by (simp add: sint_uint signed_take_bit_eq_take_bit_minus bit_uint_iff)

lemma int_of_HIVE_MK_ERROR:
  assumes "0 \<le> c" "c < 2 ^ 24" "0 \<le> f" "f < 128"
  shows "int_of_error (HIVE_MK_ERROR f c) = f * 2 ^ 24 + c - 2 ^ 31"
  using uint_HIVE_MK_ERROR [OF assms] sint_u32_negative [OF HIVE_MK_ERROR_bit31 [of f c]]
  by (simp add: int_of_error_def)

lemma word_of_int_of_error [simp]: "word_of_int (int_of_error e) = e"
  by (simp add: int_of_error_def)

lemma facility_of_mk_error:
  assumes "0 \<le> c" "c < 2 ^ 24" "0 \<le> f" "f < 16"
  shows "facility_of (int_of_error (HIVE_MK_ERROR f c)) = f"
proof -
  have c: "bit c m \<Longrightarrow> m < 24" for m
    using int_bit_above [OF assms(1,2)] not_le by blast
  have f: "bit f m \<Longrightarrow> m < 4" for m
    using int_bit_above [of f 4] assms(3,4) not_le by auto
  have 15: "(0x0F :: u32) = mask 4" by (simp add: mask_eq_exp_minus_1)
  have "and (signed_drop_bit 24 (HIVE_MK_ERROR f c)) 0x0F = (word_of_int f :: u32)"
    by (rule bit_word_eqI)
      (auto simp: 15 HIVE_MK_ERROR_def bit_simps dest: c f)
  then show ?thesis
    using assms(3,4) by (simp add: facility_of_def uint_u32_small)
qed

lemma errcode_of_mk_error:
  assumes "0 \<le> c" "c < 2 ^ 24" "0 \<le> f" "f < 128"
  shows "errcode_of (int_of_error (HIVE_MK_ERROR f c)) = c"
proof -
  have "errcode_of (int_of_error (HIVE_MK_ERROR f c)) = take_bit 24 (uint (HIVE_MK_ERROR f c))"
  proof -
    have "(0x00FFFFFF :: u32) = mask 24" by (simp add: mask_eq_exp_minus_1)
    then show ?thesis
      by (simp only: errcode_of_def word_of_int_of_error unsigned_take_bit_eq flip: take_bit_eq_mask)
  qed
  also have "\<dots> = (c + (f + 128) * 2 ^ 24) mod 2 ^ 24"
    using assms by (simp add: uint_HIVE_MK_ERROR take_bit_eq_mod add.commute)
  also have "\<dots> = c"
    using assms by (simp only: mod_mult_self1 mod_pos_pos_trivial)
  finally show ?thesis .
qed

lemma int_of_ssize_small: "- (2 ^ 31) \<le> x \<Longrightarrow> x < 2 ^ 31 \<Longrightarrow> int_of_ssize x = x"
  by (simp add: int_of_ssize_def signed_of_int signed_take_bit_int_eq_self)

lemma error_codes_neg [simp]:
  "int_of_error (HIVE_GENERAL_ERROR c) < 0" "int_of_error (HIVE_SYS_ERROR c) < 0"
  "int_of_error (HIVE_CURL_ERROR c) < 0" "int_of_error (HIVE_CURLU_ERROR c) < 0"
  "int_of_error (HIVE_HTTP_STATUS_ERROR c) < 0"
  by (simp_all add: HIVE_GENERAL_ERROR_def HIVE_SYS_ERROR_def HIVE_CURL_ERROR_def
      HIVE_CURLU_ERROR_def HIVE_HTTP_STATUS_ERROR_def)

lemma error_codes_nonzero [simp]:
  "int_of_error (HIVE_GENERAL_ERROR c) \<noteq> 0" "int_of_error (HIVE_SYS_ERROR c) \<noteq> 0"
  "int_of_error (HIVE_CURL_ERROR c) \<noteq> 0" "int_of_error (HIVE_CURLU_ERROR c) \<noteq> 0"
  "int_of_error (HIVE_HTTP_STATUS_ERROR c) \<noteq> 0"
  using error_codes_neg [of c] by linarith+

lemma ssize_of_error_ge: "2 ^ 31 \<le> ssize_of_error (HIVE_MK_ERROR f c)"
proof (rule ccontr)
  assume "\<not> ?thesis"
  then have "\<not> bit (uint (HIVE_MK_ERROR f c)) 31"
    by (intro int_bit_above [where k = 31]) (simp_all add: ssize_of_error_def)
  then show False using HIVE_MK_ERROR_bit31 [of f c] by (simp add: bit_uint_iff)
qed

lemma error_lengths:
  "2 ^ 31 \<le> ssize_of_error (HIVE_GENERAL_ERROR c)" "2 ^ 31 \<le> ssize_of_error (HIVE_CURL_ERROR c)"
  "2 ^ 31 \<le> ssize_of_error (HIVE_HTTP_STATUS_ERROR c)"
  using ssize_of_error_ge
  by (simp_all add: HIVE_GENERAL_ERROR_def HIVE_CURL_ERROR_def HIVE_HTTP_STATUS_ERROR_def)

end
