(* ===== verification/Hive_Libc.thy ===== *)
theory Hive_Libc
  imports Hive_Error
begin

text \<open>
  The environment the SDK runs in, as the C library shows it: the thread-local last error, the
  file system, \<open>errno\<close>, the clock, the heap and the remote end.

  \<^item> \<open>faults\<close> holds the outcomes of the next library calls that may fail: a call takes the head
    and succeeds when it is \<open>None\<close> or the list is empty; \<open>Fail e\<close> makes it fail with \<open>errno = e\<close>
    (an allocation then fails), \<open>Short k\<close> makes a \<open>read\<close> or \<open>write\<close> transfer at most \<open>k\<close> bytes.
  \<^item> \<open>clock\<close>, \<open>heap_junk\<close> and \<open>rand_src\<close> are arbitrary functions of the number of times they
    were consulted (\<open>tick\<close>): the time of day, the bytes of a block fresh from \<open>realloc\<close>, \<open>rand()\<close>.
  \<^item> \<open>curl_initialized\<close> is the flag \<open>initialized\<close> of \<open>http_client.c\<close>.
  \<^item> \<open>open_fds\<close> and \<open>live_http\<close> count the descriptors and HTTP clients in use, which the frame
    properties of the operations read.
  \<^item> \<open>remote\<close> is the state of the servers behind libcurl, of any type.

  Paths are resolved lexically (empty components and \<open>.\<close> are skipped); the working directory is
  the root, so that a relative and an absolute path name the same file; symbolic links, \<open>..\<close>
  and permissions are not modelled.
\<close>

datatype fnode = Dir | File bytes

datatype fault = Fail int | Short nat

record 'r world =
  hive_error :: int
  errno :: int
  files :: "string list \<Rightarrow> fnode option"
  open_fds :: int
  live_http :: int
  faults :: "fault option list"
  tick :: nat
  clock :: "nat \<Rightarrow> int \<times> int"
  heap_junk :: "nat \<Rightarrow> nat \<Rightarrow> char"
  rand_src :: "nat \<Rightarrow> nat"
  curl_initialized :: bool
  remote :: 'r

text \<open>A world with nothing in it, no pending fault and a clock that stands still, for examples.\<close>

definition calm_world :: "'r \<Rightarrow> 'r world" where
  "calm_world r = \<lparr>hive_error = 0, errno = 0, files = (\<lambda>_. None), open_fds = 0, live_http = 0,
     faults = [], tick = 0, clock = (\<lambda>_. (1000, 0)), heap_junk = (\<lambda>_ _. NUL),
     rand_src = (\<lambda>_. 0), curl_initialized = True, remote = r\<rparr>"

lemma calm_world_sel [simp]:
  "hive_error (calm_world r) = 0" "files (calm_world r) = (\<lambda>_. None)" "open_fds (calm_world r) = 0"
  "live_http (calm_world r) = 0" "faults (calm_world r) = []" "tick (calm_world r) = 0"
  "clock (calm_world r) = (\<lambda>_. (1000, 0))" "heap_junk (calm_world r) = (\<lambda>_ _. NUL)" "curl_initialized (calm_world r)" "remote (calm_world r) = r"
  by (simp_all add: calm_world_def)

text \<open>The HTTP clients and descriptors in use.\<close>

abbreviation held :: "'r world \<Rightarrow> int \<times> int" where
  "held w \<equiv> (live_http w, open_fds w)"

section \<open>The last-error slot\<close>

definition hive_get_error :: "'r world \<Rightarrow> int" where
  "hive_get_error w = hive_error w"

definition hive_clear_error :: "'r world \<Rightarrow> 'r world" where
  "hive_clear_error w = w\<lparr>hive_error := HIVEOK\<rparr>"

definition hive_set_error :: "int \<Rightarrow> 'r world \<Rightarrow> 'r world" where
  "hive_set_error err w = w\<lparr>hive_error := err\<rparr>"

lemma hive_get_set_error [simp]: "hive_get_error (hive_set_error e w) = e"
  by (simp add: hive_get_error_def hive_set_error_def)

lemma hive_set_error_sel [simp]:
  "hive_error (hive_set_error e w) = e"
  "errno (hive_set_error e w) = errno w"
  "files (hive_set_error e w) = files w"
  "open_fds (hive_set_error e w) = open_fds w"
  "live_http (hive_set_error e w) = live_http w"
  "faults (hive_set_error e w) = faults w"
  "remote (hive_set_error e w) = remote w"
  by (simp_all add: hive_set_error_def)

section \<open>\<open>errno\<close> values\<close>

definition ENOENT :: int where [hive_const]: "ENOENT = 2"
definition ENOMEM :: int where [hive_const]: "ENOMEM = 12"
definition EEXIST :: int where [hive_const]: "EEXIST = 17"
definition ENOTDIR :: int where [hive_const]: "ENOTDIR = 20"
definition EISDIR :: int where [hive_const]: "EISDIR = 21"
definition ERANGE :: int where [hive_const]: "ERANGE = 34"

section \<open>Faults, allocation, time\<close>

definition take_fault :: "'r world \<Rightarrow> fault option \<times> 'r world" where
  "take_fault w = (case faults w of [] \<Rightarrow> (None, w) | f # fs \<Rightarrow> (f, w\<lparr>faults := fs\<rparr>))"

definition c_alloc :: "'r world \<Rightarrow> bool \<times> 'r world" where
  "c_alloc w = (case take_fault w of
     (Some _, w1) \<Rightarrow> (False, w1\<lparr>errno := ENOMEM\<rparr>) | (None, w1) \<Rightarrow> (True, w1))"

definition c_gettimeofday :: "'r world \<Rightarrow> (int \<times> int) \<times> 'r world" where
  "c_gettimeofday w = (clock w (tick w), w\<lparr>tick := Suc (tick w)\<rparr>)"

definition c_rand :: "'r world \<Rightarrow> nat \<times> 'r world" where
  "c_rand w = (rand_src w (tick w), w\<lparr>tick := Suc (tick w)\<rparr>)"

section \<open>Paths\<close>

fun split_slash :: "string \<Rightarrow> string list" where
  "split_slash [] = [[]]"
| "split_slash (c # cs) =
     (if c = CHR ''/'' then [] # split_slash cs
      else case split_slash cs of s # ss \<Rightarrow> (c # s) # ss | [] \<Rightarrow> [[c]])"

definition path_key :: "string \<Rightarrow> string list" where
  "path_key p = filter (\<lambda>s. s \<noteq> [] \<and> s \<noteq> ''.'') (split_slash p)"

definition node_at :: "'r world \<Rightarrow> string list \<Rightarrow> fnode option" where
  "node_at w k = (if k = [] then Some Dir else files w k)"

definition parent_dir :: "'r world \<Rightarrow> string list \<Rightarrow> bool" where
  "parent_dir w k \<longleftrightarrow> k \<noteq> [] \<and> node_at w (butlast k) = Some Dir"

section \<open>File-system calls\<close>

definition set_errno :: "int \<Rightarrow> 'r world \<Rightarrow> 'r world" where
  "set_errno e w = w\<lparr>errno := e\<rparr>"

definition put_node :: "string list \<Rightarrow> fnode \<Rightarrow> 'r world \<Rightarrow> 'r world" where
  "put_node k n w = w\<lparr>files := (files w)(k := Some n)\<rparr>"

definition c_stat :: "string \<Rightarrow> 'r world \<Rightarrow> fnode option \<times> 'r world" where
  "c_stat p w = (case take_fault w of
     (Some (Fail e), w1) \<Rightarrow> (None, set_errno e w1)
   | (_, w1) \<Rightarrow> (case node_at w1 (path_key p) of
        None \<Rightarrow> (None, set_errno ENOENT w1) | Some n \<Rightarrow> (Some n, w1)))"

definition c_mkdir :: "string \<Rightarrow> 'r world \<Rightarrow> int \<times> 'r world" where
  "c_mkdir p w = (case take_fault w of
     (Some (Fail e), w1) \<Rightarrow> (-1, set_errno e w1)
   | (_, w1) \<Rightarrow>
       (if node_at w1 (path_key p) \<noteq> None then (-1, set_errno EEXIST w1)
        else if \<not> parent_dir w1 (path_key p) then (-1, set_errno ENOENT w1)
        else (0, put_node (path_key p) Dir w1)))"

text \<open>\<open>open\<close> with the three flag combinations of the sources.  A descriptor is the key of the
  opened file; \<open>None\<close> is the result \<open>-1\<close>.\<close>

datatype open_mode = RDONLY | CREAT_EXCL | TRUNC_CREAT

definition c_open :: "string \<Rightarrow> open_mode \<Rightarrow> 'r world \<Rightarrow> string list option \<times> 'r world" where
  "c_open p m w = (case take_fault w of
     (Some (Fail e), w1) \<Rightarrow> (None, set_errno e w1)
   | (_, w1) \<Rightarrow>
      (let k = path_key p; ok = \<lambda>w2. (Some k, w2\<lparr>open_fds := open_fds w2 + 1\<rparr>) in
       case m of
         RDONLY \<Rightarrow> (if node_at w1 k = None then (None, set_errno ENOENT w1) else ok w1)
       | CREAT_EXCL \<Rightarrow>
           (if node_at w1 k \<noteq> None then (None, set_errno EEXIST w1)
            else if \<not> parent_dir w1 k then (None, set_errno ENOENT w1)
            else ok (put_node k (File []) w1))
       | TRUNC_CREAT \<Rightarrow>
           (if node_at w1 k = Some Dir then (None, set_errno EISDIR w1)
            else if \<not> parent_dir w1 k then (None, set_errno ENOENT w1)
            else ok (put_node k (File []) w1))))"

definition c_close :: "string list \<Rightarrow> 'r world \<Rightarrow> 'r world" where
  "c_close fd w = w\<lparr>open_fds := open_fds w - 1\<rparr>"

text \<open>\<open>lseek(fd, 0, SEEK_END)\<close>: the size of the file, \<open>-1\<close> on failure.\<close>

definition c_lseek_end :: "string list \<Rightarrow> 'r world \<Rightarrow> int \<times> 'r world" where
  "c_lseek_end fd w = (case take_fault w of
     (Some (Fail e), w1) \<Rightarrow> (-1, set_errno e w1)
   | (_, w1) \<Rightarrow> (case node_at w1 fd of
        Some (File d) \<Rightarrow> (int (length d), w1) | _ \<Rightarrow> (-1, set_errno EISDIR w1)))"

definition c_read :: "string list \<Rightarrow> nat \<Rightarrow> 'r world \<Rightarrow> (int \<times> bytes) \<times> 'r world" where
  "c_read fd n w = (case take_fault w of
     (Some (Fail e), w1) \<Rightarrow> ((-1, []), set_errno e w1)
   | (f, w1) \<Rightarrow> (case node_at w1 fd of
        Some (File d) \<Rightarrow>
          (let t = take (case f of Some (Short k) \<Rightarrow> min k n | _ \<Rightarrow> n) d in ((int (length t), t), w1))
      | _ \<Rightarrow> ((-1, []), set_errno EISDIR w1)))"

definition c_write :: "string list \<Rightarrow> bytes \<Rightarrow> 'r world \<Rightarrow> int \<times> 'r world" where
  "c_write fd src w = (case take_fault w of
     (Some (Fail e), w1) \<Rightarrow> (-1, set_errno e w1)
   | (f, w1) \<Rightarrow> (case node_at w1 fd of
        Some (File d) \<Rightarrow>
          (let t = (case f of Some (Short k) \<Rightarrow> take k src | _ \<Rightarrow> src)
           in (int (length t), put_node fd (File (d @ t)) w1))
      | _ \<Rightarrow> (-1, set_errno EISDIR w1)))"

definition c_unlink :: "string \<Rightarrow> 'r world \<Rightarrow> int \<times> 'r world" where
  "c_unlink p w = (case take_fault w of
     (Some (Fail e), w1) \<Rightarrow> (-1, set_errno e w1)
   | (_, w1) \<Rightarrow> (case node_at w1 (path_key p) of
        Some (File d) \<Rightarrow> (0, w1\<lparr>files := (files w1)(path_key p := None)\<rparr>)
      | Some Dir \<Rightarrow> (-1, set_errno EISDIR w1)
      | None \<Rightarrow> (-1, set_errno ENOENT w1)))"

definition c_access :: "string \<Rightarrow> 'r world \<Rightarrow> bool \<times> 'r world" where
  "c_access p w = (case take_fault w of
     (Some (Fail e), w1) \<Rightarrow> (False, set_errno e w1)
   | (_, w1) \<Rightarrow> (node_at w1 (path_key p) \<noteq> None, w1))"

lemmas libc_defs = take_fault_def c_alloc_def c_gettimeofday_def c_rand_def set_errno_def
  put_node_def c_stat_def c_mkdir_def c_open_def c_close_def c_lseek_end_def c_read_def
  c_write_def c_unlink_def c_access_def

section \<open>What the calls leave alone\<close>

text \<open>No call of this theory touches the last error, the HTTP clients or the servers; only
  \<open>c_open\<close> and \<open>c_close\<close> change the number of open descriptors.\<close>

definition same_net :: "'r world \<Rightarrow> 'r world \<Rightarrow> bool" where
  "same_net w w' \<longleftrightarrow> hive_error w' = hive_error w \<and> live_http w' = live_http w \<and> remote w' = remote w"

lemma same_net_refl [simp]: "same_net w w"
  by (simp add: same_net_def)

lemma same_net_trans [trans]: "same_net a b \<Longrightarrow> same_net b c \<Longrightarrow> same_net a c"
  by (simp add: same_net_def)

lemma take_fault_frame:
  "take_fault w = (f, w') \<Longrightarrow> same_net w w' \<and> open_fds w' = open_fds w \<and> files w' = files w"
  by (auto simp: take_fault_def same_net_def split: list.splits)

lemma c_alloc_frame [hive_frame]:
  "c_alloc w = (b, w') \<Longrightarrow> same_net w w' \<and> open_fds w' = open_fds w \<and> files w' = files w"
  by (auto simp: c_alloc_def take_fault_def same_net_def split: list.splits option.splits)

lemma c_gettimeofday_frame [hive_frame]:
  "c_gettimeofday w = (t, w') \<Longrightarrow> same_net w w' \<and> open_fds w' = open_fds w \<and> files w' = files w"
  by (auto simp: c_gettimeofday_def same_net_def)

lemma c_stat_frame [hive_frame]:
  "c_stat p w = (n, w') \<Longrightarrow> same_net w w' \<and> open_fds w' = open_fds w \<and> files w' = files w"
  by (auto simp: libc_defs same_net_def split: list.splits option.splits fault.splits)

lemma c_mkdir_frame [hive_frame]:
  "c_mkdir p w = (n, w') \<Longrightarrow> same_net w w' \<and> open_fds w' = open_fds w"
  by (auto simp: libc_defs same_net_def split: list.splits option.splits fault.splits if_splits)

lemma c_open_frame [hive_frame]:
  "c_open p m w = (fd, w') \<Longrightarrow>
     same_net w w' \<and> open_fds w' = open_fds w + (if fd = None then 0 else 1)"
  by (auto simp: libc_defs same_net_def Let_def
      split: list.splits option.splits fault.splits open_mode.splits if_splits)

lemma c_close_frame [hive_frame]:
  "same_net w (c_close fd w) \<and> open_fds (c_close fd w) = open_fds w - 1
     \<and> files (c_close fd w) = files w"
  by (simp add: libc_defs same_net_def)

lemma c_lseek_end_frame [hive_frame]:
  "c_lseek_end fd w = (n, w') \<Longrightarrow> same_net w w' \<and> open_fds w' = open_fds w \<and> files w' = files w"
  by (auto simp: libc_defs same_net_def split: list.splits option.splits fault.splits fnode.splits)

lemma c_read_frame [hive_frame]:
  "c_read fd k w = (n, w') \<Longrightarrow> same_net w w' \<and> open_fds w' = open_fds w \<and> files w' = files w"
  by (auto simp: libc_defs same_net_def Let_def
      split: list.splits option.splits fault.splits fnode.splits)

lemma c_write_frame [hive_frame]:
  "c_write fd d w = (n, w') \<Longrightarrow> same_net w w' \<and> open_fds w' = open_fds w"
  by (auto simp: libc_defs same_net_def Let_def
      split: list.splits option.splits fault.splits fnode.splits)

lemma c_unlink_frame [hive_frame]:
  "c_unlink p w = (n, w') \<Longrightarrow> same_net w w' \<and> open_fds w' = open_fds w"
  by (auto simp: libc_defs same_net_def
      split: list.splits option.splits fault.splits fnode.splits)

lemma c_access_frame [hive_frame]:
  "c_access p w = (n, w') \<Longrightarrow> same_net w w' \<and> open_fds w' = open_fds w \<and> files w' = files w"
  by (auto simp: libc_defs same_net_def split: list.splits option.splits fault.splits)

text \<open>The same frames as rewrite rules.\<close>

lemma fs_live:
  "c_stat p w = (n, w1) \<Longrightarrow> live_http w1 = live_http w" "c_stat p w = (n, w1) \<Longrightarrow> open_fds w1 = open_fds w"
  "c_read fd' k w = (d, w1) \<Longrightarrow> live_http w1 = live_http w" "c_read fd' k w = (d, w1) \<Longrightarrow> open_fds w1 = open_fds w"
  "c_write fd' b w = (n', w1) \<Longrightarrow> live_http w1 = live_http w" "c_write fd' b w = (n', w1) \<Longrightarrow> open_fds w1 = open_fds w"
  "c_access p w = (t, w1) \<Longrightarrow> live_http w1 = live_http w" "c_access p w = (t, w1) \<Longrightarrow> open_fds w1 = open_fds w"
  "c_mkdir p w = (rc, w1) \<Longrightarrow> live_http w1 = live_http w" "c_mkdir p w = (rc, w1) \<Longrightarrow> open_fds w1 = open_fds w"
  "c_lseek_end fd' w = (n', w1) \<Longrightarrow> live_http w1 = live_http w"
  "c_lseek_end fd' w = (n', w1) \<Longrightarrow> open_fds w1 = open_fds w"
  "c_unlink p w = (rc, w1) \<Longrightarrow> live_http w1 = live_http w" "c_unlink p w = (rc, w1) \<Longrightarrow> open_fds w1 = open_fds w"
  using c_stat_frame [of p w n w1] c_read_frame [of fd' k w d w1] c_write_frame [of fd' b w n' w1]
    c_access_frame [of p w t w1] c_mkdir_frame [of p w rc w1] c_lseek_end_frame [of fd' w n' w1]
    c_unlink_frame [of p w rc w1]
  by (simp_all add: same_net_def)

lemma c_access_held: "c_access p w = (t, w1) \<Longrightarrow> held w1 = held w"
  by (simp add: fs_live)

lemma open_live:
  "c_open p m w = (fd, w1) \<Longrightarrow> live_http w1 = live_http w"
  "c_open p m w = (None, w1) \<Longrightarrow> open_fds w1 = open_fds w"
  "c_open p m w = (Some k, w1) \<Longrightarrow> open_fds w1 = open_fds w + 1"
  using c_open_frame [of p m w] by (auto simp: same_net_def)

lemma close_live [simp]:
  "live_http (c_close fd w) = live_http w" "open_fds (c_close fd w) = open_fds w - 1"
  by (simp_all add: c_close_def)

lemma set_errno_live [simp]: "live_http (set_errno e w) = live_http w" "open_fds (set_errno e w) = open_fds w"
  by (simp_all add: set_errno_def)

section \<open>Blocks of memory\<close>

text \<open>\<open>realloc\<close>, which leaves junk in the new part of the block, and \<open>memcpy\<close> into a block.\<close>

definition resize_block :: "(nat \<Rightarrow> char) \<Rightarrow> nat \<Rightarrow> bytes \<Rightarrow> bytes" where
  "resize_block junk n blk = take n blk @ map junk [length blk..<n]"

definition store_at :: "nat \<Rightarrow> bytes \<Rightarrow> bytes \<Rightarrow> bytes option" where
  "store_at pos src blk =
     (if pos + length src \<le> length blk
      then Some (take pos blk @ src @ drop (pos + length src) blk) else None)"

lemma store_at_content:
  "store_at pos src blk = Some d \<Longrightarrow> length d = length blk \<and> take (pos + length src) d = take pos blk @ src"
  by (auto simp: store_at_def split: if_splits)

lemma resize_block_props:
  "length blk \<le> n \<Longrightarrow> length (resize_block junk n blk) = n"
  "k \<le> length blk \<Longrightarrow> length blk \<le> n \<Longrightarrow> take k (resize_block junk n blk) = take k blk"
  by (auto simp: resize_block_def)

end
