(* ===== verification/Hive_Strerror.thy ===== *)
theory Hive_Strerror
  imports Hive_Libc
begin

text \<open>
  Error numbers as text: the per-facility description functions and \<open>hive_get_strerror\<close>
  (\<open>src/src/hive_error.c\<close>), \<open>http_status_error\<close> (\<open>src/src/http_status.c\<close>) and
  \<open>curlu_strerror\<close> (\<open>src/src/http/http_client.c\<close>).

  A description function gets the room left in the caller's buffer; its result is the return
  code and the text it stored, \<open>None\<close> when it stored none.  \<open>strerror_r\<close> and
  \<open>curl_easy_strerror\<close> are parameters.
\<close>

type_synonym strerror_func = "int \<Rightarrow> nat \<Rightarrow> (int \<times> string option) option"
type_synonym facility_table = "(string \<times> strerror_func option) list"

text \<open>The codes of the libcurl URL interface (\<open>CURLUcode\<close>, part of its binary interface).\<close>

definition CURLUE_BAD_HANDLE :: int where [hive_const]: "CURLUE_BAD_HANDLE = 1"
definition CURLUE_BAD_PARTPOINTER :: int where [hive_const]: "CURLUE_BAD_PARTPOINTER = 2"
definition CURLUE_MALFORMED_INPUT :: int where [hive_const]: "CURLUE_MALFORMED_INPUT = 3"
definition CURLUE_BAD_PORT_NUMBER :: int where [hive_const]: "CURLUE_BAD_PORT_NUMBER = 4"
definition CURLUE_UNSUPPORTED_SCHEME :: int where [hive_const]: "CURLUE_UNSUPPORTED_SCHEME = 5"
definition CURLUE_URLDECODE :: int where [hive_const]: "CURLUE_URLDECODE = 6"
definition CURLUE_OUT_OF_MEMORY :: int where [hive_const]: "CURLUE_OUT_OF_MEMORY = 7"
definition CURLUE_USER_NOT_ALLOWED :: int where [hive_const]: "CURLUE_USER_NOT_ALLOWED = 8"
definition CURLUE_UNKNOWN_PART :: int where [hive_const]: "CURLUE_UNKNOWN_PART = 9"
definition CURLUE_NO_SCHEME :: int where [hive_const]: "CURLUE_NO_SCHEME = 10"
definition CURLUE_NO_USER :: int where [hive_const]: "CURLUE_NO_USER = 11"
definition CURLUE_NO_PASSWORD :: int where [hive_const]: "CURLUE_NO_PASSWORD = 12"
definition CURLUE_NO_OPTIONS :: int where [hive_const]: "CURLUE_NO_OPTIONS = 13"
definition CURLUE_NO_HOST :: int where [hive_const]: "CURLUE_NO_HOST = 14"
definition CURLUE_NO_PORT :: int where [hive_const]: "CURLUE_NO_PORT = 15"
definition CURLUE_NO_QUERY :: int where [hive_const]: "CURLUE_NO_QUERY = 16"
definition CURLUE_NO_FRAGMENT :: int where [hive_const]: "CURLUE_NO_FRAGMENT = 17"

definition curlu_codes :: error_desc where
  "curlu_codes = [
    (CURLUE_BAD_HANDLE, ''CURLU pointer argument passed as NULL.''),
    (CURLUE_BAD_PARTPOINTER, ''part argument passed as NULL.''),
    (CURLUE_MALFORMED_INPUT, ''a malformed input passed.''),
    (CURLUE_BAD_PORT_NUMBER, ''invalid port number''),
    (CURLUE_UNSUPPORTED_SCHEME, ''unsupported scheme''),
    (CURLUE_URLDECODE, ''URL decode error''),
    (CURLUE_OUT_OF_MEMORY, ''a memory function failed''),
    (CURLUE_USER_NOT_ALLOWED, ''credentials was passed when prohibited''),
    (CURLUE_UNKNOWN_PART, ''an unknown part ID''),
    (CURLUE_NO_SCHEME, ''no scheme part in the URL''),
    (CURLUE_NO_USER, ''no user part in the URL''),
    (CURLUE_NO_PASSWORD, ''no password part in the URL''),
    (CURLUE_NO_OPTIONS, ''no options part in the URL''),
    (CURLUE_NO_HOST, ''no host part in the URL''),
    (CURLUE_NO_PORT, ''no port part in the URL''),
    (CURLUE_NO_QUERY, ''no query part in the URL''),
    (CURLUE_NO_FRAGMENT, ''no fragment part in the URL'')]"

definition curlu_strerror :: "int \<Rightarrow> string option" where
  "curlu_strerror errcode = find_desc curlu_codes errcode"

section \<open>The description functions\<close>

definition general_error :: strerror_func where
  "general_error errcode len =
     (case find_desc error_codes errcode of
        None \<Rightarrow> Some (int_of_error (HIVE_GENERAL_ERROR HIVEERR_INVALID_ARGS), None)
      | Some d \<Rightarrow>
          if len \<le> length d then Some (int_of_error (HIVE_GENERAL_ERROR HIVEERR_INVALID_ARGS), None)
          else do { s \<leftarrow> c_strcpy len d; Some (0, Some s) })"

definition http_status_error :: strerror_func where
  "http_status_error errcode len =
     (case find_desc status_codes errcode of
        None \<Rightarrow> Some (int_of_error (HIVE_GENERAL_ERROR HIVEERR_INVALID_ARGS), None)
      | Some d \<Rightarrow>
          if len \<le> length d then Some (int_of_error (HIVE_GENERAL_ERROR HIVEERR_INVALID_ARGS), None)
          else do { s \<leftarrow> c_strcpy len d; Some (0, Some s) })"

definition system_error :: "(int \<Rightarrow> nat \<Rightarrow> int \<times> string) \<Rightarrow> strerror_func" where
  "system_error strerror_r errcode len =
     (case strerror_r errcode len of (rc, s) \<Rightarrow>
        if rc < 0 then Some (int_of_error (HIVE_SYS_ERROR HIVEERR_INVALID_ARGS), Some s)
        else Some (0, Some s))"

definition curl_error :: "(int \<Rightarrow> string option) \<Rightarrow> strerror_func" where
  "curl_error curl_strerror errcode len =
     (case curl_strerror errcode of
        None \<Rightarrow> Some (int_of_error (HIVE_GENERAL_ERROR HIVEERR_INVALID_ARGS), None)
      | Some d \<Rightarrow>
          if len \<le> length d then Some (int_of_error (HIVE_GENERAL_ERROR HIVEERR_BUFFER_TOO_SMALL), None)
          else do { s \<leftarrow> c_strcpy len d; Some (0, Some s) })"

definition curlu_error :: strerror_func where
  "curlu_error errcode len =
     (case curlu_strerror errcode of
        None \<Rightarrow> Some (int_of_error (HIVE_GENERAL_ERROR HIVEERR_INVALID_ARGS), None)
      | Some d \<Rightarrow>
          if len \<le> length d then Some (int_of_error (HIVE_GENERAL_ERROR HIVEERR_BUFFER_TOO_SMALL), None)
          else do { s \<leftarrow> c_strcpy len d; Some (0, Some s) })"

section \<open>The interface of a description function\<close>

text \<open>A description function returns, reports failure by a negative code and stores a text (with
  its NUL) that fits the room it was given exactly when it reports success.\<close>

locale errstring =
  fixes errfun :: strerror_func
  assumes returns: "errfun errcode len \<noteq> None"
    and fails: "errfun errcode len = Some (rc, None) \<Longrightarrow> rc < 0"
    and fits: "errfun errcode len = Some (rc, Some s) \<Longrightarrow> rc = 0 \<and> length s < len"
begin

lemma success_text:
  assumes "errfun errcode len = Some (rc, out)" "0 \<le> rc"
  obtains s where "out = Some s" "length s < len" "rc = 0"
  using assms fails fits by (cases out) fastforce+

lemma outcome:
  obtains (fail) rc where "errfun errcode len = Some (rc, None)" "rc < 0"
  | (ok) s where "errfun errcode len = Some (0, Some s)" "length s < len"
proof -
  obtain rc out where e: "errfun errcode len = Some (rc, out)"
    using returns [of errcode len] by (cases "errfun errcode len") auto
  then show thesis
    using fails fits fail ok by (cases out) fastforce+
qed

end

interpretation general: errstring general_error
  by unfold_locales (auto simp: general_error_def HIVE_GENERAL_ERROR_def split: option.splits if_splits)

interpretation httpstat: errstring http_status_error
  by unfold_locales (auto simp: http_status_error_def HIVE_GENERAL_ERROR_def split: option.splits if_splits)

interpretation curl: errstring "curl_error curl_strerror" for curl_strerror
  by unfold_locales (auto simp: curl_error_def HIVE_GENERAL_ERROR_def split: option.splits if_splits)

interpretation curlu: errstring curlu_error
  by unfold_locales (auto simp: curlu_error_def HIVE_GENERAL_ERROR_def split: option.splits if_splits)

section \<open>The facility table and \<open>hive_get_strerror\<close>\<close>

definition facility_codes ::
  "(int \<Rightarrow> nat \<Rightarrow> int \<times> string) \<Rightarrow> (int \<Rightarrow> string option) \<Rightarrow> facility_table" where
  "facility_codes strerror_r curl_strerror =
     [(''[General] '', Some general_error),
      (''[System] '', Some (system_error strerror_r)),
      (''Reserved facility'', None),
      (''Reserved facility'', None),
      (''[curl] '', Some (curl_error curl_strerror)),
      (''[curlu] '', Some curlu_error),
      (''[httpstat] '', Some http_status_error)]"

text \<open>\<open>buf\<close> tells whether the caller's buffer is non-NULL, \<open>len\<close> is its size; the result is the
  text of the buffer (\<open>None\<close> for a returned NULL).  The facility name is copied with \<open>strcpy\<close>
  after a test \<open>len < desc_len\<close>.\<close>

definition hive_get_strerror ::
  "facility_table \<Rightarrow> int \<Rightarrow> bool \<Rightarrow> nat \<Rightarrow> 'r world \<Rightarrow> (string option \<times> 'r world) option" where
  "hive_get_strerror tbl errnum buf len w =
     (let negative = bit (word_of_int errnum :: u32) 31;
          facility = facility_of errnum;
          errcode = errcode_of errnum
      in if \<not> buf \<or> \<not> negative \<or> facility \<le> 0 \<or> int (length tbl) < facility
         then Some (None, hive_set_error (int_of_error (HIVE_GENERAL_ERROR HIVEERR_INVALID_ARGS)) w)
         else
           (let (desc, errstring) = tbl ! nat (facility - 1); desc_len = length desc
            in if len < desc_len
               then Some (None,
                 hive_set_error (int_of_error (HIVE_GENERAL_ERROR HIVEERR_BUFFER_TOO_SMALL)) w)
               else do {
                 p \<leftarrow> c_strcpy len desc;
                 (rc, out) \<leftarrow> (case errstring of
                    None \<Rightarrow> Some (0, None) | Some f \<Rightarrow> f errcode (len - desc_len));
                 if rc < 0 then Some (None, hive_set_error rc w)
                 else Some (Some (p @ (case out of None \<Rightarrow> [] | Some s \<Rightarrow> s)), w)
               }))"

definition hive_register_strerror ::
  "facility_table \<Rightarrow> int \<Rightarrow> strerror_func \<Rightarrow> 'r world \<Rightarrow> int \<times> facility_table \<times> 'r world" where
  "hive_register_strerror tbl facility strerr w =
     (if facility \<le> 0 \<or> HIVEF_HTTP_STATUS < facility
      then (-1, tbl, hive_set_error (int_of_error (HIVE_GENERAL_ERROR HIVEERR_INVALID_ARGS)) w)
      else (let (desc, f) = tbl ! nat (facility - 1)
            in (0, (if f = None then tbl[nat (facility - 1) := (desc, Some strerr)] else tbl), w)))"

section \<open>What the caller reads\<close>

lemma error_codes_distinct: "distinct (map fst error_codes)"
  by (simp add: error_codes_def hive_const)

lemma status_codes_distinct: "distinct (map fst status_codes)"
  by (simp add: status_codes_def hive_const)

lemma error_codes_range: "(c, d) \<in> set error_codes \<Longrightarrow> 0 \<le> c \<and> c < 2 ^ 24"
  by (auto simp: error_codes_def hive_const)

lemma status_codes_range: "(c, d) \<in> set status_codes \<Longrightarrow> 0 \<le> c \<and> c < 2 ^ 24"
  by (auto simp: status_codes_def hive_const)

lemma find_desc_member:
  "distinct (map fst es) \<Longrightarrow> (c, d) \<in> set es \<Longrightarrow> find_desc es c = Some d"
  by (simp add: find_desc_map_of)

lemma mk_error_negative: "bit (word_of_int (int_of_error (HIVE_MK_ERROR f c)) :: u32) 31"
  by (simp add: HIVE_MK_ERROR_bit31)

text \<open>The documented behaviour of \<open>strerror_r\<close>: the message it stores fits the buffer.\<close>

definition strerror_r_ok :: "(int \<Rightarrow> nat \<Rightarrow> int \<times> string) \<Rightarrow> bool" where
  "strerror_r_ok strerror_r \<longleftrightarrow> (\<forall>e n. 0 < n \<longrightarrow> length (snd (strerror_r e n)) < n)"

lemma facility_index:
  "1 \<le> f \<Longrightarrow> f \<le> 7 \<Longrightarrow> f = 1 \<or> f = 2 \<or> f = 3 \<or> f = 4 \<or> f = 5 \<or> f = 6 \<or> f = (7 :: int)"
  by arith

lemma hive_get_strerror_valid:
  assumes "0 \<le> c" "c < 2 ^ 24" "1 \<le> f" "f \<le> int (length tbl)" "length tbl < 16"
    and "tbl ! nat (f - 1) = (desc, g)"
  shows "hive_get_strerror tbl (int_of_error (HIVE_MK_ERROR f c)) True len w =
    (if len < length desc
     then Some (None, hive_set_error (int_of_error (HIVE_GENERAL_ERROR HIVEERR_BUFFER_TOO_SMALL)) w)
     else do {
       p \<leftarrow> c_strcpy len desc;
       (rc, out) \<leftarrow> (case g of None \<Rightarrow> Some (0, None) | Some h \<Rightarrow> h c (len - length desc));
       if rc < 0 then Some (None, hive_set_error rc w)
       else Some (Some (p @ (case out of None \<Rightarrow> [] | Some s \<Rightarrow> s)), w)
     })"
  using assms facility_of_mk_error [of c f] errcode_of_mk_error [of c f]
  by (simp add: hive_get_strerror_def Let_def mk_error_negative del: word_of_int_of_error)

lemmas strerror_tbl_simps = facility_codes_def HIVE_GENERAL_ERROR_def HIVE_HTTP_STATUS_ERROR_def
  hive_const

text \<open>The error number of a general error gives the text of the table with the prefix of its
  facility, for every entry of the table and every buffer it fits.\<close>

theorem strerror_general:
  assumes "(c, d) \<in> set error_codes" "length ''[General] '' + length d < len"
  shows "hive_get_strerror (facility_codes strerror_r curl_strerror)
           (int_of_error (HIVE_GENERAL_ERROR c)) True len w
         = Some (Some (''[General] '' @ d), w)"
proof -
  have "find_desc error_codes c = Some d"
    using find_desc_member [OF error_codes_distinct assms(1)] .
  then show ?thesis
    using error_codes_range [OF assms(1)] assms(2)
    by (simp add: hive_get_strerror_valid [where desc = "''[General] ''" and g = "Some general_error"]
        strerror_tbl_simps general_error_def)
qed

theorem strerror_general_witness:
  "(HIVEERR_TRY_AGAIN, ''Try again the operation'') \<in> set error_codes
   \<and> length ''[General] '' + length ''Try again the operation'' < 64
   \<and> hive_get_strerror (facility_codes (\<lambda>_ _. (0, [])) (\<lambda>_. None))
        (int_of_error (HIVE_GENERAL_ERROR HIVEERR_TRY_AGAIN)) True 64 (calm_world ())
      = Some (Some ''[General] Try again the operation'', calm_world ())"
proof -
  have m: "(HIVEERR_TRY_AGAIN, ''Try again the operation'') \<in> set error_codes"
    by (simp add: error_codes_def)
  have l: "length ''[General] '' + length ''Try again the operation'' < 64" by simp
  show ?thesis using m l strerror_general [OF m l] by simp
qed

text \<open>The error number of an HTTP status gives the text of the status table with the prefix of its
  facility, for every entry of the table and every buffer it fits.\<close>

theorem strerror_http_status:
  assumes "(c, d) \<in> set status_codes" "length ''[httpstat] '' + length d < len"
  shows "hive_get_strerror (facility_codes strerror_r curl_strerror)
           (int_of_error (HIVE_HTTP_STATUS_ERROR c)) True len w
         = Some (Some (''[httpstat] '' @ d), w)"
proof -
  have "find_desc status_codes c = Some d"
    using find_desc_member [OF status_codes_distinct assms(1)] .
  then show ?thesis
    using status_codes_range [OF assms(1)] assms(2)
    by (simp add: hive_get_strerror_valid [where desc = "''[httpstat] ''" and g = "Some http_status_error"]
        strerror_tbl_simps http_status_error_def)
qed

theorem strerror_http_status_witness:
  "(HttpStatus_NotFound, ''Not Found'') \<in> set status_codes
   \<and> length ''[httpstat] '' + length ''Not Found'' < 32
   \<and> hive_get_strerror (facility_codes (\<lambda>_ _. (0, [])) (\<lambda>_. None))
        (int_of_error (HIVE_HTTP_STATUS_ERROR HttpStatus_NotFound)) True 32 (calm_world ())
      = Some (Some ''[httpstat] Not Found'', calm_world ())"
proof -
  have m: "(HttpStatus_NotFound, ''Not Found'') \<in> set status_codes"
    by (simp add: status_codes_def)
  have l: "length ''[httpstat] '' + length ''Not Found'' < 32" by simp
  show ?thesis using m l strerror_http_status [OF m l] by simp
qed

definition facility_name :: "int \<Rightarrow> string" where
  "facility_name f = fst (facility_codes (\<lambda>_ _. (0, [])) (\<lambda>_. None) ! nat (f - 1))"

lemma facility_entry:
  assumes "1 \<le> f" "f \<le> 7"
  obtains g where "facility_codes sr cs ! nat (f - 1) = (facility_name f, g)"
    and "\<And>h e n. g = Some h \<Longrightarrow> h e n \<noteq> None"
    and "\<And>h e n rc s. g = Some h \<Longrightarrow> h e n = Some (rc, Some s) \<Longrightarrow> 0 < n \<Longrightarrow>
           strerror_r_ok sr \<Longrightarrow> length s < n"
proof (rule that)
  let ?g = "snd (facility_codes sr cs ! nat (f - 1))"
  note defs = facility_codes_def facility_name_def
  show "facility_codes sr cs ! nat (f - 1) = (facility_name f, ?g)"
    using facility_index [OF assms] by (elim disjE) (simp_all add: defs)
  show "h e n \<noteq> None" if "?g = Some h" for h e n
    using facility_index [OF assms] that general.returns [of e n] curl.returns [of cs e n]
      curlu.returns [of e n] httpstat.returns [of e n]
    by (elim disjE) (auto simp: defs system_error_def split: prod.splits)
  show "length s < n" if "?g = Some h" "h e n = Some (rc, Some s)" "0 < n" "strerror_r_ok sr"
    for h e n rc s
    using facility_index [OF assms] that general.fits [of e n rc s] curl.fits [of cs e n rc s]
      curlu.fits [of e n rc s] httpstat.fits [of e n rc s]
    by (elim disjE) (auto simp: defs system_error_def strerror_r_ok_def split: prod.splits if_splits
        dest!: spec [of _ e] spec [of _ n])
qed

text \<open>C26: \<open>hive_get_strerror\<close> writes outside the caller's buffer exactly when the buffer
  is as long as the prefix of the facility: the check compares with less-than where the terminating
  NUL needs one byte more.\<close>

theorem strerror_overflow_iff:
  assumes "1 \<le> f" "f \<le> 7" "0 \<le> c" "c < 2 ^ 24"
  shows "hive_get_strerror (facility_codes sr cs) (int_of_error (HIVE_MK_ERROR f c)) True len w = None
     \<longleftrightarrow> len = length (facility_name f)"
proof -
  have n: "length (facility_codes sr cs) = 7" by (simp add: facility_codes_def)
  obtain g where g: "facility_codes sr cs ! nat (f - 1) = (facility_name f, g)"
    and ret: "\<And>h e n. g = Some h \<Longrightarrow> h e n \<noteq> None"
    using facility_entry [OF assms(1,2), of sr cs] by metis
  have call: "\<exists>rc out. (case g of None \<Rightarrow> Some (0, None) | Some h \<Rightarrow> h c k) = Some (rc, out)" for k
    using ret [of _ c k] by (cases g) auto
  show ?thesis
    using hive_get_strerror_valid [OF assms(3,4,1) _ _ g, of len w] n assms(2)
      call [of "len - length (facility_name f)"]
    by (cases len "length (facility_name f)" rule: linorder_cases) auto
qed

theorem strerror_overflow_iff_witness:
  "(1 :: int) \<le> 1 \<and> (1 :: int) \<le> 7 \<and> (0 :: int) \<le> HIVEERR_BUSY \<and> HIVEERR_BUSY < 2 ^ 24 \<and>
   hive_get_strerror (facility_codes (\<lambda>_ _. (0, [])) (\<lambda>_. None))
     (int_of_error (HIVE_MK_ERROR 1 HIVEERR_BUSY)) True 10 (calm_world ()) = None"
proof -
  have h: "(1 :: int) \<le> 1" "(1 :: int) \<le> 7" "0 \<le> HIVEERR_BUSY" "HIVEERR_BUSY < 2 ^ 24"
    by (simp_all add: hive_const)
  have "length (facility_name 1) = 10"
    by (simp add: facility_name_def facility_codes_def)
  with h show ?thesis
    using strerror_overflow_iff [OF h, of "\<lambda>_ _. (0, [])" "\<lambda>_. None" 10 "calm_world ()"] by simp
qed

text \<open>A text that \<open>hive_get_strerror\<close> returns fits the buffer with its NUL, begins
  with the prefix of the facility, and changes no state, for every facility and code.\<close>

theorem strerror_fits:
  assumes "strerror_r_ok sr" "1 \<le> f" "f \<le> 7" "0 \<le> c" "c < 2 ^ 24"
    and "hive_get_strerror (facility_codes sr cs) (int_of_error (HIVE_MK_ERROR f c)) True len w
         = Some (Some t, w')"
  shows "length t < len \<and> prefix (facility_name f) t \<and> w' = w"
proof -
  have n: "length (facility_codes sr cs) = 7" by (simp add: facility_codes_def)
  obtain g where g: "facility_codes sr cs ! nat (f - 1) = (facility_name f, g)"
    and fit: "\<And>h e n rc s. g = Some h \<Longrightarrow> h e n = Some (rc, Some s) \<Longrightarrow> 0 < n \<Longrightarrow> length s < n"
    using facility_entry [OF assms(2,3), of sr cs] assms(1) by metis
  show ?thesis
    using hive_get_strerror_valid [OF assms(4,5,2) _ _ g, of len w] n assms(3,6)
      fit [of _ c "len - length (facility_name f)"]
    by (fastforce simp: bind_eq_Some_iff split: if_splits option.splits)
qed

theorem strerror_fits_witness:
  "length ''[curl] timeout'' < 20 \<and> prefix (facility_name 5) ''[curl] timeout'' \<and> calm_world () = calm_world ()"
proof -
  let ?sr = "\<lambda>(_ :: int) (_ :: nat). (0 :: int, [] :: string)"
  let ?cs = "\<lambda>_ :: int. Some ''timeout''"
  have ok: "strerror_r_ok ?sr" by (simp add: strerror_r_ok_def)
  have "nat (5 - 1) = (4 :: nat)" by simp
  then have "hive_get_strerror (facility_codes ?sr ?cs) (int_of_error (HIVE_MK_ERROR 5 28)) True 20 (calm_world ())
      = Some (Some ''[curl] timeout'', calm_world ())"
    by (simp add: hive_get_strerror_valid [where desc = "''[curl] ''" and g = "Some (curl_error ?cs)"]
        facility_codes_def curl_error_def)
  from strerror_fits [OF ok _ _ _ _ this] show ?thesis by simp
qed

end
