(* ===== verification/Hive_Http.thy ===== *)
theory Hive_Http
  imports Hive_Libc
begin

text \<open>
  The HTTP client (\<open>src/src/http/http_client.c\<close>) and the third-party code it and its callers
  rest on.

  libcurl and cJSON are parameters, gathered in the record \<open>ext\<close>: every operation that reaches
  them takes a value of it as its first argument.  An easy handle is the list of the options set
  since it was created or reset, a URL handle the list of the \<open>curl_url_set\<close> calls made on it;
  \<open>curl_perform\<close> sees both lists and the state of the remote end and yields a transfer: the
  result code, the chunks it passes to the write callback, the response status.  A cJSON tree is
  a value of the type parameter \<open>'j\<close>, read through the accessors.

  The body of a response is kept in a growing buffer (\<open>http_response_body_t\<close>) whose sizes are
  64-bit words, as \<open>size_t\<close> is, because the growth loop relies on their wrap-around.
\<close>

section \<open>Third-party code\<close>

text \<open>The block a caller of \<open>http_client_set_response_body\<close> wants filled: its room and what the
  callback has stored so far.\<close>

record sink =
  sk_cap :: nat
  sk_data :: bytes

datatype write_fn =
    Eat_output
  | Response_body
  | Caller_cb "sink \<Rightarrow> bytes \<Rightarrow> (nat \<times> sink) option"

record mime_part =
  mp_name :: "string option"
  mp_filename :: "string option"
  mp_type :: "string option"
  mp_data :: bytes

datatype curl_opt =
    CURLOPT_DEBUGFUNCTION
  | CURLOPT_VERBOSE int
  | CURLOPT_WRITEFUNCTION write_fn
  | CURLOPT_WRITEDATA
  | CURLOPT_CURLU
  | CURLOPT_NOSIGNAL int
  | CURLOPT_HTTPGET int
  | CURLOPT_POST int
  | CURLOPT_CUSTOMREQUEST string
  | CURLOPT_TIMEOUT int
  | CURLOPT_HTTP_VERSION int
  | CURLOPT_POSTFIELDS "bytes option"
  | CURLOPT_POSTFIELDSIZE nat
  | CURLOPT_HTTPHEADER "string list"
  | CURLOPT_MIMEPOST "mime_part list"
  | CURLOPT_UPLOAD int
  | CURLOPT_READFUNCTION u64
  | CURLOPT_READDATA u64
  | CURLOPT_HEADERFUNCTION u64
  | CURLOPT_HEADERDATA u64

datatype url_part =
  CURLUPART_URL | CURLUPART_SCHEME | CURLUPART_HOST | CURLUPART_PORT | CURLUPART_PATH | CURLUPART_QUERY

text \<open>A \<open>curl_url_set\<close> call: part, value, and whether \<open>CURLU_URLENCODE\<close> and
  \<open>CURLU_APPENDQUERY\<close> are given.\<close>

datatype url_op = Url_set url_part "string option" bool bool

record transfer =
  t_code :: int
  t_chunks :: "bytes list"
  t_status :: int
  t_info :: int

record ('j, 'r) ext =
  curl_global_init :: int
  curl_setopt_rc :: "curl_opt \<Rightarrow> int"
  curl_perform :: "curl_opt list \<Rightarrow> url_op list \<Rightarrow> 'r \<Rightarrow> transfer \<times> 'r"
  curl_url_set_rc :: "url_op list \<Rightarrow> url_op \<Rightarrow> int"
  curl_url_get :: "url_op list \<Rightarrow> url_part \<Rightarrow> int + string"
  curl_escape :: "string \<Rightarrow> string option"
  cJSON_Parse :: "string \<Rightarrow> 'j option"
  cJSON_PrintUnformatted :: "'j \<Rightarrow> string option"
  cJSON_GetObjectItem :: "'j \<Rightarrow> string \<Rightarrow> 'j option"
  cJSON_GetObjectItemCaseSensitive :: "'j \<Rightarrow> string \<Rightarrow> 'j option"
  cJSON_IsString :: "'j \<Rightarrow> bool"
  cJSON_IsNumber :: "'j \<Rightarrow> bool"
  cJSON_IsObject :: "'j \<Rightarrow> bool"
  cJSON_IsArray :: "'j \<Rightarrow> bool"
  j_valuestring :: "'j \<Rightarrow> string option"
  j_string :: "'j \<Rightarrow> string option"
  j_valuelong :: "'j \<Rightarrow> int"
  j_items :: "'j \<Rightarrow> 'j list"
  cJSON_CreateObject :: "'j"
  cJSON_AddStringToObject :: "'j \<Rightarrow> string \<Rightarrow> string \<Rightarrow> 'j option"
  cJSON_AddNumberToObject :: "'j \<Rightarrow> string \<Rightarrow> int \<Rightarrow> 'j option"
  cJSON_AddObjectToObject :: "'j \<Rightarrow> string \<Rightarrow> 'j option"

text \<open>\<open>cJSON_IsString\<close> and its kin answer false for NULL.\<close>

definition is_string :: "('j, 'r) ext \<Rightarrow> 'j option \<Rightarrow> bool" where
  "is_string X j = (case j of None \<Rightarrow> False | Some i \<Rightarrow> cJSON_IsString X i)"

definition is_number :: "('j, 'r) ext \<Rightarrow> 'j option \<Rightarrow> bool" where
  "is_number X j = (case j of None \<Rightarrow> False | Some i \<Rightarrow> cJSON_IsNumber X i)"

definition valuestring_of :: "('j, 'r) ext \<Rightarrow> 'j option \<Rightarrow> string option" where
  "valuestring_of X j = (case j of None \<Rightarrow> None | Some i \<Rightarrow> j_valuestring X i)"

text \<open>\<open>CURLcode\<close> values the sources and the write-callback contract of libcurl use.\<close>

definition CURLE_OK :: int where [hive_const]: "CURLE_OK = 0"
definition CURLE_COULDNT_CONNECT :: int where [hive_const]: "CURLE_COULDNT_CONNECT = 7"
definition CURLE_REMOTE_ACCESS_DENIED :: int where [hive_const]: "CURLE_REMOTE_ACCESS_DENIED = 9"
definition CURLE_WRITE_ERROR :: int where [hive_const]: "CURLE_WRITE_ERROR = 23"
definition CURLE_OUT_OF_MEMORY :: int where [hive_const]: "CURLE_OUT_OF_MEMORY = 27"
definition CURLE_OPERATION_TIMEDOUT :: int where [hive_const]: "CURLE_OPERATION_TIMEDOUT = 28"

section \<open>State\<close>

record response_body =
  rb_used :: u64
  rb_sz :: u64
  rb_data :: bytes

record http_client =
  hc_opts :: "curl_opt list"
  hc_url :: "url_op list"
  hc_hdr :: "string list"
  hc_mime :: "mime_part list option"
  hc_body :: response_body
  hc_sink :: sink
  hc_info :: "int \<times> int"

datatype http_method =
  HTTP_METHOD_GET | HTTP_METHOD_POST | HTTP_METHOD_PUT | HTTP_METHOD_DELETE | HTTP_METHOD_PATCH

definition empty_body :: response_body where
  "empty_body = \<lparr>rb_used = 0, rb_sz = 0, rb_data = []\<rparr>"

definition base_opts :: "curl_opt list" where
  "base_opts = [CURLOPT_DEBUGFUNCTION, CURLOPT_VERBOSE 1, CURLOPT_WRITEFUNCTION Eat_output,
     CURLOPT_CURLU, CURLOPT_NOSIGNAL 1]"

definition fresh_client :: http_client where
  "fresh_client = \<lparr>hc_opts = base_opts, hc_url = [], hc_hdr = [], hc_mime = None,
     hc_body = empty_body, hc_sink = \<lparr>sk_cap = 0, sk_data = []\<rparr>, hc_info = (0, 0)\<rparr>"

section \<open>Life cycle\<close>

text \<open>The constructor and the destructor of the library, which run when it is loaded and unloaded.\<close>

definition initializer :: "('j, 'r) ext \<Rightarrow> 'r world \<Rightarrow> 'r world" where
  "initializer X w = (if curl_global_init X \<noteq> CURLE_OK then w else w\<lparr>curl_initialized := True\<rparr>)"

definition finalizer :: "'r world \<Rightarrow> 'r world" where
  "finalizer w = (if \<not> curl_initialized w then w else w\<lparr>curl_initialized := False\<rparr>)"

definition http_client_new :: "('j, 'r) ext \<Rightarrow> 'r world \<Rightarrow> http_client option \<times> 'r world" where
  "http_client_new X w =
     (if \<not> curl_initialized w \<and> curl_global_init X \<noteq> CURLE_OK then (None, w)
      else (let w0 = w\<lparr>curl_initialized := True\<rparr>; (ok1, w1) = c_alloc w0 in
        if \<not> ok1 then (None, w1)
        else (let (ok2, w2) = c_alloc w1 in
          if \<not> ok2 then (None, w2)
          else (let (ok3, w3) = c_alloc w2 in
            if \<not> ok3 then (None, w3)
            else (Some fresh_client, w3\<lparr>live_http := live_http w3 + 1\<rparr>)))))"

definition http_client_close :: "'r world \<Rightarrow> 'r world" where
  "http_client_close w = w\<lparr>live_http := live_http w - 1\<rparr>"

definition setopt :: "curl_opt \<Rightarrow> http_client \<Rightarrow> http_client" where
  "setopt opt c = c\<lparr>hc_opts := hc_opts c @ [opt]\<rparr>"

definition http_client_reset :: "http_client \<Rightarrow> http_client" where
  "http_client_reset c = c\<lparr>hc_opts := base_opts,
     hc_url := hc_url c @ [Url_set CURLUPART_URL None False False],
     hc_hdr := [], hc_mime := None, hc_body := (hc_body c)\<lparr>rb_used := 0\<rparr>\<rparr>"

section \<open>Request set-up\<close>

definition http_client_set_method ::
  "('j, 'r) ext \<Rightarrow> http_client \<Rightarrow> http_method \<Rightarrow> int \<times> http_client" where
  "http_client_set_method X c method =
     (let opt = (case method of
          HTTP_METHOD_GET \<Rightarrow> CURLOPT_HTTPGET 1
        | HTTP_METHOD_POST \<Rightarrow> CURLOPT_POST 1
        | HTTP_METHOD_PUT \<Rightarrow> CURLOPT_CUSTOMREQUEST ''PUT''
        | HTTP_METHOD_DELETE \<Rightarrow> CURLOPT_CUSTOMREQUEST ''DELETE''
        | HTTP_METHOD_PATCH \<Rightarrow> CURLOPT_CUSTOMREQUEST ''PATCH'')
      in (curl_setopt_rc X opt, setopt opt c))"

definition curl_url_set :: "('j, 'r) ext \<Rightarrow> http_client \<Rightarrow> url_op \<Rightarrow> int \<times> http_client" where
  "curl_url_set X c u = (curl_url_set_rc X (hc_url c) u, c\<lparr>hc_url := hc_url c @ [u]\<rparr>)"

definition http_client_set_url ::
  "('j, 'r) ext \<Rightarrow> http_client \<Rightarrow> string \<Rightarrow> (int \<times> http_client) option" where
  "http_client_set_url X c url =
     (if url = [] then None else Some (curl_url_set X c (Url_set CURLUPART_URL (Some url) True False)))"

definition http_client_set_url_escape ::
  "('j, 'r) ext \<Rightarrow> http_client \<Rightarrow> string \<Rightarrow> (int \<times> http_client) option" where
  "http_client_set_url_escape X c url =
     (if url = [] then None else Some (curl_url_set X c (Url_set CURLUPART_URL (Some url) False False)))"

definition http_client_set_path ::
  "('j, 'r) ext \<Rightarrow> http_client \<Rightarrow> string \<Rightarrow> (int \<times> http_client) option" where
  "http_client_set_path X c path =
     (if path = [] then None else Some (curl_url_set X c (Url_set CURLUPART_PATH (Some path) True False)))"

definition http_client_set_query ::
  "('j, 'r) ext \<Rightarrow> http_client \<Rightarrow> string \<Rightarrow> string \<Rightarrow> (int \<times> http_client) option" where
  "http_client_set_query X c name value =
     (if name = [] \<or> value = [] then None
      else Some (curl_url_set X c (Url_set CURLUPART_QUERY (Some (name @ ''='' @ value)) True True)))"

definition http_client_set_header ::
  "http_client \<Rightarrow> string \<Rightarrow> string option \<Rightarrow> 'r world \<Rightarrow> (int \<times> http_client \<times> 'r world) option" where
  "http_client_set_header c name value w =
     (case value of
        None \<Rightarrow> None
      | Some v \<Rightarrow>
          if name = [] then None
          else (let (ok, w1) = c_alloc w in
            if ok then Some (0, c\<lparr>hc_hdr := hc_hdr c @ [name @ '': '' @ v]\<rparr>, w1)
            else Some (CURLE_OUT_OF_MEMORY, c, w1)))"

definition http_client_set_timeout ::
  "('j, 'r) ext \<Rightarrow> http_client \<Rightarrow> int \<Rightarrow> (int \<times> http_client) option" where
  "http_client_set_timeout X c timeout =
     (if timeout \<le> 0 then None
      else Some (curl_setopt_rc X (CURLOPT_TIMEOUT timeout), setopt (CURLOPT_TIMEOUT timeout) c))"

text \<open>\<open>curl_http_versions\<close> has four entries and \<open>http_version_t\<close> four values.\<close>

datatype http_version = HTTP_VERSION_DEFAULT | HTTP_VERSION_1_0 | HTTP_VERSION_1_1 | HTTP_VERSION_2_0

definition curl_http_version :: "http_version \<Rightarrow> int" where
  "curl_http_version v = (case v of HTTP_VERSION_DEFAULT \<Rightarrow> 0 | HTTP_VERSION_1_0 \<Rightarrow> 1
     | HTTP_VERSION_1_1 \<Rightarrow> 2 | HTTP_VERSION_2_0 \<Rightarrow> 3)"

definition http_client_set_version ::
  "('j, 'r) ext \<Rightarrow> http_client \<Rightarrow> http_version \<Rightarrow> int \<times> http_client" where
  "http_client_set_version X c v =
     (let opt = CURLOPT_HTTP_VERSION (curl_http_version v)
      in (curl_setopt_rc X opt, setopt opt c))"

definition http_client_set_request_body_instant ::
  "http_client \<Rightarrow> bytes option \<Rightarrow> nat \<Rightarrow> http_client" where
  "http_client_set_request_body_instant c data len =
     setopt (CURLOPT_POSTFIELDSIZE len) (setopt (CURLOPT_POSTFIELDS data) c)"

definition http_client_set_response_body ::
  "http_client \<Rightarrow> (sink \<Rightarrow> bytes \<Rightarrow> (nat \<times> sink) option) \<Rightarrow> sink \<Rightarrow> http_client" where
  "http_client_set_response_body c callback userdata =
     (setopt CURLOPT_WRITEDATA (setopt (CURLOPT_WRITEFUNCTION (Caller_cb callback)) c))
       \<lparr>hc_sink := userdata\<rparr>"

text \<open>These two callbacks no function of the library sets; they and their data are addresses that are
  handed on to libcurl, and NULL is 0.\<close>

definition http_client_set_request_body :: "http_client \<Rightarrow> u64 \<Rightarrow> u64 \<Rightarrow> http_client option" where
  "http_client_set_request_body c callback userdata =
     (if callback = 0 then None
      else Some (setopt (CURLOPT_READDATA userdata) (setopt (CURLOPT_READFUNCTION callback) (setopt (CURLOPT_UPLOAD 1) c))))"

definition http_client_set_response_header :: "http_client \<Rightarrow> u64 \<Rightarrow> u64 \<Rightarrow> http_client option" where
  "http_client_set_response_header c callback userdata =
     (if callback = 0 then None
      else Some (setopt (CURLOPT_HEADERDATA userdata) (setopt (CURLOPT_HEADERFUNCTION callback) c)))"

definition http_client_enable_response_body :: "http_client \<Rightarrow> http_client" where
  "http_client_enable_response_body c =
     setopt CURLOPT_WRITEDATA (setopt (CURLOPT_WRITEFUNCTION Response_body) c)"

definition http_client_set_mime_instant ::
  "http_client \<Rightarrow> string option \<Rightarrow> string option \<Rightarrow> string option \<Rightarrow> bytes \<Rightarrow> http_client" where
  "http_client_set_mime_instant c name filename type buffer =
     c\<lparr>hc_mime := Some ((case hc_mime c of None \<Rightarrow> [] | Some ps \<Rightarrow> ps) @
        [\<lparr>mp_name = name, mp_filename = filename, mp_type = type, mp_data = buffer\<rparr>])\<rparr>"

section \<open>URL parts and escaping\<close>

definition url_get :: "('j, 'r) ext \<Rightarrow> http_client \<Rightarrow> url_part \<Rightarrow> int \<times> string option" where
  "url_get X c part = (case curl_url_get X (hc_url c) part of
     Inl code \<Rightarrow> (code, None) | Inr s \<Rightarrow> (0, Some s))"

definition http_client_get_url_escape :: "('j, 'r) ext \<Rightarrow> http_client \<Rightarrow> int \<times> string option" where
  "http_client_get_url_escape X c = url_get X c CURLUPART_URL"

definition http_client_get_scheme :: "('j, 'r) ext \<Rightarrow> http_client \<Rightarrow> int \<times> string option" where
  "http_client_get_scheme X c = url_get X c CURLUPART_SCHEME"

definition http_client_get_host :: "('j, 'r) ext \<Rightarrow> http_client \<Rightarrow> int \<times> string option" where
  "http_client_get_host X c = url_get X c CURLUPART_HOST"

definition http_client_get_port :: "('j, 'r) ext \<Rightarrow> http_client \<Rightarrow> int \<times> string option" where
  "http_client_get_port X c = url_get X c CURLUPART_PORT"

definition http_client_get_path :: "('j, 'r) ext \<Rightarrow> http_client \<Rightarrow> int \<times> string option" where
  "http_client_get_path X c = url_get X c CURLUPART_PATH"

definition http_client_get_query :: "('j, 'r) ext \<Rightarrow> http_client \<Rightarrow> int \<times> string option" where
  "http_client_get_query X c = url_get X c CURLUPART_QUERY"

definition http_client_escape :: "('j, 'r) ext \<Rightarrow> string \<Rightarrow> string option option" where
  "http_client_escape X data = (if data = [] then None else Some (curl_escape X data))"

text \<open>\<open>curl_easy_unescape\<close> is the first argument; the result goes with its length.\<close>

definition http_client_unescape :: "(string \<Rightarrow> bytes option) \<Rightarrow> string \<Rightarrow> (bytes \<times> nat) option option" where
  "http_client_unescape unesc data =
     (if data = [] then None else Some (case unesc data of None \<Rightarrow> None | Some d \<Rightarrow> Some (d, length d)))"

section \<open>The response body\<close>

text \<open>\<open>for (new_sz = sz ? sz << 1 : 512, last_try = sz; new_sz > last_try && new_sz <= sz + length;
  last_try = new_sz, new_sz <<= 1);\<close> on 64-bit words: the result is \<open>(new_sz, last_try)\<close>.\<close>

function grow_loop :: "u64 \<Rightarrow> u64 \<Rightarrow> u64 \<Rightarrow> u64 \<times> u64" where
  "grow_loop need new_sz last_try =
     (if last_try < new_sz \<and> new_sz \<le> need then grow_loop need (push_bit 1 new_sz) new_sz
      else (new_sz, last_try))"
  by pat_completeness auto
termination
proof (relation "measure (\<lambda>(need, new_sz, last_try). 2 ^ 64 - unat last_try)")
  fix need new_sz last_try :: u64
  assume "last_try < new_sz \<and> new_sz \<le> need"
  moreover have "unat new_sz < 2 ^ 64"
    using unsigned_less [of new_sz] by simp
  ultimately show "((need, push_bit 1 new_sz, new_sz), need, new_sz, last_try)
      \<in> measure (\<lambda>(need, new_sz, last_try). 2 ^ 64 - unat last_try)"
    by (auto simp: word_less_nat_alt intro!: diff_less_mono2)
qed simp

declare grow_loop.simps [simp del]

definition new_size :: "u64 \<Rightarrow> u64 \<Rightarrow> u64" where
  "new_size sz len =
     (let (new_sz, last_try) =
        grow_loop (sz + len) (if sz \<noteq> 0 then push_bit 1 sz else 512) sz
      in if new_sz \<le> last_try then sz + len else new_sz)"

definition http_response_body_write_callback ::
  "bytes \<Rightarrow> response_body \<Rightarrow> 'r world \<Rightarrow> (nat \<times> response_body \<times> 'r world) option" where
  "http_response_body_write_callback ptr response w =
     (let len = of_nat (length ptr) :: u64;
          copy = (\<lambda>response w. do {
            d \<leftarrow> store_at (unat (rb_used response)) ptr (rb_data response);
            Some (length ptr, response\<lparr>rb_data := d, rb_used := rb_used response + len\<rparr>, w) })
      in if rb_sz response - rb_used response < len
         then (if rb_sz response + len < rb_sz response
               then Some (0, response\<lparr>rb_used := 0\<rparr>, w)
               else (let new_sz = new_size (rb_sz response) len; (ok, w1) = c_alloc w
                     in if \<not> ok then Some (0, response\<lparr>rb_used := 0\<rparr>, w1)
                        else copy (response\<lparr>
                               rb_data := resize_block (heap_junk w1 (tick w1)) (unat new_sz)
                                            (rb_data response),
                               rb_sz := new_sz\<rparr>) (w1\<lparr>tick := Suc (tick w1)\<rparr>)))
         else copy response w)"

definition http_client_get_response_body :: "http_client \<Rightarrow> bytes option" where
  "http_client_get_response_body c =
     (if rb_used (hc_body c) \<noteq> 0 then Some (rb_data (hc_body c)) else None)"

definition http_client_get_response_body_length :: "http_client \<Rightarrow> nat" where
  "http_client_get_response_body_length c = unat (rb_used (hc_body c))"

text \<open>\<open>len\<close> tells whether the caller passes somewhere to store the length.  The early return
  stores \<open>0\<close> there without testing the pointer.\<close>

definition http_client_move_response_body ::
  "http_client \<Rightarrow> bool \<Rightarrow> (bytes option \<times> nat option \<times> http_client) option" where
  "http_client_move_response_body c len =
     (if rb_used (hc_body c) = 0
      then (if len then Some (None, Some 0, c) else None)
      else Some (Some (rb_data (hc_body c)),
                 (if len then Some (unat (rb_used (hc_body c))) else None),
                 c\<lparr>hc_body := empty_body\<rparr>))"

text \<open>\<open>cJSON_Parse\<close> on the block a response body was moved out into.\<close>

definition parse_block :: "('j, 'r) ext \<Rightarrow> bytes \<Rightarrow> 'j option option" where
  "parse_block X blk = do { s \<leftarrow> c_string_in blk; Some (cJSON_Parse X s) }"

text \<open>The array both backends print their URLs into.\<close>

definition MAX_URL_LEN :: nat where [hive_const]: "MAX_URL_LEN = 1024"

definition resp_code_of :: "int option \<Rightarrow> int" where
  "resp_code_of r = (case r of None \<Rightarrow> 0 | Some c \<Rightarrow> c)"

section \<open>Performing a request\<close>

text \<open>libcurl passes each chunk to the write callback and aborts the transfer with
  \<open>CURLE_WRITE_ERROR\<close> when the callback does not return the number of bytes it was given.\<close>

fun feed :: "('s \<Rightarrow> bytes \<Rightarrow> (nat \<times> 's) option) \<Rightarrow> bytes list \<Rightarrow> 's \<Rightarrow> (bool \<times> 's) option" where
  "feed cb [] s = Some (True, s)"
| "feed cb (ch # chs) s =
     (case cb s ch of
        None \<Rightarrow> None
      | Some (n, s') \<Rightarrow> if n = length ch then feed cb chs s' else Some (False, s'))"

text \<open>The write function in effect is the last one set.\<close>

definition write_fn_of :: "curl_opt list \<Rightarrow> write_fn" where
  "write_fn_of os = foldl (\<lambda>f opt. case opt of CURLOPT_WRITEFUNCTION g \<Rightarrow> g | _ \<Rightarrow> f) Eat_output os"

definition eat_output :: "bytes \<Rightarrow> nat" where
  "eat_output ptr = length ptr"

definition write_cb ::
  "write_fn \<Rightarrow> http_client \<times> 'r world \<Rightarrow> bytes \<Rightarrow> (nat \<times> http_client \<times> 'r world) option" where
  "write_cb f s ch = (case s of (c, w) \<Rightarrow>
     (case f of
        Eat_output \<Rightarrow> Some (eat_output ch, c, w)
      | Response_body \<Rightarrow>
          (case http_response_body_write_callback ch (hc_body c) w of
             None \<Rightarrow> None | Some (n, b, w') \<Rightarrow> Some (n, c\<lparr>hc_body := b\<rparr>, w'))
      | Caller_cb cb \<Rightarrow>
          (case cb (hc_sink c) ch of
             None \<Rightarrow> None | Some (n, k) \<Rightarrow> Some (n, c\<lparr>hc_sink := k\<rparr>, w))))"

definition prepare_request :: "http_client \<Rightarrow> http_client" where
  "prepare_request c =
     (let c1 = (if hc_hdr c \<noteq> [] then setopt (CURLOPT_HTTPHEADER (hc_hdr c)) c else c)
      in case hc_mime c1 of None \<Rightarrow> c1 | Some m \<Rightarrow> setopt (CURLOPT_MIMEPOST m) c1)"

definition http_client_request ::
  "('j, 'r) ext \<Rightarrow> http_client \<Rightarrow> 'r world \<Rightarrow> (int \<times> http_client \<times> 'r world) option" where
  "http_client_request X c w =
     (let c2 = prepare_request c;
          (t, r) = curl_perform X (hc_opts c2) (hc_url c2) (remote w)
      in do {
        (done, c3, w3) \<leftarrow> feed (write_cb (write_fn_of (hc_opts c2))) (t_chunks t) (c2, w\<lparr>remote := r\<rparr>);
        Some (if done then t_code t else CURLE_WRITE_ERROR, c3\<lparr>hc_info := (t_info t, t_status t)\<rparr>, w3)
      })"

text \<open>The response code is stored through the pointer only when \<open>curl_easy_getinfo\<close> succeeds.\<close>

definition http_client_get_response_code :: "http_client \<Rightarrow> int \<times> int option" where
  "http_client_get_response_code c =
     (case hc_info c of (code, status) \<Rightarrow> if code \<noteq> CURLE_OK then (code, None) else (0, Some status))"

section \<open>Growth\<close>

lemma unat_add_no_wrap:
  "\<not> (a :: u64) + b < a \<Longrightarrow> unat (a + b) = unat a + unat b"
  by (metis linorder_not_le no_plus_overflow_uint_size not_le olen_add_eqv unat_plus_simple)

lemma grow_loop_result:
  "grow_loop need n l = (n', l') \<Longrightarrow> n' \<le> l' \<or> need < n'"
proof (induction need n l rule: grow_loop.induct)
  case (1 need n l)
  show ?case
  proof (cases "l < n \<and> n \<le> need")
    case True
    with "1.prems" have "grow_loop need (push_bit 1 n) n = (n', l')"
      by (simp add: grow_loop.simps [of need n l])
    with "1.IH" True show ?thesis by blast
  next
    case False
    with "1.prems" show ?thesis by (auto simp: grow_loop.simps [of need n l])
  qed
qed

lemma new_size_ge:
  "sz + len \<le> new_size sz len"
  using grow_loop_result [of "sz + len" "if sz \<noteq> 0 then push_bit 1 sz else 512" sz]
  by (auto simp: new_size_def Let_def split: prod.splits)

definition body_ok :: "response_body \<Rightarrow> bool" where
  "body_ok b \<longleftrightarrow> length (rb_data b) = unat (rb_sz b) \<and> rb_used b \<le> rb_sz b"

definition body_content :: "response_body \<Rightarrow> bytes" where
  "body_content b = take (unat (rb_used b)) (rb_data b)"

lemma unat_of_nat_u64: "n < 2 ^ 64 \<Longrightarrow> unat (of_nat n :: u64) = n"
  by (simp add: unat_of_nat take_bit_nat_eq_self)

lemma copy_into_body:
  assumes "length d = unat (rb_sz b)" "unat (rb_used b) + length ch \<le> unat (rb_sz b)"
  shows "store_at (unat (rb_used b)) ch d \<noteq> None"
    and "store_at (unat (rb_used b)) ch d = Some e \<Longrightarrow>
      body_ok (b\<lparr>rb_data := e, rb_used := rb_used b + of_nat (length ch)\<rparr>) \<and>
      body_content (b\<lparr>rb_data := e, rb_used := rb_used b + of_nat (length ch)\<rparr>)
        = take (unat (rb_used b)) d @ ch"
proof -
  have "unat (rb_sz b) < 2 ^ 64" using unsigned_less [of "rb_sz b"] by simp
  with assms(2) have l: "length ch < 2 ^ 64" and s: "unat (rb_used b) + length ch < 2 ^ 64"
    by linarith+
  have u: "unat (rb_used b + of_nat (length ch)) = unat (rb_used b) + length ch"
    using s l by (simp add: unat_word_ariths unat_of_nat_u64 take_bit_nat_eq_self)
  show "store_at (unat (rb_used b)) ch d \<noteq> None"
    using assms by (simp add: store_at_def)
  show "body_ok (b\<lparr>rb_data := e, rb_used := rb_used b + of_nat (length ch)\<rparr>) \<and>
      body_content (b\<lparr>rb_data := e, rb_used := rb_used b + of_nat (length ch)\<rparr>)
        = take (unat (rb_used b)) d @ ch"
    if "store_at (unat (rb_used b)) ch d = Some e"
    using store_at_content [OF that] assms u
    by (simp add: body_ok_def body_content_def word_le_nat_alt)
qed

text \<open>The write callback never leaves its block; it either stores the chunk behind what it holds
  or reports a short count.\<close>

lemma write_callback_step:
  assumes "body_ok b" "length ch < 2 ^ 64"
  shows "\<exists>n b' w'. http_response_body_write_callback ch b w = Some (n, b', w') \<and> body_ok b' \<and>
    (n = length ch \<and> body_content b' = body_content b @ ch \<or>
     n \<noteq> length ch \<and> n = 0 \<and> rb_used b' = 0)"
proof -
  define len :: u64 where "len = of_nat (length ch)"
  have ul: "unat len = length ch" using assms(2) by (simp add: len_def unat_of_nat_u64)
  have d: "length (rb_data b) = unat (rb_sz b)" and le: "rb_used b \<le> rb_sz b"
    using assms(1) by (simp_all add: body_ok_def)
  have room: "unat (rb_sz b - rb_used b) = unat (rb_sz b) - unat (rb_used b)"
    using le by (simp add: unat_sub)
  have reset: "body_ok (b\<lparr>rb_used := 0\<rparr>)"
    using assms(1) by (simp add: body_ok_def)
  show ?thesis
  proof (cases "rb_sz b - rb_used b < len")
    case False
    then have fit: "unat (rb_used b) + length ch \<le> unat (rb_sz b)"
      using room ul le by (simp add: word_less_nat_alt word_le_nat_alt)
    obtain e where e: "store_at (unat (rb_used b)) ch (rb_data b) = Some e"
      using copy_into_body(1) [OF d fit] by auto
    from copy_into_body(2) [OF d fit e] False e show ?thesis
      by (simp add: http_response_body_write_callback_def Let_def body_content_def flip: len_def)
  next
    case True
    then have pos: "length ch \<noteq> 0" using ul by (auto simp: word_less_nat_alt)
    show ?thesis
    proof (cases "rb_sz b + len < rb_sz b")
      case True
      with \<open>rb_sz b - rb_used b < len\<close> reset pos show ?thesis
        by (simp add: http_response_body_write_callback_def Let_def flip: len_def)
    next
      case nowrap: False
      obtain ok w1 where a: "c_alloc w = (ok, w1)" by (cases "c_alloc w")
      show ?thesis
      proof (cases ok)
        case False
        with a nowrap True reset pos show ?thesis
          by (simp add: http_response_body_write_callback_def Let_def flip: len_def)
      next
        case okT: True
        define new where "new = new_size (rb_sz b) len"
        define blk where "blk = resize_block (heap_junk w1 (tick w1)) (unat new) (rb_data b)"
        define b1 where "b1 = b\<lparr>rb_data := blk, rb_sz := new\<rparr>"
        have "unat (rb_sz b) + length ch \<le> unat new"
          using new_size_ge [of "rb_sz b" len] unat_add_no_wrap [OF nowrap] ul
          by (simp add: new_def word_le_nat_alt)
        then have grown: "length (rb_data b) \<le> unat new"
          and fit: "unat (rb_used b1) + length ch \<le> unat (rb_sz b1)"
          using d le by (simp_all add: b1_def word_le_nat_alt)
        have d1: "length blk = unat (rb_sz b1)"
          using resize_block_props(1) [OF grown] by (simp add: blk_def b1_def)
        obtain e where e: "store_at (unat (rb_used b1)) ch blk = Some e"
          using copy_into_body(1) [OF d1 fit] by auto
        have keep: "take (unat (rb_used b)) blk = body_content b"
          using resize_block_props(2) [OF _ grown] d le
          by (simp add: blk_def body_content_def word_le_nat_alt)
        from copy_into_body(2) [OF d1 fit e] show ?thesis
          using a okT True nowrap e keep
          by (auto simp: http_response_body_write_callback_def Let_def b1_def blk_def new_def
              simp flip: len_def)
      qed
    qed
  qed
qed

section \<open>Write callbacks as byte sinks\<close>

text \<open>What libcurl needs of a write callback, and what the sources conclude from a finished
  transfer: a callback that reports the full count has stored exactly the chunk it was given.\<close>

locale byte_sink =
  fixes store :: "'s \<Rightarrow> bytes \<Rightarrow> (nat \<times> 's) option"
    and content :: "'s \<Rightarrow> bytes"
    and valid :: "'s \<Rightarrow> bool"
  assumes accepted: "valid s \<Longrightarrow> length ch < 2 ^ 64 \<Longrightarrow> store s ch = Some (length ch, s') \<Longrightarrow>
      valid s' \<and> content s' = content s @ ch"
begin

lemma feed_stores:
  assumes "valid s" "\<forall>ch \<in> set chs. length ch < 2 ^ 64" "feed store chs s = Some (True, s')"
  shows "valid s' \<and> content s' = content s @ concat chs"
  using assms
proof (induction chs arbitrary: s)
  case (Cons ch chs)
  from Cons.prems(3) obtain t where t: "store s ch = Some (length ch, t)"
    and rest: "feed store chs t = Some (True, s')"
    by (auto split: option.splits if_splits prod.splits)
  have "valid t \<and> content t = content s @ ch"
    using accepted [OF Cons.prems(1) _ t] Cons.prems(2) by simp
  with Cons.IH [of t] rest Cons.prems(2) show ?case by simp
qed simp

end

definition body_store :: "response_body \<times> 'r world \<Rightarrow> bytes \<Rightarrow> (nat \<times> response_body \<times> 'r world) option" where
  "body_store s ch = http_response_body_write_callback ch (fst s) (snd s)"

interpretation body: byte_sink "body_store" "\<lambda>s. body_content (fst s)" "\<lambda>s. body_ok (fst s)"
proof unfold_locales
  fix s s' :: "response_body \<times> 'r world" and ch
  assume "body_ok (fst s)" "length ch < 2 ^ 64" "body_store s ch = Some (length ch, s')"
  with write_callback_step [of "fst s" ch "snd s"]
  show "body_ok (fst s') \<and> body_content (fst s') = body_content (fst s) @ ch"
    by (auto simp: body_store_def)
qed

text \<open>With \<open>enable_response_body\<close> in effect the transfer runs the body callback alone.\<close>

lemma feed_response_body:
  "feed (write_cb Response_body) chs (c, w) =
     (case feed body_store chs (hc_body c, w) of
        None \<Rightarrow> None | Some (ok, b, w') \<Rightarrow> Some (ok, c\<lparr>hc_body := b\<rparr>, w'))"
  by (induction chs arbitrary: c w)
    (auto simp: write_cb_def body_store_def split: option.splits prod.splits)

lemma write_fn_of_append [simp]:
  "write_fn_of (os @ [CURLOPT_WRITEFUNCTION g]) = g"
  "\<forall>g. opt \<noteq> CURLOPT_WRITEFUNCTION g \<Longrightarrow> write_fn_of (os @ [opt]) = write_fn_of os"
  by (auto simp: write_fn_of_def split: curl_opt.splits)

lemma prepare_request_sel [simp]:
  "write_fn_of (hc_opts (prepare_request c)) = write_fn_of (hc_opts c)"
  "hc_body (prepare_request c) = hc_body c"
  "hc_sink (prepare_request c) = hc_sink c"
  "hc_url (prepare_request c) = hc_url c"
  by (auto simp: prepare_request_def setopt_def Let_def write_fn_of_def split: option.splits)

lemma rb_sz_empty: "rb_sz empty_body = 0"
  by (simp add: empty_body_def)

lemma body_ok_empty [simp]: "body_ok empty_body" and body_content_empty [simp]: "body_content empty_body = []"
  by (simp_all add: body_ok_def body_content_def empty_body_def)

text \<open>C14: A request with the response body enabled that succeeds has appended to the body all the
  chunks the server sent, in order, and left a body whose block is at least as long as what is
  stored in it.\<close>

theorem response_body_collects:
  assumes "write_fn_of (hc_opts c) = Response_body" and "body_ok (hc_body c)"
    and "curl_perform X (hc_opts (prepare_request c)) (hc_url c) (remote w) = (t, r)"
    and "\<forall>ch \<in> set (t_chunks t). length ch < 2 ^ 64"
    and "http_client_request X c w = Some (0, c', w')"
  shows "body_content (hc_body c') = body_content (hc_body c) @ concat (t_chunks t)
     \<and> body_ok (hc_body c') \<and> t_code t = 0"
proof -
  let ?s = "(hc_body c, w\<lparr>remote := r\<rparr>)"
  obtain ok b w1 where f: "feed body_store (t_chunks t) ?s = Some (ok, b, w1)"
    and rc: "(if ok then t_code t else CURLE_WRITE_ERROR) = 0" and c': "hc_body c' = b"
    using assms(1,3,5)
    by (auto simp: http_client_request_def Let_def feed_response_body bind_eq_Some_iff
        split: option.splits prod.splits)
  then have "ok" "t_code t = 0" by (auto simp: hive_const split: if_splits)
  with f body.feed_stores [of ?s "t_chunks t" "(b, w1)"] assms(2,4) c' show ?thesis by simp
qed

text \<open>An example environment: a server that answers every request with status 200 and one fixed
  body, and no JSON.\<close>

definition echo_ext :: "bytes list \<Rightarrow> int \<Rightarrow> (unit, unit) ext" where
  "echo_ext chunks status = \<lparr>curl_global_init = 0, curl_setopt_rc = (\<lambda>_. 0),
     curl_perform = (\<lambda>_ _ r. (\<lparr>t_code = 0, t_chunks = chunks, t_status = status, t_info = 0\<rparr>, r)),
     curl_url_set_rc = (\<lambda>_ _. 0), curl_url_get = (\<lambda>_ _. Inl 1), curl_escape = Some,
     cJSON_Parse = (\<lambda>_. None), cJSON_PrintUnformatted = (\<lambda>_. None),
     cJSON_GetObjectItem = (\<lambda>_ _. None), cJSON_GetObjectItemCaseSensitive = (\<lambda>_ _. None),
     cJSON_IsString = (\<lambda>_. False), cJSON_IsNumber = (\<lambda>_. False), cJSON_IsObject = (\<lambda>_. False),
     cJSON_IsArray = (\<lambda>_. False), j_valuestring = (\<lambda>_. None), j_string = (\<lambda>_. None),
     j_valuelong = (\<lambda>_. 0), j_items = (\<lambda>_. []), cJSON_CreateObject = (),
     cJSON_AddStringToObject = (\<lambda>_ _ _. None), cJSON_AddNumberToObject = (\<lambda>_ _ _. None),
     cJSON_AddObjectToObject = (\<lambda>_ _. None)\<rparr>"

lemma write_callback_accepts:
  assumes "body_ok b" "faults w = []" "unat (rb_sz b) + length ch < 2 ^ 64"
  shows "\<exists>b' w'. http_response_body_write_callback ch b w = Some (length ch, b', w') \<and> body_ok b'
    \<and> body_content b' = body_content b @ ch"
proof -
  have l: "length ch < 2 ^ 64" using assms(3) by simp
  have "unat (rb_sz b + of_nat (length ch)) = unat (rb_sz b) + length ch"
    using assms(3) l by (simp add: unat_word_ariths unat_of_nat_u64 take_bit_nat_eq_self)
  then have "\<not> rb_sz b + of_nat (length ch) < rb_sz b"
    by (simp add: word_less_nat_alt)
  then have "http_response_body_write_callback ch b w = Some (n, b', w') \<Longrightarrow> n = length ch" for n b' w'
    using assms(2)
    by (auto simp: http_response_body_write_callback_def Let_def c_alloc_def take_fault_def
        bind_eq_Some_iff split: if_splits)
  with write_callback_step [OF assms(1) l, of w] show ?thesis by blast
qed

lemma response_body_collects_witness:
  "let c = http_client_enable_response_body fresh_client; X = echo_ext [''{}''] 200 in
   write_fn_of (hc_opts c) = Response_body \<and> body_ok (hc_body c) \<and>
   (\<exists>c' w'. http_client_request X c (calm_world ()) = Some (0, c', w') \<and>
      body_content (hc_body c') = ''{}'' \<and> body_ok (hc_body c'))"
proof -
  define c where "c = http_client_enable_response_body fresh_client"
  define X where "X = echo_ext [''{}''] 200"
  have wf: "write_fn_of (hc_opts c) = Response_body" and ok: "body_ok (hc_body c)"
    and e: "hc_body c = empty_body"
    by (simp_all add: c_def http_client_enable_response_body_def setopt_def fresh_client_def
        write_fn_of_def base_opts_def)
  let ?t = "\<lparr>t_code = 0, t_chunks = [''{}''], t_status = 200, t_info = 0\<rparr>"
  have p: "curl_perform X (hc_opts (prepare_request c)) (hc_url c) (remote (calm_world ())) = (?t, ())"
    by (simp add: X_def echo_ext_def)
  have w: "calm_world ()\<lparr>remote := ()\<rparr> = calm_world ()" by (simp add: calm_world_def)
  obtain b w1 where "http_response_body_write_callback ''{}'' empty_body (calm_world ()) = Some (2, b, w1)"
    using write_callback_accepts [of empty_body "calm_world ()" "''{}''"]
    by (auto simp: calm_world_def rb_sz_empty)
  then have "\<exists>c' w'. http_client_request X c (calm_world ()) = Some (0, c', w')"
    using p wf e
    by (auto simp: http_client_request_def Let_def feed_response_body body_store_def w)
  then obtain c' w' where r: "http_client_request X c (calm_world ()) = Some (0, c', w')" by blast
  from response_body_collects [OF wf ok p _ r] e show ?thesis
    using wf ok r by (auto simp: Let_def simp flip: c_def X_def)
qed

text \<open>The body a request collected is not a C string: nothing writes a NUL behind it, so on memory
  that is not zero by accident the parsers that are given the moved-out block read past its end.\<close>

theorem response_body_not_terminated:
  assumes "faults w = []" and "NUL \<notin> set ch" and "ch \<noteq> []" and "length ch < 2 ^ 64"
    and "\<forall>t i. heap_junk w t i \<noteq> NUL"
  shows "\<exists>b w'. http_response_body_write_callback ch empty_body w = Some (length ch, b, w') \<and>
           body_content b = ch \<and> parse_block X (rb_data b) = None"
proof -
  obtain b w' where b: "http_response_body_write_callback ch empty_body w = Some (length ch, b, w')"
    "body_content b = ch"
    using write_callback_accepts [of empty_body w ch] assms(1,4) by (auto simp: rb_sz_empty)
  have "(0 :: u64) < of_nat (length ch)"
    using assms(3,4) by (simp add: word_less_nat_alt unat_of_nat_u64)
  with b(1) have "rb_data b = ch @ drop (length ch)
      (map (heap_junk w (tick w)) [0..<unat (new_size 0 (of_nat (length ch)))])"
    using assms(1)
    by (auto simp: http_response_body_write_callback_def Let_def empty_body_def c_alloc_def
        take_fault_def bind_eq_Some_iff store_at_def resize_block_def split: if_splits)
  then have "NUL \<notin> set (rb_data b)"
    using assms(2,5) by (fastforce dest!: in_set_dropD)
  with b show ?thesis by (auto simp: parse_block_def c_string_in_def)
qed

lemma response_body_not_terminated_witness:
  "\<exists>b w'. http_response_body_write_callback ''{}'' empty_body
        (calm_world ()\<lparr>heap_junk := \<lambda>_ _. CHR ''x''\<rparr>) = Some (2, b, w') \<and>
      body_content b = ''{}'' \<and> parse_block (echo_ext [] 200) (rb_data b) = None"
  using response_body_not_terminated
    [of "calm_world ()\<lparr>heap_junk := \<lambda>_ _. CHR ''x''\<rparr>" "''{}''" "echo_ext [] 200"]
  by (simp add: calm_world_def flip: One_nat_def numeral_2_eq_2)

section \<open>A small body\<close>

text \<open>With a caller's callback set last the transfer runs that callback alone.\<close>

lemma feed_eat: "feed (write_cb Eat_output) chs s = Some (True, s)"
  by (induction chs) (auto simp: write_cb_def eat_output_def split: prod.splits)

lemma feed_caller_cb:
  "feed (write_cb (Caller_cb cb)) chs (c, w) =
     (case feed cb chs (hc_sink c) of
        None \<Rightarrow> None | Some (ok, k) \<Rightarrow> Some (ok, c\<lparr>hc_sink := k\<rparr>, w))"
  by (induction chs arbitrary: c) (auto simp: write_cb_def split: option.splits prod.splits)

section \<open>Handles\<close>

text \<open>Nothing but creating and closing a client changes the number of HTTP clients and descriptors in
  use.\<close>

lemma live_http_new:
  "http_client_new X w = (Some c, w1) \<Longrightarrow> held w1 = (live_http w + 1, open_fds w) \<and> c = fresh_client \<and> remote w1 = remote w"
  "http_client_new X w = (None, w1) \<Longrightarrow> held w1 = held w \<and> remote w1 = remote w"
  by (auto simp: http_client_new_def Let_def c_alloc_def take_fault_def
      split: if_splits prod.splits list.splits option.splits)

lemma live_http_close [simp]:
  "live_http (http_client_close w) = live_http w - 1" "open_fds (http_client_close w) = open_fds w"
  by (simp_all add: http_client_close_def)

lemma c_alloc_held: "c_alloc w = (ok, w1) \<Longrightarrow> held w1 = held w"
  using c_alloc_frame [of w ok w1] by (simp add: same_net_def)

lemma gettimeofday_held: "c_gettimeofday w = (now, w1) \<Longrightarrow> held w1 = held w"
  using c_gettimeofday_frame [of w now w1] by (simp add: same_net_def)

lemma c_alloc_live:
  "c_alloc w = (ok, w1) \<Longrightarrow> live_http w1 = live_http w" "c_alloc w = (ok, w1) \<Longrightarrow> open_fds w1 = open_fds w"
  using c_alloc_held [of w ok w1] by auto

lemma gettimeofday_live:
  "c_gettimeofday w = (now, w1) \<Longrightarrow> live_http w1 = live_http w"
  "c_gettimeofday w = (now, w1) \<Longrightarrow> open_fds w1 = open_fds w"
  using gettimeofday_held [of w now w1] by auto

lemma feed_live:
  assumes "\<And>s ch n s'. cb s ch = Some (n, s') \<Longrightarrow> held (snd s') = held (snd s)"
  shows "feed cb chs s = Some (ok, s') \<Longrightarrow> held (snd s') = held (snd s)"
  by (induction chs arbitrary: s) (auto split: option.splits if_splits prod.splits dest!: assms)

lemma write_cb_live:
  "write_cb f s ch = Some (n, s') \<Longrightarrow> held (snd s') = held (snd s)"
  by (auto simp: write_cb_def http_response_body_write_callback_def Let_def bind_eq_Some_iff c_alloc_live
      split: prod.splits write_fn.splits option.splits if_splits)

lemma request_post [hive_frame]:
  "post (http_client_request X c w) (\<lambda>(rc, c', w'). held w' = held w)"
  unfolding http_client_request_def
  apply (intro hive_post)
  apply (rule postI)
  apply (intro hive_post)
  apply (auto dest!: feed_live [OF write_cb_live, rotated])
  done

text \<open>The block that the first chunk is stored in is longer than the chunk; on memory that happens to be
  zero, the chunk is read back as the string it is.\<close>

lemma grow_loop_exceeds:
  "l < n \<Longrightarrow> unat need < 2 ^ 63 \<Longrightarrow> grow_loop need n l = (n', l') \<Longrightarrow> l' < n' \<and> need < n'"
proof (induction need n l rule: grow_loop.induct)
  case (1 need n l)
  show ?case
  proof (cases "n \<le> need")
    case True
    have n: "0 < unat n" "unat n < 2 ^ 63" using True "1.prems"(1,2) by (auto simp: word_le_nat_alt word_less_nat_alt)
    have "unat (push_bit 1 n) = 2 * unat n"
    proof -
      have "push_bit 1 n = 2 * n" by (simp add: push_bit_eq_mult mult.commute)
      moreover have "unat (2 * n) = unat (2 :: u64) * unat n"
        using n(2) by (subst unat_mult_lem [symmetric]) simp
      ultimately show ?thesis by (simp only:) simp
    qed
    then have "n < push_bit 1 n" using n by (simp add: word_less_nat_alt)
    with 1 True show ?thesis by (simp add: grow_loop.simps [of need n l])
  next
    case False
    with "1.prems" show ?thesis by (auto simp: grow_loop.simps [of need n l])
  qed
qed

lemma new_size_exceeds:
  assumes "n < 2 ^ 63"
  shows "n < unat (new_size 0 (of_nat n))"
proof -
  have u: "unat (of_nat n :: u64) = n" using assms by (intro unat_of_nat_u64) simp
  obtain s l where g: "grow_loop (of_nat n) 512 0 = (s :: u64, l)" by fastforce
  have "l < s \<and> of_nat n < s" by (rule grow_loop_exceeds [OF _ _ g]) (use assms u in simp_all)
  then show ?thesis using g u by (auto simp: new_size_def word_less_nat_alt word_le_nat_alt)
qed

lemma callback_once:
  assumes "faults w = []" "\<forall>t i. heap_junk w t i = NUL" "ch \<noteq> []" "length ch < 2 ^ 63"
  shows "\<exists>b. http_response_body_write_callback ch empty_body w = Some (length ch, b, w\<lparr>tick := Suc (tick w)\<rparr>)
    \<and> rb_used b \<noteq> 0 \<and> c_string_in (rb_data b) = Some (takeWhile (\<lambda>c. c \<noteq> NUL) ch)"
proof -
  let ?n = "unat (new_size 0 (of_nat (length ch)))"
  have u: "unat (of_nat (length ch) :: u64) = length ch"
    using assms(4) by (intro unat_of_nat_u64) simp
  have pos: "(0 :: u64) < of_nat (length ch)"
    using assms(3) by (simp add: word_less_nat_alt u)
  have n: "length ch < ?n" using new_size_exceeds [OF assms(4)] .
  have junk: "map (heap_junk w t) xs = replicate (length xs) NUL" for t xs
    using assms(2) by (induction xs) auto
  obtain k where k: "?n - length ch = Suc k" using n by (cases "?n - length ch") auto
  have "takeWhile (\<lambda>c. c \<noteq> NUL) (ch @ NUL # rest) = takeWhile (\<lambda>c. c \<noteq> NUL) ch" for rest
    by (induction ch) auto
  then have "c_string_in (ch @ replicate (?n - length ch) NUL) = Some (takeWhile (\<lambda>c. c \<noteq> NUL) ch)"
    unfolding k by (simp add: c_string_in_def)
  then show ?thesis
    using assms(1) pos n
    by (simp add: http_response_body_write_callback_def Let_def empty_body_def c_alloc_def take_fault_def
        resize_block_def junk store_at_def)
qed

end
