(* ===== verification/Hive_Json.thy ===== *)
theory Hive_Json
  imports Hive_Http
begin

text \<open>
  What the SDK relies on from cJSON when it builds an object and reads it back, stated as laws of
  the parameter \<open>ext\<close>, and a small JSON implementation that satisfies them, for the examples.
\<close>

section \<open>Laws\<close>

text \<open>Key comparison of \<open>cJSON_GetObjectItem\<close> ignores case.\<close>

definition same_key :: "string \<Rightarrow> string \<Rightarrow> bool" where
  "same_key k k' \<longleftrightarrow> map c_tolower k = map c_tolower k'"

text \<open>An item added under a fresh key is found under it, and hides nothing else.\<close>

definition json_adds ::
  "('j, 'r) ext \<Rightarrow> ('j \<Rightarrow> string \<Rightarrow> 'v \<Rightarrow> 'j option) \<Rightarrow> ('j \<Rightarrow> 'v \<Rightarrow> bool) \<Rightarrow> bool" where
  "json_adds X add holds \<longleftrightarrow>
     (\<forall>j k v. cJSON_GetObjectItem X j k = None \<longrightarrow>
        (\<exists>j' i. add j k v = Some j' \<and> holds i v \<and>
           (\<forall>k'. cJSON_GetObjectItem X j' k' = (if same_key k k' then Some i else cJSON_GetObjectItem X j k'))))"

definition json_laws :: "('j, 'r) ext \<Rightarrow> bool" where
  "json_laws X \<longleftrightarrow>
     (\<forall>k. cJSON_GetObjectItem X (cJSON_CreateObject X) k = None) \<and>
     json_adds X (cJSON_AddStringToObject X) (\<lambda>i v. cJSON_IsString X i \<and> j_valuestring X i = Some v) \<and>
     json_adds X (cJSON_AddNumberToObject X)
       (\<lambda>i v. cJSON_IsNumber X i \<and> (\<bar>v\<bar> < 2 ^ 53 \<longrightarrow> j_valuelong X i = v))"

text \<open>The sources ignore a failed addition.\<close>

definition json_add :: "('j \<Rightarrow> string \<Rightarrow> 'v \<Rightarrow> 'j option) \<Rightarrow> string \<Rightarrow> 'v \<Rightarrow> 'j \<Rightarrow> 'j" where
  "json_add add k v j = (case add j k v of None \<Rightarrow> j | Some j' \<Rightarrow> j')"

lemma json_adds_json_add:
  assumes "json_adds X add holds" "cJSON_GetObjectItem X j k = None"
  shows "\<exists>i. holds i v \<and> (\<forall>k'. cJSON_GetObjectItem X (json_add add k v j) k'
          = (if same_key k k' then Some i else cJSON_GetObjectItem X j k'))"
  using assms unfolding json_adds_def json_add_def by (metis option.simps(5))

section \<open>An implementation\<close>

datatype json = JStr string | JNum int | JObj "(string \<times> json) list" | JArr "json list"

fun find_item :: "(string \<Rightarrow> bool) \<Rightarrow> (string \<times> json) list \<Rightarrow> json option" where
  "find_item p [] = None"
| "find_item p ((k, v) # kvs) = (if p k then Some v else find_item p kvs)"

definition json_item :: "(string \<Rightarrow> bool) \<Rightarrow> json \<Rightarrow> json option" where
  "json_item p j = (case j of JObj kvs \<Rightarrow> find_item p kvs | _ \<Rightarrow> None)"

definition json_put :: "(string \<Rightarrow> 'v \<Rightarrow> string \<times> json) \<Rightarrow> json \<Rightarrow> string \<Rightarrow> 'v \<Rightarrow> json option" where
  "json_put mk j k v = (case j of JObj kvs \<Rightarrow> Some (JObj (kvs @ [mk k v])) | _ \<Rightarrow> Some (JObj [mk k v]))"

definition json_ext ::
  "(curl_opt list \<Rightarrow> url_op list \<Rightarrow> 'r \<Rightarrow> transfer \<times> 'r) \<Rightarrow> (string \<Rightarrow> json option)
     \<Rightarrow> (json \<Rightarrow> string option) \<Rightarrow> (json, 'r) ext" where
  "json_ext perform parse print = \<lparr>curl_global_init = 0, curl_setopt_rc = (\<lambda>_. 0),
     curl_perform = perform, curl_url_set_rc = (\<lambda>_ _. 0),
     curl_url_get = (\<lambda>_ part. case part of CURLUPART_PATH \<Rightarrow> Inr ''/cb'' | _ \<Rightarrow> Inr ''x''),
     curl_escape = Some, cJSON_Parse = parse, cJSON_PrintUnformatted = print,
     cJSON_GetObjectItem = (\<lambda>j k. json_item (same_key k) j),
     cJSON_GetObjectItemCaseSensitive = (\<lambda>j k. json_item ((=) k) j),
     cJSON_IsString = (\<lambda>j. case j of JStr _ \<Rightarrow> True | _ \<Rightarrow> False),
     cJSON_IsNumber = (\<lambda>j. case j of JNum _ \<Rightarrow> True | _ \<Rightarrow> False),
     cJSON_IsObject = (\<lambda>j. case j of JObj _ \<Rightarrow> True | _ \<Rightarrow> False),
     cJSON_IsArray = (\<lambda>j. case j of JArr _ \<Rightarrow> True | _ \<Rightarrow> False),
     j_valuestring = (\<lambda>j. case j of JStr s \<Rightarrow> Some s | _ \<Rightarrow> None), j_string = (\<lambda>_. Some ''key''),
     j_valuelong = (\<lambda>j. case j of JNum n \<Rightarrow> n | _ \<Rightarrow> 0),
     j_items = (\<lambda>j. case j of JArr js \<Rightarrow> js | JObj kvs \<Rightarrow> map snd kvs | _ \<Rightarrow> []),
     cJSON_CreateObject = JObj [],
     cJSON_AddStringToObject = json_put (\<lambda>k v. (k, JStr v)),
     cJSON_AddNumberToObject = json_put (\<lambda>k v. (k, JNum v)),
     cJSON_AddObjectToObject = (\<lambda>j k. json_put (\<lambda>k _. (k, JObj [])) j k ())\<rparr>"

lemma find_item_append:
  "find_item p (a @ b) = (case find_item p a of None \<Rightarrow> find_item p b | Some v \<Rightarrow> Some v)"
  by (induction p a rule: find_item.induct) auto

lemma same_key_sym: "same_key k k' = same_key k' k"
  by (auto simp: same_key_def)

lemma find_item_same: "same_key k k' \<Longrightarrow> find_item (same_key k) kvs = find_item (same_key k') kvs"
  by (induction kvs) (auto simp: same_key_def)

text \<open>The law asks for an answer on every tree; the library returns NULL when the tree to add to
  is no object, the implementation starts a new one there.\<close>

lemma json_put_adds:
  assumes "\<And>k v. fst (mk k v) = k" "\<And>k v. holds (snd (mk k v)) v"
  shows "json_adds (json_ext perform parse print) (json_put mk) holds"
  unfolding json_adds_def
proof (intro allI impI)
  fix j k v
  assume fresh: "cJSON_GetObjectItem (json_ext perform parse print) j k = None"
  define kvs where "kvs = (case j of JObj kvs \<Rightarrow> kvs | _ \<Rightarrow> [])"
  have put: "json_put mk j k v = Some (JObj (kvs @ [(k, snd (mk k v))]))"
    using assms(1) by (auto simp: json_put_def kvs_def prod_eq_iff split: json.splits)
  have get: "cJSON_GetObjectItem (json_ext perform parse print) j k' = find_item (same_key k') kvs" for k'
    by (auto simp: json_ext_def json_item_def kvs_def split: json.splits)
  have "cJSON_GetObjectItem (json_ext perform parse print) (JObj (kvs @ [(k, snd (mk k v))])) k'
      = (if same_key k k' then Some (snd (mk k v)) else find_item (same_key k') kvs)" for k'
  proof -
    have "same_key k k' \<Longrightarrow> find_item (same_key k') kvs = None"
      using fresh find_item_same [of k k' kvs] unfolding get by simp
    then show ?thesis
      by (auto simp: json_ext_def json_item_def find_item_append same_key_sym [of k'] split: option.splits)
  qed
  with put get assms(2)
  show "\<exists>j' i. json_put mk j k v = Some j' \<and> holds i v \<and>
      (\<forall>k'. cJSON_GetObjectItem (json_ext perform parse print) j' k'
        = (if same_key k k' then Some i else cJSON_GetObjectItem (json_ext perform parse print) j k'))"
    by auto
qed

lemma json_ext_add:
  "cJSON_AddStringToObject (json_ext perform parse print) = json_put (\<lambda>k v. (k, JStr v))"
  "cJSON_AddNumberToObject (json_ext perform parse print) = json_put (\<lambda>k v. (k, JNum v))"
  by (simp_all add: json_ext_def)

lemma json_ext_laws: "json_laws (json_ext perform parse print)"
  unfolding json_laws_def
proof (intro conjI allI)
  show "cJSON_GetObjectItem (json_ext perform parse print) (cJSON_CreateObject (json_ext perform parse print)) k = None" for k
    by (simp add: json_ext_def json_item_def)
  show "json_adds (json_ext perform parse print) (cJSON_AddStringToObject (json_ext perform parse print))
      (\<lambda>i v. cJSON_IsString (json_ext perform parse print) i \<and> j_valuestring (json_ext perform parse print) i = Some v)"
    unfolding json_ext_add by (rule json_put_adds) (simp_all add: json_ext_def)
  show "json_adds (json_ext perform parse print) (cJSON_AddNumberToObject (json_ext perform parse print))
      (\<lambda>i v. cJSON_IsNumber (json_ext perform parse print) i
         \<and> (\<bar>v\<bar> < 2 ^ 53 \<longrightarrow> j_valuelong (json_ext perform parse print) i = v))"
    unfolding json_ext_add by (rule json_put_adds) (simp_all add: json_ext_def)
qed

end
