(* ===== verification/Hive_Sandbird.thy ===== *)
theory Hive_Sandbird
  imports Hive_Libc
begin

text \<open>
  The request parser of the embedded HTTP server (\<open>src/src/sandbird/sandbird.c\<close>) that receives
  the OAuth redirect: percent decoding, header fields, query variables and cookies.

  A \<open>const char *\<close> into the receive buffer is the rest of the string from there on, so that
  \<open>str += n\<close> is \<open>drop n\<close>; the NUL that ends the string differs from every character compared
  with it, which makes \<open>mem_equal(str, lit, strlen(lit))\<close> the prefix test.
\<close>

definition SB_ESUCCESS :: int where [hive_const]: "SB_ESUCCESS = 0"
definition SB_EFAILURE :: int where [hive_const]: "SB_EFAILURE = -1"
definition SB_EOUTOFMEM :: int where [hive_const]: "SB_EOUTOFMEM = -2"
definition SB_ETRUNCATED :: int where [hive_const]: "SB_ETRUNCATED = -3"
definition SB_EBADSTATE :: int where [hive_const]: "SB_EBADSTATE = -4"
definition SB_EBADRESULT :: int where [hive_const]: "SB_EBADRESULT = -5"
definition SB_ECANTOPEN :: int where [hive_const]: "SB_ECANTOPEN = -6"
definition SB_ENOTFOUND :: int where [hive_const]: "SB_ENOTFOUND = -7"
definition SB_EFDTOOBIG :: int where [hive_const]: "SB_EFDTOOBIG = -8"

abbreviation CR :: char where "CR \<equiv> CHR 0x0D"
abbreviation LF :: char where "LF \<equiv> CHR 0x0A"
abbreviation TAB :: char where "TAB \<equiv> CHR 0x09"

section \<open>Characters\<close>

definition char_int :: "char \<Rightarrow> int" where
  "char_int c = (let n = int (of_char c) in if n < 128 then n else n - 256)"

definition hex_to_int :: "char \<Rightarrow> int" where
  "hex_to_int c = (if is_digit c then char_int c - 48 else char_int (c_tolower c) - 97 + 10)"

text \<open>The assignment \<open>*dst = (hex_to_int(a) << 4) | hex_to_int(b)\<close> keeps the low byte of an \<open>int\<close>.\<close>

definition hex_pair :: "char \<Rightarrow> char \<Rightarrow> char" where
  "hex_pair a b =
     char_of (unat (take_bit 8 (or (push_bit 4 (word_of_int (hex_to_int a) :: u32)) (word_of_int (hex_to_int b)))))"

section \<open>Percent decoding\<close>

definition url_stop :: "char set" where
  "url_stop = {CHR ''?'', CHR ''&'', CHR '' '', TAB, CR, LF}"

text \<open>\<open>rem\<close> is \<open>len\<close> after its first decrement; the result is what was written before the final
  NUL, and what is left of \<open>len\<close>.\<close>

fun url_decode_loop :: "nat \<Rightarrow> string \<Rightarrow> bytes \<times> nat" where
  "url_decode_loop 0 src = ([], 0)"
| "url_decode_loop (Suc rem) [] = ([], Suc rem)"
| "url_decode_loop (Suc rem) (c # cs) =
     (if c \<in> url_stop then ([], Suc rem)
      else case cs of
        a # b # rest \<Rightarrow>
          if c = CHR ''%'' then (case url_decode_loop rem rest of (d, r) \<Rightarrow> (hex_pair a b # d, r))
          else (case url_decode_loop rem cs of
                  (d, r) \<Rightarrow> ((if c = CHR ''+'' then CHR '' '' else c) # d, r))
      | _ \<Rightarrow> (case url_decode_loop rem cs of
                  (d, r) \<Rightarrow> ((if c = CHR ''+'' then CHR '' '' else c) # d, r)))"

text \<open>With \<open>len = 0\<close> the decrement wraps around and nothing bounds the write.\<close>

definition url_decode :: "string \<Rightarrow> nat \<Rightarrow> (int \<times> bytes) option" where
  "url_decode src len =
     (if len = 0 then None
      else (case url_decode_loop (len - 1) src of
              (d, r) \<Rightarrow> Some (if r = 0 then SB_ETRUNCATED else SB_ESUCCESS, d)))"

section \<open>Header fields and variables\<close>

definition mem_equal :: "string \<Rightarrow> string \<Rightarrow> bool" where
  "mem_equal str lit \<longleftrightarrow> prefix lit str"

definition mem_case_equal :: "string \<Rightarrow> string \<Rightarrow> bool" where
  "mem_case_equal str lit \<longleftrightarrow> prefix (map c_tolower lit) (map c_tolower str)"

definition str_from :: "string \<Rightarrow> nat \<Rightarrow> char option" where
  "str_from str n = (if n < length str then Some (str ! n) else None)"

partial_function (option) find_header_value :: "string \<Rightarrow> string \<Rightarrow> string option option" where
  "find_header_value str field =
     (if str = [] \<or> mem_equal str [CR, LF] then Some None
      else if mem_case_equal str field \<and> str_from str (length field) = Some (CHR '':'')
      then Some (Some (dropWhile (\<lambda>c. c \<in> {CHR '' '', TAB}) (drop (length field + 1) str)))
      else (let str' = dropWhile (\<lambda>c. c \<noteq> CR) str
            in find_header_value (if mem_equal str' [CR, LF] then drop 2 str' else str') field))"

definition var_stop :: "char set" where
  "var_stop = {CHR ''&'', CHR '' '', TAB, CR, LF}"

function find_var_value :: "string \<Rightarrow> string \<Rightarrow> string option" where
  "find_var_value str name =
     (if mem_equal str name \<and> str_from str (length name) = Some (CHR ''='')
      then Some (drop (length name + 1) str)
      else (let str' = dropWhile (\<lambda>c. c \<notin> var_stop) str
            in if str' = [] \<or> hd str' \<noteq> CHR ''&'' then None
               else find_var_value (tl str') name))"
  by pat_completeness auto

termination
proof (relation "measure (\<lambda>(str, name). length str)")
  fix str name str' :: string
  assume s: "str' = dropWhile (\<lambda>c. c \<notin> var_stop) str" "\<not> (str' = [] \<or> hd str' \<noteq> CHR ''&'')"
  have "length str' \<le> length str" unfolding s(1) by (rule length_dropWhile_le)
  with s(2) show "((tl str', name), str, name) \<in> measure (\<lambda>(str, name). length str)"
    by (cases str') auto
qed simp

declare find_var_value.simps [simp del]

definition sb_error_str :: "int \<Rightarrow> string" where
  "sb_error_str code =
     (if code = SB_ESUCCESS then ''success''
      else if code = SB_EFAILURE then ''failure''
      else if code = SB_EOUTOFMEM then ''out of memory''
      else if code = SB_ETRUNCATED then ''result truncated''
      else if code = SB_EBADSTATE then ''bad stream state for this operation''
      else if code = SB_EBADRESULT then ''bad result code from event handler''
      else if code = SB_ECANTOPEN then ''cannot open file''
      else if code = SB_ENOTFOUND then ''not found''
      else if code = SB_EFDTOOBIG then ''got socket fd larger than FD_SETSIZE''
      else ''unknown'')"

section \<open>Reading a request\<close>

text \<open>The C string that starts at \<open>recv_buf.s + i\<close>.\<close>

definition c_str_at :: "bytes \<Rightarrow> nat \<Rightarrow> string" where
  "c_str_at buf i = takeWhile (\<lambda>c. c \<noteq> NUL) (drop i buf)"

fun trim_end :: "nat \<Rightarrow> string \<Rightarrow> nat" where
  "trim_end 0 s = 0"
| "trim_end (Suc n) s =
     (if 0 < n \<and> s ! n \<in> {CHR '' '', TAB} then trim_end n s else Suc n)"

text \<open>A value that no carriage return ends makes \<open>strchr\<close> yield NULL; a destination of no bytes
  makes \<open>len - 1\<close> wrap around.\<close>

definition sb_get_header :: "bytes \<Rightarrow> string \<Rightarrow> nat \<Rightarrow> (int \<times> bytes) option" where
  "sb_get_header recv field len = do {
     v \<leftarrow> find_header_value (c_str_at recv 0) field;
     case v of
       None \<Rightarrow> Some (SB_ENOTFOUND, [])
     | Some s \<Rightarrow> do {
         c_assert (CR \<in> set s);
         c_assert (0 < len);
         let n = trim_end (length (takeWhile (\<lambda>c. c \<noteq> CR) s)) s;
         if n > len - 1 then Some (SB_ETRUNCATED, take (len - 1) s)
         else Some (SB_ESUCCESS, take n s)
       }
   }"

definition sb_get_var :: "bytes \<Rightarrow> nat \<Rightarrow> string \<Rightarrow> nat \<Rightarrow> (int \<times> bytes) option" where
  "sb_get_var recv data_idx name len =
     (let rest = dropWhile (\<lambda>c. c \<notin> {CHR ''?'', CR}) (c_str_at recv 0);
          s1 = (if rest \<noteq> [] \<and> hd rest = CHR ''?'' then find_var_value (tl rest) name else None);
          s2 = (if s1 = None \<and> data_idx \<noteq> 0 then find_var_value (c_str_at recv data_idx) name else s1)
      in case s2 of
           None \<Rightarrow> Some (SB_ENOTFOUND, [])
         | Some s \<Rightarrow> url_decode s len)"

text \<open>\<open>strchr(" =", c)\<close> also finds the NUL that ends the string.\<close>

function cookie_loop :: "string \<Rightarrow> string \<Rightarrow> nat \<Rightarrow> (int \<times> bytes) option" where
  "cookie_loop s name len =
     (if s = [] then Some (SB_ENOTFOUND, [])
      else (let s1 = dropWhile (\<lambda>c. c \<in> {CHR '' '', TAB}) s in
        if mem_case_equal s1 name
           \<and> (case str_from s1 (length name) of None \<Rightarrow> True | Some c \<Rightarrow> c \<in> {CHR '' '', CHR ''=''})
        then (if len = 0 then None
              else (let v = takeWhile (\<lambda>c. c \<notin> {CHR '';'', CR})
                              (dropWhile (\<lambda>c. c \<in> {CHR ''='', CHR '' '', TAB, CR}) (drop (length name) s1))
                    in if length v \<ge> len - 1 then Some (SB_ETRUNCATED, take (len - 1) v)
                       else Some (SB_ESUCCESS, v)))
        else (let s2 = dropWhile (\<lambda>c. c \<notin> {CHR '';'', CR}) s1
              in if s2 = [] \<or> hd s2 \<noteq> CHR '';'' then Some (SB_ENOTFOUND, [])
                 else cookie_loop (tl s2) name len)))"
  by pat_completeness auto

termination
proof (relation "measure (\<lambda>(s, name, len). length s)")
  fix s name s1 s2 :: string and len :: nat
  assume s: "s1 = dropWhile (\<lambda>c. c \<in> {CHR '' '', TAB}) s"
    "s2 = dropWhile (\<lambda>c. c \<notin> {CHR '';'', CR}) s1" "\<not> (s2 = [] \<or> hd s2 \<noteq> CHR '';'')"
  have "length s2 \<le> length s1" "length s1 \<le> length s"
    unfolding s(1,2) by (rule length_dropWhile_le)+
  with s(3) show "((tl s2, name, len), s, name, len) \<in> measure (\<lambda>(s, name, len). length s)"
    by (cases s2) auto
qed simp

declare cookie_loop.simps [simp del]

definition sb_get_cookie :: "bytes \<Rightarrow> string \<Rightarrow> nat \<Rightarrow> (int \<times> bytes) option" where
  "sb_get_cookie recv name len = do {
     v \<leftarrow> find_header_value (c_str_at recv 0) ''Cookie'';
     case v of None \<Rightarrow> Some (SB_ENOTFOUND, []) | Some s \<Rightarrow> cookie_loop s name len
   }"

section \<open>Percent encoding and back\<close>

text \<open>The reference encoder: every byte as a percent sign and two hexadecimal digits.\<close>

definition hex_digit :: "nat \<Rightarrow> char" where
  "hex_digit d = char_of (if d < 10 then 48 + d else 55 + d)"

definition pct_encode :: "bytes \<Rightarrow> string" where
  "pct_encode s = concat (map (\<lambda>c. [CHR ''%'', hex_digit (of_char c div 16), hex_digit (of_char c mod 16)]) s)"

lemma all_below_16:
  "n < 16 \<longleftrightarrow> n \<in> {0, 1, 2, 3, 4, 5, 6, 7, 8, 9, 10, 11, 12, 13, 14, 15}" for n :: nat
  unfolding insert_iff empty_iff by presburger

lemma hex_to_int_digit: "d < 16 \<Longrightarrow> hex_to_int (hex_digit d) = int d"
  unfolding all_below_16
  by (auto simp: hex_to_int_def hex_digit_def is_digit_def char_int_def c_tolower_def Let_def)

lemma hex_pair_digits:
  assumes "a < 16" "b < 16"
  shows "hex_pair (hex_digit a) (hex_digit b) = char_of (16 * a + b)"
  using assms unfolding all_below_16
  by (auto simp: hex_pair_def hex_to_int_digit)

lemma byte_halves: "(of_char c :: nat) div 16 < 16" "(of_char c :: nat) mod 16 < 16"
  using nat_of_char_less_256 [of c] by (simp_all add: less_mult_imp_div_less)

lemma pct_encode_simps [simp]:
  "pct_encode [] = []"
  "pct_encode (c # s) =
     CHR ''%'' # hex_digit (of_char c div 16) # hex_digit (of_char c mod 16) # pct_encode s"
  by (simp_all add: pct_encode_def)

lemma hex_pair_byte:
  "hex_pair (hex_digit (of_char c div 16)) (hex_digit (of_char c mod 16)) = c"
  using byte_halves [of c] by (simp add: hex_pair_digits)

text \<open>A decoded value ends where the text does or at one of the characters of \<open>url_stop\<close>.\<close>

definition ends_value :: "string \<Rightarrow> bool" where
  "ends_value rest \<longleftrightarrow> rest = [] \<or> hd rest \<in> url_stop"

lemma url_decode_loop_pct:
  "ends_value rest \<Longrightarrow> length s \<le> k \<Longrightarrow> url_decode_loop k (pct_encode s @ rest) = (s, k - length s)"
proof (induction s arbitrary: k)
  case Nil
  then show ?case by (cases k; cases rest) (auto simp: ends_value_def)
next
  case (Cons c s)
  then obtain j where "k = Suc j" "length s \<le> j" by (cases k) auto
  moreover have "CHR ''%'' \<notin> url_stop" by (simp add: url_stop_def)
  ultimately show ?case using Cons by (simp add: hex_pair_byte)
qed

lemma hex_digit_plain: "d < 16 \<Longrightarrow> hex_digit d \<notin> {NUL, CR, CHR ''?'', CHR ''&'', CHR '' '', TAB, LF}"
  unfolding all_below_16 by (auto simp: hex_digit_def char_of_eq_iff)

lemma pct_encode_plain: "c \<in> set (pct_encode s) \<Longrightarrow> c \<notin> {NUL, CR, CHR ''?'', CHR ''&'', CHR '' '', TAB, LF}"
  using byte_halves hex_digit_plain by (induction s) auto

text \<open>Skipping the variables in front of the wanted one.\<close>

lemma find_var_value_here:
  "find_var_value (name @ CHR ''='' # v) name = Some v"
  by (simp add: find_var_value.simps mem_equal_def str_from_def)

lemma find_var_value_skip:
  assumes "set v \<inter> var_stop = {}" "CHR ''&'' \<notin> set name" "\<not> prefix (name @ ''='') v"
  shows "find_var_value (v @ CHR ''&'' # rest) name = find_var_value rest name"
proof -
  have "\<not> (mem_equal (v @ CHR ''&'' # rest) name
      \<and> str_from (v @ CHR ''&'' # rest) (length name) = Some (CHR ''=''))"
  proof
    assume a: "mem_equal (v @ CHR ''&'' # rest) name
      \<and> str_from (v @ CHR ''&'' # rest) (length name) = Some (CHR ''='')"
    then obtain z where z: "v @ CHR ''&'' # rest = name @ z" by (auto simp: mem_equal_def prefix_def)
    with a have "z \<noteq> [] \<and> hd z = CHR ''=''"
      by (auto simp: str_from_def hd_conv_nth nth_append split: if_splits)
    then obtain z' where "v @ CHR ''&'' # rest = (name @ ''='') @ z'"
      using z by (cases z) auto
    with assms(2,3) show False
      by (auto simp: append_eq_append_conv2 Cons_eq_append_conv append_eq_Cons_conv prefix_def)
  qed
  moreover have "dropWhile (\<lambda>c. c \<notin> var_stop) (v @ CHR ''&'' # rest) = CHR ''&'' # rest"
    using assms(1) by (subst dropWhile_append2) (auto simp: var_stop_def)
  ultimately show ?thesis
    by (subst find_var_value.simps) (simp only: if_False Let_def, simp)
qed

definition other_vars :: "string \<Rightarrow> string list \<Rightarrow> bool" where
  "other_vars name vs \<longleftrightarrow> list_all (\<lambda>v. set v \<inter> (var_stop \<union> {NUL}) = {} \<and> \<not> prefix (name @ ''='') v) vs"

lemma find_var_value_among:
  assumes "other_vars name vs" "CHR ''&'' \<notin> set name"
  shows "find_var_value (concat (map (\<lambda>v. v @ ''&'') vs) @ name @ ''='' @ val) name = Some val"
  using assms(1)
proof (induction vs)
  case Nil
  then show ?case by (simp add: find_var_value_here)
next
  case (Cons v vs)
  then have "set v \<inter> var_stop = {}" "\<not> prefix (name @ ''='') v" "other_vars name vs"
    by (auto simp: other_vars_def)
  with Cons find_var_value_skip [OF _ assms(2)] show ?case by simp
qed

lemma sb_get_var_value:
  assumes "set pre \<inter> {CHR ''?'', CR, NUL} = {}" and "other_vars name vs"
    and "set name \<inter> {CHR ''&'', NUL} = {}"
    and "rst = [] \<or> hd rst = NUL \<or> hd rst \<in> url_stop" and "length s < len"
  shows "sb_get_var (pre @ ''?'' @ concat (map (\<lambda>v. v @ ''&'') vs) @ name @ ''='' @ pct_encode s @ rst)
           data_idx name len
         = Some (if length s = len - 1 then SB_ETRUNCATED else SB_ESUCCESS, s)"
proof -
  let ?q = "concat (map (\<lambda>v. v @ ''&'') vs) @ name @ ''='' @ pct_encode s"
  define cut where "cut = takeWhile (\<lambda>c. c \<noteq> NUL) rst"
  have ends: "ends_value cut"
    using assms(4) by (cases rst) (auto simp: ends_value_def cut_def)
  have vs: "NUL \<notin> set (concat (map (\<lambda>v. v @ ''&'') vs))"
    using assms(2) by (induction vs) (auto simp: other_vars_def)
  have "\<forall>c \<in> set (pre @ ''?'' @ ?q). c \<noteq> NUL"
    using assms(1,3) vs pct_encode_plain by fastforce
  then have "takeWhile (\<lambda>c. c \<noteq> NUL) ((pre @ ''?'' @ ?q) @ rst) = (pre @ ''?'' @ ?q) @ cut"
    unfolding cut_def by (intro takeWhile_append2) blast
  then have str: "c_str_at (pre @ ''?'' @ ?q @ rst) 0 = pre @ ''?'' @ ?q @ cut"
    by (simp add: c_str_at_def)
  have rest: "dropWhile (\<lambda>c. c \<notin> {CHR ''?'', CR}) (pre @ ''?'' @ ?q @ cut) = ''?'' @ ?q @ cut"
    using assms(1) by (subst dropWhile_append2) auto
  have "find_var_value (?q @ cut) name = Some (pct_encode s @ cut)"
    using find_var_value_among [OF assms(2), of "pct_encode s @ cut"] assms(3) by simp
  moreover have "url_decode (pct_encode s @ cut) len
      = Some (if length s = len - 1 then SB_ETRUNCATED else SB_ESUCCESS, s)"
    using url_decode_loop_pct [OF ends, of s "len - 1"] assms(5) by (auto simp: url_decode_def)
  moreover have "sb_get_var (pre @ ''?'' @ ?q @ rst) data_idx name len =
      url_decode (pct_encode s @ cut) len"
    using calculation(1) unfolding sb_get_var_def str rest by simp
  ultimately show ?thesis by simp
qed



section \<open>Header look-up\<close>

definition header_line :: "string \<Rightarrow> string \<Rightarrow> bool" where
  "header_line l field \<longleftrightarrow> mem_case_equal l field \<and> str_from l (length field) = Some (CHR '':'')"

definition header_text :: "string list \<Rightarrow> string" where
  "header_text ls = concat (map (\<lambda>l. l @ [CR, LF]) ls) @ [CR, LF]"

fun header_value :: "string list \<Rightarrow> string \<Rightarrow> string option" where
  "header_value [] field = None"
| "header_value (l # ls) field =
     (if header_line l field
      then Some (dropWhile (\<lambda>c. c \<in> {CHR '' '', TAB}) (drop (length field + 1) l @ [CR, LF] @ header_text ls))
      else header_value ls field)"

lemma c_tolower_CR [simp]: "c_tolower CR = CR" and c_tolower_colon [simp]: "c_tolower (CHR '':'') = CHR '':''"
  by (simp_all add: c_tolower_def)

lemma char_of_eq_CR: "c_tolower c = CR \<Longrightarrow> c = CR"
  by (auto simp: c_tolower_def Let_def char_of_eq_iff take_bit_eq_mod split: if_splits)

lemma prefix_stop: "x \<notin> set f \<Longrightarrow> prefix f (a @ x # b) \<longleftrightarrow> prefix f a"
  by (auto simp: prefix_append prefix_Cons)

lemma mem_case_equal_line:
  assumes "CR \<notin> set field"
  shows "mem_case_equal (l @ CR # rest) field \<longleftrightarrow> mem_case_equal l field"
proof -
  have "CR \<notin> set (map c_tolower field)" using assms char_of_eq_CR by force
  then show ?thesis
    by (simp add: mem_case_equal_def prefix_stop)
qed

lemma header_line_text:
  assumes "CR \<notin> set field"
  shows "mem_case_equal (l @ CR # rest) field
           \<and> str_from (l @ CR # rest) (length field) = Some (CHR '':'') \<longleftrightarrow> header_line l field"
proof -
  have "mem_case_equal l field \<Longrightarrow> length field \<le> length l"
    by (auto simp: mem_case_equal_def dest: prefix_length_le)
  then show ?thesis
    by (auto simp: mem_case_equal_line [OF assms] header_line_def str_from_def nth_append)
qed

lemma header_text_Cons: "header_text (l # ls) = l @ CR # LF # header_text ls"
  by (simp add: header_text_def)

lemma header_text_nonempty [simp]: "header_text ls \<noteq> []"
  by (simp add: header_text_def)

text \<open>On a well-formed header (lines that end in CR LF and an empty line at the end) the search for
  a field returns the value of the first line that starts with the field's name, whatever its case,
  or nothing when no line does.\<close>

theorem find_header_value_lines:
  assumes "\<forall>l \<in> set ls. l \<noteq> [] \<and> CR \<notin> set l" and "CR \<notin> set field"
  shows "find_header_value (header_text ls) field = Some (header_value ls field)"
  using assms(1)
proof (induction ls)
  case Nil
  then show ?case
    by (subst find_header_value.simps) (simp add: header_text_def mem_equal_def)
next
  case (Cons l ls)
  then have l: "l \<noteq> []" "CR \<notin> set l" by auto
  have start: "\<not> mem_equal (l @ CR # LF # header_text ls) [CR, LF]"
    using l by (cases l) (auto simp: mem_equal_def)
  have skip: "dropWhile (\<lambda>c. c \<noteq> CR) (l @ CR # LF # header_text ls) = CR # LF # header_text ls"
    using l(2) by simp
  have len: "header_line l field \<Longrightarrow> length field + 1 \<le> length l"
    by (auto simp: header_line_def str_from_def split: if_splits)
  show ?case
    using Cons start len header_line_text [OF assms(2), of l "LF # header_text ls"]
    by (subst find_header_value.simps)
      (simp add: header_text_Cons skip mem_equal_def)
qed

lemma find_header_value_lines_witness:
  "find_header_value (header_text [''GET / HTTP/1.1'', ''Host: h'', ''content-length: 12'']) ''Content-Length''
     = Some (Some (''12'' @ [CR, LF, CR, LF]))"
proof -
  have "header_value [''GET / HTTP/1.1'', ''Host: h'', ''content-length: 12''] ''Content-Length''
      = Some (''12'' @ [CR, LF, CR, LF])"
    by code_simp
  with find_header_value_lines [of "[''GET / HTTP/1.1'', ''Host: h'', ''content-length: 12'']" "''Content-Length''"]
  show ?thesis by simp
qed

text \<open>A carriage return that no line feed follows is never stepped over: the least fixed point of
  the loop is undefined there.\<close>

lemma find_header_value_at_bare_cr:
  assumes "\<not> prefix [LF] rest" "field \<noteq> []" "CR \<notin> set field"
  shows "find_header_value (CR # rest) field = None"
proof -
  have nomatch: "\<not> mem_case_equal (CR # rest) field"
    using assms(2) mem_case_equal_line [OF assms(3), of "[]" rest] by (simp add: mem_case_equal_def)
  let ?P = "\<lambda>str fld v. \<not> (str = CR # rest \<and> fld = field)"
  have "?P str fld v" if "find_header_value str fld = Some v" for str fld v
    by (rule find_header_value.raw_induct [where P = ?P, OF _ that])
      (use assms(1) nomatch in \<open>auto simp: mem_equal_def Let_def split: if_splits\<close>)
  then show ?thesis by (cases "find_header_value (CR # rest) field") auto
qed



end
