(* ===== verification/Hive_Sandbird_Stream.thy ===== *)
theory Hive_Sandbird_Stream
  imports Hive_Sandbird
begin

text \<open>
  The streams of the embedded HTTP server (\<open>src/src/sandbird/sandbird.c\<close>, from \<open>sb_buffer_init\<close>
  to \<open>sb_writef\<close>): growing buffers, the states of a connection, receiving a request byte by byte,
  and sending the response.

  \<^item> A buffer is its block of memory and the number of bytes used; the capacity is the length of
    the block, and \<open>realloc\<close> leaves junk in the new part.
  \<^item> A socket is a number.  What \<open>recv\<close> and \<open>send\<close> return is a parameter of the functions that
    call them.  An open file that is being sent is its key and its position.
  \<^item> The event handler is a function of the event, the stream it may answer on, the user data \<open>'u\<close>
    and the world; the address of the peer is not part of the model.
\<close>

section \<open>Buffers\<close>

record sb_Buffer =
  buf_s :: bytes
  buf_len :: nat

definition sb_buffer_init :: sb_Buffer where
  "sb_buffer_init = \<lparr>buf_s = [], buf_len = 0\<rparr>"

definition sb_buffer_shift :: "sb_Buffer \<Rightarrow> nat \<Rightarrow> sb_Buffer option" where
  "sb_buffer_shift buf n =
     (if buf_len buf < n \<or> length (buf_s buf) < buf_len buf then None
      else let len = buf_len buf - n in
        Some \<lparr>buf_s = take len (drop n (buf_s buf)) @ drop len (buf_s buf), buf_len = len\<rparr>)"

definition sb_buffer_reserve :: "sb_Buffer \<Rightarrow> nat \<Rightarrow> 'r world \<Rightarrow> int \<times> sb_Buffer \<times> 'r world" where
  "sb_buffer_reserve buf n w =
     (if n \<le> length (buf_s buf) then (SB_ESUCCESS, buf, w)
      else (let (ok, w1) = c_alloc w in
        if \<not> ok then (SB_EOUTOFMEM, buf, w1)
        else (SB_ESUCCESS, buf\<lparr>buf_s := resize_block (heap_junk w1 (tick w1)) n (buf_s buf)\<rparr>,
              w1\<lparr>tick := Suc (tick w1)\<rparr>)))"

definition sb_buffer_push_char :: "sb_Buffer \<Rightarrow> char \<Rightarrow> 'r world \<Rightarrow> (int \<times> sb_Buffer \<times> 'r world) option" where
  "sb_buffer_push_char buf chr w =
     (let cap = length (buf_s buf);
          (err, b, w1) = (if buf_len buf = cap then sb_buffer_reserve buf (if cap = 0 then 1 else 2 * cap) w
                          else (SB_ESUCCESS, buf, w))
      in if err \<noteq> SB_ESUCCESS then Some (err, b, w1)
         else do {
           s \<leftarrow> store_at (buf_len b) [chr] (buf_s b);
           Some (SB_ESUCCESS, \<lparr>buf_s = s, buf_len = buf_len b + 1\<rparr>, w1)
         })"

fun push_chars :: "nat \<Rightarrow> sb_Buffer \<Rightarrow> bytes \<Rightarrow> 'r world \<Rightarrow> (int \<times> sb_Buffer \<times> 'r world) option" where
  "push_chars orig_len buf [] w = Some (SB_ESUCCESS, buf, w)"
| "push_chars orig_len buf (c # p) w =
     (case sb_buffer_push_char buf c w of
        None \<Rightarrow> None
      | Some (err, b, w1) \<Rightarrow>
          if err \<noteq> SB_ESUCCESS then Some (err, b\<lparr>buf_len := orig_len\<rparr>, w1) else push_chars orig_len b p w1)"

definition sb_buffer_push_str :: "sb_Buffer \<Rightarrow> bytes \<Rightarrow> 'r world \<Rightarrow> (int \<times> sb_Buffer \<times> 'r world) option" where
  "sb_buffer_push_str buf p w = push_chars (buf_len buf) buf p w"

text \<open>The arguments of a format.  \<open>%s\<close> takes a string, which may be null; of the directives that
  are passed on to \<open>sprintf\<close> those on integers and characters without flags and width
  are computed here, those with flags have no result; a directive of no other letter stands for itself.
  An argument of type \<open>double\<close> or \<open>void *\<close> is what \<open>sprintf\<close> prints for it under a directive, into an array
  of 512 bytes.\<close>

definition c_isalpha :: "char \<Rightarrow> bool" where
  "c_isalpha c \<longleftrightarrow> (let n = of_char c :: nat in 65 \<le> n \<and> n \<le> 90 \<or> 97 \<le> n \<and> n \<le> 122)"

fun show_hex :: "nat \<Rightarrow> string" where
  "show_hex n = (if n < 16 then [hex_digit n] else show_hex (n div 16) @ [hex_digit (n mod 16)])"

declare show_hex.simps [simp del]

datatype fmt_arg = Str_arg "string option" | Int_arg int | Printed_arg "string \<Rightarrow> string"

definition fmt_expand :: "char \<Rightarrow> fmt_arg list \<Rightarrow> (string \<times> fmt_arg list) option" where
  "fmt_expand d args =
     (if d = CHR ''s'' then
        (case args of Str_arg s # rest \<Rightarrow> Some (case s of None \<Rightarrow> ''(null)'' | Some t \<Rightarrow> t, rest) | _ \<Rightarrow> None)
      else if d \<in> {CHR ''d'', CHR ''i''} then
        (case args of Int_arg n # rest \<Rightarrow> Some (show_int n, rest) | _ \<Rightarrow> None)
      else if d = CHR ''u'' then
        (case args of Int_arg n # rest \<Rightarrow> Some (show_nat (nat (n mod 2 ^ 32)), rest) | _ \<Rightarrow> None)
      else if d = CHR ''c'' then
        (case args of Int_arg n # rest \<Rightarrow> Some (takeWhile (\<lambda>c. c \<noteq> NUL) [char_of (nat (n mod 256))], rest) | _ \<Rightarrow> None)
      else if d \<in> {CHR ''x'', CHR ''X''} then
        (case args of Int_arg n # rest \<Rightarrow>
           Some (map (if d = CHR ''x'' then c_tolower else id) (show_hex (nat (n mod 2 ^ 32))), rest) | _ \<Rightarrow> None)
      else if d \<in> {CHR ''f'', CHR ''g'', CHR ''p''} then
        (case args of Printed_arg f # rest \<Rightarrow> do { lbuf \<leftarrow> c_strcpy 512 (f [CHR ''%'', d]); Some (lbuf, rest) } | _ \<Rightarrow> None)
      else if d = CHR ''%'' \<or> c_isalpha d then Some ([d], args)
      else None)"

fun vwritef_loop ::
  "nat \<Rightarrow> sb_Buffer \<Rightarrow> string \<Rightarrow> fmt_arg list \<Rightarrow> 'r world \<Rightarrow> (int \<times> sb_Buffer \<times> 'r world) option" where
  "vwritef_loop orig_len buf [] args w = Some (SB_ESUCCESS, buf, w)"
| "vwritef_loop orig_len buf (c # fmt) args w =
     (if c = CHR ''%'' then
        (case fmt of
           [] \<Rightarrow> None
         | d # fmt' \<Rightarrow>
             (case fmt_expand d args of
                None \<Rightarrow> None
              | Some (s, rest) \<Rightarrow>
                  (case sb_buffer_push_str buf s w of
                     None \<Rightarrow> None
                   | Some (err, b, w1) \<Rightarrow>
                       if err \<noteq> SB_ESUCCESS then Some (err, b\<lparr>buf_len := orig_len\<rparr>, w1)
                       else vwritef_loop orig_len b fmt' rest w1)))
      else
        (case sb_buffer_push_char buf c w of
           None \<Rightarrow> None
         | Some (err, b, w1) \<Rightarrow>
             if err \<noteq> SB_ESUCCESS then Some (err, b\<lparr>buf_len := orig_len\<rparr>, w1)
             else vwritef_loop orig_len b fmt args w1))"

definition sb_buffer_vwritef ::
  "sb_Buffer \<Rightarrow> string \<Rightarrow> fmt_arg list \<Rightarrow> 'r world \<Rightarrow> (int \<times> sb_Buffer \<times> 'r world) option" where
  "sb_buffer_vwritef buf fmt args w = vwritef_loop (buf_len buf) buf fmt args w"

definition sb_buffer_null_terminate :: "sb_Buffer \<Rightarrow> 'r world \<Rightarrow> (int \<times> sb_Buffer \<times> 'r world) option" where
  "sb_buffer_null_terminate buf w = do {
     (err, b, w1) \<leftarrow> sb_buffer_push_char buf NUL w;
     Some (if err \<noteq> SB_ESUCCESS then (err, b, w1) else (SB_ESUCCESS, b\<lparr>buf_len := buf_len b - 1\<rparr>, w1))
   }"

section \<open>Streams\<close>

datatype stream_state =
    STATE_RECEIVING_HEADER
  | STATE_RECEIVING_REQUEST
  | STATE_SENDING_STATUS
  | STATE_SENDING_HEADER
  | STATE_SENDING_DATA
  | STATE_SENDING_FILE
  | STATE_CLOSING

text \<open>The states are compared by their number.\<close>

fun state_number :: "stream_state \<Rightarrow> nat" where
  "state_number STATE_RECEIVING_HEADER = 0"
| "state_number STATE_RECEIVING_REQUEST = 1"
| "state_number STATE_SENDING_STATUS = 2"
| "state_number STATE_SENDING_HEADER = 3"
| "state_number STATE_SENDING_DATA = 4"
| "state_number STATE_SENDING_FILE = 5"
| "state_number STATE_CLOSING = 6"

instantiation stream_state :: linorder
begin

definition less_eq_stream_state :: "stream_state \<Rightarrow> stream_state \<Rightarrow> bool" where
  "a \<le> b \<longleftrightarrow> state_number a \<le> state_number b"

definition less_stream_state :: "stream_state \<Rightarrow> stream_state \<Rightarrow> bool" where
  "a < b \<longleftrightarrow> state_number a < state_number b"

instance
proof
  fix a b :: stream_state
  show "a = b" if "a \<le> b" "b \<le> a"
    using that by (cases a; cases b) (simp_all add: less_eq_stream_state_def)
qed (auto simp: less_eq_stream_state_def less_stream_state_def)

end

record sb_Stream =
  st_state :: stream_state
  init_time :: int
  last_activity :: int
  expected_recv_len :: nat
  data_idx :: nat
  st_sockfd :: nat
  recv_buf :: sb_Buffer
  send_buf :: sb_Buffer
  send_fp :: "(string list \<times> nat) option"
  st_address :: string

datatype sb_Emitted = EV_CONNECT | EV_CLOSE | EV_REQUEST string string

definition SB_RES_OK :: int where [hive_const]: "SB_RES_OK = 0"
definition SB_RES_CLOSE :: int where [hive_const]: "SB_RES_CLOSE = 1"

type_synonym ('u, 'r) sb_Handler =
  "sb_Emitted \<Rightarrow> sb_Stream \<Rightarrow> 'u \<Rightarrow> 'r world \<Rightarrow> (int \<times> sb_Stream \<times> 'u \<times> 'r world) option"

text \<open>The peer of a socket: whether its address is one of IPv6, and the text of it; \<open>None\<close> when
  \<open>getpeername\<close> fails.  \<open>inet_ntop\<close> stores the text when it fits the size it is told.\<close>

definition INET_ADDRSTRLEN :: nat where [hive_const]: "INET_ADDRSTRLEN = 16"
definition INET6_ADDRSTRLEN :: nat where [hive_const]: "INET6_ADDRSTRLEN = 46"

definition get_socket_address :: "(bool \<times> string) option \<Rightarrow> int \<times> string" where
  "get_socket_address peer = (case peer of
     None \<Rightarrow> (SB_EFAILURE, [])
   | Some (v6, text) \<Rightarrow>
       (SB_ESUCCESS, if length text < (if v6 then INET6_ADDRSTRLEN else INET_ADDRSTRLEN) then text else []))"

definition sb_stream_new :: "int \<Rightarrow> nat \<Rightarrow> (bool \<times> string) option \<Rightarrow> 'r world \<Rightarrow> sb_Stream option \<times> 'r world" where
  "sb_stream_new now sockfd peer w =
     (let (ok, w1) = c_alloc w in
      if \<not> ok then (None, w1)
      else (Some \<lparr>st_state = STATE_RECEIVING_HEADER, init_time = now, last_activity = now,
             expected_recv_len = 0, data_idx = 0, st_sockfd = sockfd,
             recv_buf = sb_buffer_init, send_buf = sb_buffer_init, send_fp = None,
             st_address = snd (get_socket_address peer)\<rparr>, w1))"

definition sb_stream_close :: "sb_Stream \<Rightarrow> sb_Stream" where
  "sb_stream_close st = st\<lparr>st_state := STATE_CLOSING\<rparr>"

definition sb_stream_emit ::
  "('u, 'r) sb_Handler \<Rightarrow> sb_Emitted \<Rightarrow> sb_Stream \<Rightarrow> 'u \<Rightarrow> 'r world \<Rightarrow> (int \<times> sb_Stream \<times> 'u \<times> 'r world) option" where
  "sb_stream_emit handler e st u w = do {
     (res, st1, u1, w1) \<leftarrow> handler e st u w;
     Some (if res < 0 then (res, st1, u1, w1)
           else if res = SB_RES_CLOSE then (SB_ESUCCESS, sb_stream_close st1, u1, w1)
           else if res = SB_RES_OK then (SB_ESUCCESS, st1, u1, w1)
           else (SB_EBADRESULT, st1, u1, w1))
   }"

text \<open>Closing a descriptor that is not a file of the world.\<close>

definition close_fd :: "'r world \<Rightarrow> 'r world" where
  "close_fd w = w\<lparr>open_fds := open_fds w - 1\<rparr>"

definition sb_stream_destroy ::
  "('u, 'r) sb_Handler \<Rightarrow> sb_Stream \<Rightarrow> 'u \<Rightarrow> 'r world \<Rightarrow> ('u \<times> 'r world) option" where
  "sb_stream_destroy handler st u w = do {
     (_, st1, u1, w1) \<leftarrow> sb_stream_emit handler EV_CLOSE st u w;
     let w2 = close_fd w1;
     Some (u1, if send_fp st1 \<noteq> None then close_fd w2 else w2)
   }"

section \<open>Receiving\<close>

text \<open>\<open>sscanf(str, "%u", &n)\<close> is \<open>strtoul\<close>, whose result is cut to 32 bits.\<close>

definition scan_space :: "char \<Rightarrow> bool" where
  "scan_space c \<longleftrightarrow> c \<in> {CHR '' '', CHR 0x09, CHR 0x0A, CHR 0x0B, CHR 0x0C, CHR 0x0D}"

definition str_to_uint :: "string option \<Rightarrow> nat" where
  "str_to_uint str =
     (case str of None \<Rightarrow> 0 | Some s \<Rightarrow>
       (let t = dropWhile scan_space s;
            (neg, d) = (case t of [] \<Rightarrow> (False, t)
              | c # r \<Rightarrow> if c = CHR ''-'' then (True, r) else if c = CHR ''+'' then (False, r) else (False, t));
            n = int (read_nat (takeWhile is_digit d))
        in if takeWhile is_digit d = [] then 0
           else nat ((if n \<ge> 2 ^ 64 then 2 ^ 64 - 1 else if neg then - n else n) mod 2 ^ 32)))"

text \<open>\<open>sscanf(s, "%15s %n%*s %15s", method, &path_idx, ver)\<close>, when it assigns both strings.\<close>

definition scan_request :: "string \<Rightarrow> (string \<times> nat \<times> string) option" where
  "scan_request s =
     (let s1 = dropWhile scan_space s;
          m = take 15 (takeWhile (\<lambda>c. \<not> scan_space c) s1);
          s2 = dropWhile scan_space (drop (length m) s1);
          s3 = dropWhile scan_space (dropWhile (\<lambda>c. \<not> scan_space c) s2);
          ver = take 15 (takeWhile (\<lambda>c. \<not> scan_space c) s3)
      in if m = [] \<or> s2 = [] \<or> ver = [] then None else Some (m, length s - length s2, ver))"

definition PATH_SIZE :: nat where [hive_const]: "PATH_SIZE = 512"

definition handle_request ::
  "('u, 'r) sb_Handler \<Rightarrow> sb_Stream \<Rightarrow> 'u \<Rightarrow> 'r world \<Rightarrow> (int \<times> sb_Stream \<times> 'u \<times> 'r world) option" where
  "handle_request handler st u w = do {
     (err, b, w1) \<leftarrow> sb_buffer_null_terminate (recv_buf st) w;
     let st1 = st\<lparr>st_state := STATE_SENDING_STATUS, recv_buf := b\<rparr>;
     if err \<noteq> SB_ESUCCESS then Some (err, st1, u, w1)
     else do {
       s \<leftarrow> c_string_in (buf_s b);
       case scan_request s of
         None \<Rightarrow> Some (SB_ESUCCESS, sb_stream_close st1, u, w1)
       | Some (meth, path_idx, ver) \<Rightarrow>
           if \<not> mem_equal ver ''HTTP'' then Some (SB_ESUCCESS, sb_stream_close st1, u, w1)
           else do {
             (_, path) \<leftarrow> url_decode (drop path_idx s) PATH_SIZE;
             sb_stream_emit handler (EV_REQUEST meth (takeWhile (\<lambda>c. c \<noteq> NUL) path)) st1 u w1
           }
     }
   }"

text \<open>One byte of the loop in \<open>sb_stream_recv\<close>: \<open>Some err\<close> when the function returns.\<close>

definition recv_char ::
  "('u, 'r) sb_Handler \<Rightarrow> char \<Rightarrow> sb_Stream \<Rightarrow> 'u \<Rightarrow> 'r world \<Rightarrow> (int option \<times> sb_Stream \<times> 'u \<times> 'r world) option" where
  "recv_char handler c st u w = do {
     (err, b, w1) \<leftarrow> sb_buffer_push_char (recv_buf st) c w;
     let st1 = st\<lparr>recv_buf := b\<rparr>;
     let returned = (\<lambda>r. case r of (err, st', u', w') \<Rightarrow> Some (Some err, st', u', w'));
     let complete = (\<lambda>st w. if expected_recv_len st = buf_len (recv_buf st)
       then do { r \<leftarrow> handle_request handler st u w; returned r } else Some (None, st, u, w));
     if err \<noteq> SB_ESUCCESS then Some (Some err, st1, u, w1)
     else if st_state st1 = STATE_RECEIVING_HEADER \<and> 4 \<le> buf_len b
       \<and> mem_equal (drop (buf_len b - 4) (take (buf_len b) (buf_s b))) [CR, LF, CR, LF]
     then do {
       (err, b2, w2) \<leftarrow> sb_buffer_null_terminate b w1;
       let st2 = st1\<lparr>st_state := STATE_RECEIVING_REQUEST, recv_buf := b2\<rparr>;
       if err \<noteq> SB_ESUCCESS then Some (Some err, st2, u, w2)
       else do {
         str \<leftarrow> c_string_in (buf_s b2);
         v \<leftarrow> find_header_value str ''Content-Length'';
         case v of
           None \<Rightarrow> do { r \<leftarrow> handle_request handler st2 u w2; returned r }
         | Some s \<Rightarrow> complete (st2\<lparr>expected_recv_len := buf_len b2 + str_to_uint (Some s),
                              data_idx := buf_len b2\<rparr>) w2
       }
     }
     else complete st1 w1
   }"

fun recv_bytes ::
  "('u, 'r) sb_Handler \<Rightarrow> bytes \<Rightarrow> sb_Stream \<Rightarrow> 'u \<Rightarrow> 'r world \<Rightarrow> (int option \<times> sb_Stream \<times> 'u \<times> 'r world) option" where
  "recv_bytes handler [] st u w = Some (None, st, u, w)"
| "recv_bytes handler (c # cs) st u w =
     (case recv_char handler c st u w of
        None \<Rightarrow> None
      | Some (Some err, st', u', w') \<Rightarrow> Some (Some err, st', u', w')
      | Some (None, st', u', w') \<Rightarrow> recv_bytes handler cs st' u' w')"

text \<open>What \<open>recv\<close> returns: bytes, the end of the connection or an error, or nothing for now.\<close>

datatype recv_result = Received bytes | Disconnected | Would_block

text \<open>The loop over the results of \<open>recv\<close>; when there are no more, it would block.\<close>

fun sb_stream_recv ::
  "('u, 'r) sb_Handler \<Rightarrow> int \<Rightarrow> recv_result list \<Rightarrow> sb_Stream \<Rightarrow> 'u \<Rightarrow> 'r world
     \<Rightarrow> (int \<times> sb_Stream \<times> 'u \<times> 'r world) option" where
  "sb_stream_recv handler now [] st u w = Some (SB_ESUCCESS, st, u, w)"
| "sb_stream_recv handler now (Would_block # rs) st u w = Some (SB_ESUCCESS, st, u, w)"
| "sb_stream_recv handler now (Disconnected # rs) st u w = Some (SB_ESUCCESS, sb_stream_close st, u, w)"
| "sb_stream_recv handler now (Received cs # rs) st u w =
     (case recv_bytes handler cs (st\<lparr>last_activity := now\<rparr>) u w of
        None \<Rightarrow> None
      | Some (Some err, st', u', w') \<Rightarrow> Some (err, st', u', w')
      | Some (None, st', u', w') \<Rightarrow> sb_stream_recv handler now rs st' u' w')"

section \<open>Sending\<close>

text \<open>What a socket does with the bytes \<open>send\<close> offers: it takes as many as it has room for, or none
  for now, or the connection is broken.\<close>

datatype send_result = Room nat | Send_blocked | Send_failed

text \<open>The code from the label \<open>send_data\<close> on; the first component of the result are the bytes the
  socket took.\<close>

definition send_data :: "int \<Rightarrow> send_result \<Rightarrow> sb_Stream \<Rightarrow> (bytes \<times> sb_Stream) option" where
  "send_data now r st =
     (case r of
        Send_blocked \<Rightarrow> Some ([], st)
      | Send_failed \<Rightarrow> Some ([], sb_stream_close st)
      | Room n \<Rightarrow>
          (let sz = min n (buf_len (send_buf st)) in
           if sz = 0 then Some ([], sb_stream_close st)
           else do {
             b \<leftarrow> sb_buffer_shift (send_buf st) sz;
             Some (take sz (buf_s (send_buf st)), st\<lparr>send_buf := b, last_activity := now\<rparr>)
           }))"

text \<open>\<open>fread\<close> from the position on, at most \<open>n\<close> bytes; a failing read ends it.\<close>

definition c_fread :: "string list \<times> nat \<Rightarrow> nat \<Rightarrow> 'r world \<Rightarrow> bytes \<times> 'r world" where
  "c_fread fp n w = (case take_fault w of
     (Some (Fail e), w1) \<Rightarrow> ([], set_errno e w1)
   | (_, w1) \<Rightarrow> (case node_at w1 (fst fp) of
        Some (File d) \<Rightarrow> (take n (drop (snd fp) d), w1) | _ \<Rightarrow> ([], set_errno EISDIR w1)))"

definition sb_stream_send ::
  "int \<Rightarrow> send_result \<Rightarrow> sb_Stream \<Rightarrow> 'r world \<Rightarrow> (int \<times> bytes \<times> sb_Stream \<times> 'r world) option" where
  "sb_stream_send now r st w =
     (if 0 < buf_len (send_buf st) then do { (out, st') \<leftarrow> send_data now r st; Some (SB_ESUCCESS, out, st', w) }
      else (case send_fp st of
        None \<Rightarrow> Some (SB_ESUCCESS, [], sb_stream_close st, w)
      | Some fp \<Rightarrow>
          (let (err, b, w1) = sb_buffer_reserve (send_buf st) 8192 w in
           if err \<noteq> SB_ESUCCESS then Some (err, [], st\<lparr>send_buf := b\<rparr>, w1)
           else (let (d, w2) = c_fread fp (length (buf_s b)) w1;
                     b' = \<lparr>buf_s = d @ drop (length d) (buf_s b), buf_len = length d\<rparr>;
                     st' = st\<lparr>send_buf := b', send_fp := Some (fst fp, snd fp + length d)\<rparr>
                 in if d \<noteq> [] then do { (out, st'') \<leftarrow> send_data now r st'; Some (SB_ESUCCESS, out, st'', w2) }
                    else Some (SB_ESUCCESS, [], st'\<lparr>send_fp := None\<rparr>, close_fd w2)))))"

definition sb_send_status ::
  "sb_Stream \<Rightarrow> int \<Rightarrow> string \<Rightarrow> 'r world \<Rightarrow> (int \<times> sb_Stream \<times> 'r world) option" where
  "sb_send_status st code msg w =
     (if st_state st \<noteq> STATE_SENDING_STATUS then Some (SB_EBADSTATE, st, w)
      else do {
        (err, b, w1) \<leftarrow> sb_buffer_vwritef (send_buf st) (''HTTP/1.1 %d %s'' @ [CR, LF]) [Int_arg code, Str_arg (Some msg)] w;
        Some (if err \<noteq> SB_ESUCCESS then (err, st\<lparr>send_buf := b\<rparr>, w1)
              else (SB_ESUCCESS, st\<lparr>send_buf := b, st_state := STATE_SENDING_HEADER\<rparr>, w1))
      })"

text \<open>\<open>if (st->state < STATE_SENDING_HEADER) sb_send_status(st, 200, "OK")\<close>.\<close>

definition need_status :: "sb_Stream \<Rightarrow> 'r world \<Rightarrow> (int \<times> sb_Stream \<times> 'r world) option" where
  "need_status st w =
     (if st_state st < STATE_SENDING_HEADER then sb_send_status st 200 ''OK'' w else Some (SB_ESUCCESS, st, w))"

definition sb_stream_finalize_header :: "sb_Stream \<Rightarrow> 'r world \<Rightarrow> (int \<times> sb_Stream \<times> 'r world) option" where
  "sb_stream_finalize_header st w = do {
     (err, st1, w1) \<leftarrow> need_status st w;
     if err \<noteq> SB_ESUCCESS then Some (err, st1, w1)
     else do {
       (err, b, w2) \<leftarrow> sb_buffer_push_str (send_buf st1) [CR, LF] w1;
       Some (if err \<noteq> SB_ESUCCESS then (err, st1\<lparr>send_buf := b\<rparr>, w2)
             else (SB_ESUCCESS, st1\<lparr>send_buf := b, st_state := STATE_SENDING_DATA\<rparr>, w2))
     }
   }"

definition sb_send_header ::
  "sb_Stream \<Rightarrow> string \<Rightarrow> string \<Rightarrow> 'r world \<Rightarrow> (int \<times> sb_Stream \<times> 'r world) option" where
  "sb_send_header st field val w =
     (if STATE_SENDING_HEADER < st_state st then Some (SB_EBADSTATE, st, w)
      else do {
        (err, st1, w1) \<leftarrow> need_status st w;
        if err \<noteq> SB_ESUCCESS then Some (err, st1, w1)
        else do {
          (err, b, w2) \<leftarrow> sb_buffer_vwritef (send_buf st1) (''%s: %s'' @ [CR, LF]) [Str_arg (Some field), Str_arg (Some val)] w1;
          Some (err, st1\<lparr>send_buf := b\<rparr>, w2)
        }
      })"

text \<open>The size of the file is \<open>ftell\<close> at its end, printed as an \<open>unsigned\<close>; a file whose size cannot
  be told counts as \<open>-1\<close>.\<close>

definition sb_send_file :: "sb_Stream \<Rightarrow> string \<Rightarrow> 'r world \<Rightarrow> (int \<times> sb_Stream \<times> 'r world) option" where
  "sb_send_file st filename w =
     (if STATE_SENDING_HEADER < st_state st then Some (SB_EBADSTATE, st, w)
      else (case c_open filename RDONLY w of
        (None, w1) \<Rightarrow> Some (SB_ECANTOPEN, st, w1)
      | (Some fp, w1) \<Rightarrow> (case c_lseek_end fp w1 of (sz, w2) \<Rightarrow> do {
          (err, st1, w3) \<leftarrow> sb_send_header st ''Content-Length'' (show_nat (nat (sz mod 2 ^ 32))) w2;
          if err \<noteq> SB_ESUCCESS then Some (err, st1, c_close fp w3)
          else do {
            (err, st2, w4) \<leftarrow> sb_stream_finalize_header st1 w3;
            Some (if err \<noteq> SB_ESUCCESS then (err, st2, c_close fp w4)
                  else (SB_ESUCCESS, st2\<lparr>send_fp := Some (fp, 0), st_state := STATE_SENDING_FILE\<rparr>, w4))
          }
        })))"

text \<open>The beginning of \<open>sb_write\<close> and \<open>sb_vwritef\<close>: finish the header, then check the state.\<close>

definition ready_for_data :: "sb_Stream \<Rightarrow> 'r world \<Rightarrow> (int \<times> sb_Stream \<times> 'r world) option" where
  "ready_for_data st w = do {
     (err, st1, w1) \<leftarrow> (if st_state st < STATE_SENDING_DATA then sb_stream_finalize_header st w
                         else Some (SB_ESUCCESS, st, w));
     Some (if err \<noteq> SB_ESUCCESS then (err, st1, w1)
           else if st_state st1 \<noteq> STATE_SENDING_DATA then (SB_EBADSTATE, st1, w1)
           else (SB_ESUCCESS, st1, w1))
   }"

definition sb_write :: "sb_Stream \<Rightarrow> bytes \<Rightarrow> 'r world \<Rightarrow> (int \<times> sb_Stream \<times> 'r world) option" where
  "sb_write st data w = do {
     (err, st1, w1) \<leftarrow> ready_for_data st w;
     if err \<noteq> SB_ESUCCESS then Some (err, st1, w1)
     else do {
       (err, b, w2) \<leftarrow> sb_buffer_push_str (send_buf st1) data w1;
       Some (err, st1\<lparr>send_buf := b\<rparr>, w2)
     }
   }"

definition sb_vwritef :: "sb_Stream \<Rightarrow> string \<Rightarrow> fmt_arg list \<Rightarrow> 'r world \<Rightarrow> (int \<times> sb_Stream \<times> 'r world) option" where
  "sb_vwritef st fmt args w = do {
     (err, st1, w1) \<leftarrow> ready_for_data st w;
     if err \<noteq> SB_ESUCCESS then Some (err, st1, w1)
     else do {
       (err, b, w2) \<leftarrow> sb_buffer_vwritef (send_buf st1) fmt args w1;
       Some (err, st1\<lparr>send_buf := b\<rparr>, w2)
     }
   }"

text \<open>The variants that take their arguments one by one.\<close>

abbreviation sb_buffer_writef :: "sb_Buffer \<Rightarrow> string \<Rightarrow> fmt_arg list \<Rightarrow> 'r world \<Rightarrow> (int \<times> sb_Buffer \<times> 'r world) option" where
  "sb_buffer_writef \<equiv> sb_buffer_vwritef"

abbreviation sb_writef :: "sb_Stream \<Rightarrow> string \<Rightarrow> fmt_arg list \<Rightarrow> 'r world \<Rightarrow> (int \<times> sb_Stream \<times> 'r world) option" where
  "sb_writef \<equiv> sb_vwritef"

section \<open>Buffers that can be extended\<close>

abbreviation buf_data :: "sb_Buffer \<Rightarrow> bytes" where
  "buf_data b \<equiv> take (buf_len b) (buf_s b)"

definition buf_ok :: "sb_Buffer \<Rightarrow> bool" where
  "buf_ok b \<longleftrightarrow> buf_len b \<le> length (buf_s b)"

lemma length_buf_data: "buf_ok b \<Longrightarrow> length (buf_data b) = buf_len b"
  by (simp add: buf_ok_def)

text \<open>An operation on a buffer that gave \<open>r\<close> either succeeded and left \<open>new\<close> in it, or failed for
  want of memory and left \<open>old\<close>; it changed nothing else.\<close>

definition leaves :: "bytes \<Rightarrow> bytes \<Rightarrow> 'r world \<Rightarrow> int \<times> sb_Buffer \<times> 'r world \<Rightarrow> bool" where
  "leaves new old w r \<longleftrightarrow> (case r of (err, b', w') \<Rightarrow>
     buf_ok b' \<and> same_net w w' \<and> open_fds w' = open_fds w \<and> files w' = files w
     \<and> (faults w = [] \<longrightarrow> err = SB_ESUCCESS \<and> faults w' = [])
     \<and> (err = SB_ESUCCESS \<and> buf_data b' = new \<or> err = SB_EOUTOFMEM \<and> buf_data b' = old))"

lemma leaves_here: "buf_ok b \<Longrightarrow> leaves (buf_data b) old w (SB_ESUCCESS, b, w)"
  by (simp add: leaves_def)

text \<open>After a first operation that succeeded, a second one takes over.\<close>

lemma leaves_then:
  "leaves new old w (SB_ESUCCESS, b, w1) \<Longrightarrow> leaves new' old' w1 r \<Longrightarrow> leaves new' old' w r"
  by (auto simp: leaves_def split: prod.splits intro: same_net_trans)

lemma reserve_spec:
  assumes "buf_ok b" "sb_buffer_reserve b n w = (err, b', w')"
  shows "leaves (buf_data b) (buf_data b) w (err, b', w') \<and> buf_len b' = buf_len b
    \<and> (err = SB_ESUCCESS \<longrightarrow> n \<le> length (buf_s b'))"
  using assms
  by (auto simp: sb_buffer_reserve_def leaves_def buf_ok_def c_alloc_def take_fault_def same_net_def resize_block_props
      hive_const Let_def split: if_splits list.splits option.splits prod.splits)

lemma store_at_end:
  "n < length blk \<Longrightarrow> store_at n [c] blk = Some (take n blk @ c # drop (Suc n) blk)"
  by (simp add: store_at_def)

lemma push_char_spec:
  assumes "buf_ok b"
  shows "\<exists>r. sb_buffer_push_char b c w = Some r \<and> leaves (buf_data b @ [c]) (buf_data b) w r"
proof (cases "buf_len b = length (buf_s b)")
  case full: True
  define n where "n = (if length (buf_s b) = 0 then 1 else 2 * length (buf_s b))"
  have n: "buf_len b < n" by (simp add: n_def full)
  obtain err b' w' where r: "sb_buffer_reserve b n w = (err, b', w')" by (cases "sb_buffer_reserve b n w")
  have s: "sb_buffer_push_char b c w = (if err \<noteq> SB_ESUCCESS then Some (err, b', w') else do {
      s \<leftarrow> store_at (buf_len b') [c] (buf_s b'); Some (SB_ESUCCESS, \<lparr>buf_s = s, buf_len = buf_len b' + 1\<rparr>, w')})"
    using full r by (simp add: sb_buffer_push_char_def n_def)
  have e: "leaves (buf_data b) (buf_data b) w (err, b', w')" "buf_len b' = buf_len b"
    "err = SB_ESUCCESS \<Longrightarrow> n \<le> length (buf_s b')"
    using reserve_spec [OF assms r] by auto
  show ?thesis
  proof (cases "err = SB_ESUCCESS")
    case True
    then have "buf_len b' < length (buf_s b')" using e(2,3) n by simp
    then show ?thesis
      using e(1,2) True s full by (auto simp: store_at_end leaves_def buf_ok_def hive_const)
  next
    case False
    then show ?thesis using e(1) s by (auto simp: leaves_def hive_const)
  qed
next
  case False
  with assms have "buf_len b < length (buf_s b)" by (simp add: buf_ok_def)
  then show ?thesis
    using False by (simp add: sb_buffer_push_char_def store_at_end leaves_def buf_ok_def)
qed

lemma rollback:
  assumes "leaves new old w (err, b, w')" "prefix start old" "err \<noteq> SB_ESUCCESS"
  shows "leaves new' start w (err, b\<lparr>buf_len := length start\<rparr>, w')"
proof -
  obtain tl where "buf_data b = start @ tl" and ok: "buf_ok b"
    using assms by (auto simp: leaves_def prefix_def)
  moreover from this have "length start \<le> buf_len b"
    by (metis buf_ok_def length_append length_take le_add1 min.absorb2)
  ultimately have "take (length start) (buf_s b) = start"
    by (metis append_eq_conv_conj min.absorb1 take_take)
  then show ?thesis
    using assms ok \<open>length start \<le> buf_len b\<close> by (auto simp: leaves_def buf_ok_def)
qed

lemma push_chars_spec:
  "buf_ok b \<Longrightarrow> prefix start (buf_data b) \<Longrightarrow>
     \<exists>r. push_chars (length start) b p w = Some r \<and> leaves (buf_data b @ p) start w r"
proof (induction p arbitrary: b w)
  case Nil
  then show ?case using leaves_here by simp
next
  case (Cons c p)
  obtain err b1 w1 where s: "sb_buffer_push_char b c w = Some (err, b1, w1)"
    and l: "leaves (buf_data b @ [c]) (buf_data b) w (err, b1, w1)"
    using push_char_spec [OF Cons.prems(1), of c w] by (metis prod_cases3)
  show ?case
  proof (cases "err = SB_ESUCCESS")
    case True
    with l have b1: "buf_ok b1" "buf_data b1 = buf_data b @ [c]" by (auto simp: leaves_def hive_const)
    with Cons.prems(2) obtain r where "push_chars (length start) b1 p w1 = Some r"
      "leaves (buf_data b1 @ p) start w1 r"
      using Cons.IH [of b1 w1] by (auto simp: prefix_def)
    then show ?thesis using s l True b1 leaves_then by fastforce
  next
    case False
    then show ?thesis using s rollback [OF l Cons.prems(2)] by simp
  qed
qed

lemma push_str_spec:
  assumes "buf_ok b"
  shows "\<exists>r. sb_buffer_push_str b p w = Some r \<and> leaves (buf_data b @ p) (buf_data b) w r"
proof -
  have "length (buf_data b) = buf_len b" using assms by (simp add: buf_ok_def)
  then show ?thesis
    using push_chars_spec [OF assms, of "buf_data b" p w] by (simp add: sb_buffer_push_str_def)
qed

text \<open>The text a format expands to.\<close>

fun expand :: "string \<Rightarrow> fmt_arg list \<Rightarrow> string option" where
  "expand [] args = Some []"
| "expand (c # fmt) args =
     (if c = CHR ''%'' then
        (case fmt of
           [] \<Rightarrow> None
         | d # fmt' \<Rightarrow>
             (case fmt_expand d args of
                None \<Rightarrow> None | Some (s, rest) \<Rightarrow> map_option ((@) s) (expand fmt' rest)))
      else map_option ((#) c) (expand fmt args))"

lemma vwritef_loop_spec:
  "buf_ok b \<Longrightarrow> prefix start (buf_data b) \<Longrightarrow> expand fmt args = Some s \<Longrightarrow>
     \<exists>r. vwritef_loop (length start) b fmt args w = Some r \<and> leaves (buf_data b @ s) start w r"
proof (induction fmt args arbitrary: b w s rule: expand.induct)
  case (1 args)
  then show ?case using leaves_here by simp
next
  case (2 c fmt args)
  show ?case
  proof (cases "c = CHR ''%''")
    case True
    obtain d fmt' t rest s' where d: "fmt = d # fmt'" "fmt_expand d args = Some (t, rest)"
      "expand fmt' rest = Some s'" "s = t @ s'"
      using 2(5) True by (auto split: list.splits option.splits)
    obtain err b1 w1 where p: "sb_buffer_push_str b t w = Some (err, b1, w1)"
      and l: "leaves (buf_data b @ t) (buf_data b) w (err, b1, w1)"
      using push_str_spec [OF 2(3), of t w] by (metis prod_cases3)
    show ?thesis
    proof (cases "err = SB_ESUCCESS")
      case ok: True
      with l have b1: "buf_ok b1" "buf_data b1 = buf_data b @ t" by (auto simp: leaves_def hive_const)
      with 2(4) have "prefix start (buf_data b1)" by (auto simp: prefix_def)
      from 2(1) [OF True d(1) d(2) refl b1(1) this d(3), of w1] obtain r where
        "vwritef_loop (length start) b1 fmt' rest w1 = Some r" "leaves (buf_data b1 @ s') start w1 r"
        by blast
      then show ?thesis using p l ok True b1 d leaves_then by fastforce
    next
      case False
      then show ?thesis using p True d rollback [OF l 2(4)] by simp
    qed
  next
    case False
    obtain s' where d: "expand fmt args = Some s'" "s = c # s'" using 2(5) False by auto
    obtain err b1 w1 where p: "sb_buffer_push_char b c w = Some (err, b1, w1)"
      and l: "leaves (buf_data b @ [c]) (buf_data b) w (err, b1, w1)"
      using push_char_spec [OF 2(3), of c w] by (metis prod_cases3)
    show ?thesis
    proof (cases "err = SB_ESUCCESS")
      case ok: True
      with l have b1: "buf_ok b1" "buf_data b1 = buf_data b @ [c]" by (auto simp: leaves_def hive_const)
      with 2(4) have "prefix start (buf_data b1)" by (auto simp: prefix_def)
      from 2(2) [OF False b1(1) this d(1), of w1] obtain r where
        "vwritef_loop (length start) b1 fmt args w1 = Some r" "leaves (buf_data b1 @ s') start w1 r"
        by blast
      then show ?thesis using p l ok False b1 d leaves_then by fastforce
    next
      case notok: False
      then show ?thesis using p False rollback [OF l 2(4)] by simp
    qed
  qed
qed

lemma vwritef_spec:
  assumes "buf_ok b" "expand fmt args = Some s"
  shows "\<exists>r. sb_buffer_vwritef b fmt args w = Some r \<and> leaves (buf_data b @ s) (buf_data b) w r"
proof -
  have "length (buf_data b) = buf_len b" using assms(1) by (simp add: buf_ok_def)
  then show ?thesis
    using vwritef_loop_spec [OF assms(1) _ assms(2), of "buf_data b" w] by (simp add: sb_buffer_vwritef_def)
qed

section \<open>What the operations on a stream keep\<close>

definition stream_ok :: "sb_Stream \<Rightarrow> bool" where
  "stream_ok st \<longleftrightarrow> buf_ok (recv_buf st) \<and> buf_ok (send_buf st)"

text \<open>The descriptors a stream owns.\<close>

definition fds_of :: "sb_Stream \<Rightarrow> int" where
  "fds_of st = (if send_fp st = None then 1 else 2)"

text \<open>The stream stays well-formed on its socket, and descriptors are opened and closed with it.\<close>

definition kept :: "sb_Stream \<Rightarrow> 'r world \<Rightarrow> sb_Stream \<Rightarrow> 'r world \<Rightarrow> bool" where
  "kept st w st' w' \<longleftrightarrow> stream_ok st' \<and> st_sockfd st' = st_sockfd st \<and> live_http w' = live_http w
     \<and> open_fds w' - fds_of st' = open_fds w - fds_of st"

lemma kept_refl: "stream_ok st \<Longrightarrow> kept st w st w"
  by (simp add: kept_def)

lemma kept_trans: "kept a w b v \<Longrightarrow> kept b v c u \<Longrightarrow> kept a w c u"
  by (simp add: kept_def)

lemma kept_ok: "kept st w st' w' \<Longrightarrow> stream_ok st'"
  by (simp add: kept_def)

lemma kept_fields:
  "kept st w (st'\<lparr>st_state := a\<rparr>) w' = kept st w st' w'"
  "kept st w (st'\<lparr>last_activity := t\<rparr>) w' = kept st w st' w'"
  "kept st w (st'\<lparr>expected_recv_len := n\<rparr>) w' = kept st w st' w'"
  "kept st w (st'\<lparr>data_idx := n\<rparr>) w' = kept st w st' w'"
  by (simp_all add: kept_def stream_ok_def fds_of_def)

lemma kept_recv:
  "kept st w st' w' \<Longrightarrow> leaves new old w' (err, b, w'') \<Longrightarrow> kept st w (st'\<lparr>recv_buf := b\<rparr>) w''"
  by (auto simp: kept_def stream_ok_def fds_of_def leaves_def same_net_def)

lemma kept_send:
  "kept st w st' w' \<Longrightarrow> leaves new old w' (err, b, w'') \<Longrightarrow> kept st w (st'\<lparr>send_buf := b\<rparr>) w''"
  by (auto simp: kept_def stream_ok_def fds_of_def leaves_def same_net_def)

lemma kept_close [simp]: "kept st w (sb_stream_close st') w' = kept st w st' w'"
  by (simp add: sb_stream_close_def kept_fields)

text \<open>An operation of the API that answers on a stream.\<close>

lemma push_post:
  assumes "buf_ok b"
  shows "post (sb_buffer_push_char b c w) (leaves (buf_data b @ [c]) (buf_data b) w)"
    and "post (sb_buffer_push_str b p w) (leaves (buf_data b @ p) (buf_data b) w)"
    and "expand fmt args = Some s \<Longrightarrow> post (sb_buffer_vwritef b fmt args w) (leaves (buf_data b @ s) (buf_data b) w)"
  using push_char_spec [OF assms, of c w] push_str_spec [OF assms, of p w] vwritef_spec [OF assms, of fmt args s w]
  by (auto simp: post_def)

lemma status_text:
  "expand (''HTTP/1.1 %d %s'' @ [CR, LF]) [Int_arg code, Str_arg (Some msg)]
     = Some (''HTTP/1.1 '' @ show_int code @ '' '' @ msg @ [CR, LF])"
  by (simp add: fmt_expand_def)

lemma header_format:
  "expand (''%s: %s'' @ [CR, LF]) [Str_arg (Some field), Str_arg (Some val)] = Some (field @ '': '' @ val @ [CR, LF])"
  by (simp add: fmt_expand_def)

lemma status_kept:
  assumes "stream_ok st"
  shows "post (sb_send_status st code msg w) (\<lambda>(err, st', w'). kept st w st' w')"
proof -
  have "buf_ok (send_buf st)" using assms by (simp add: stream_ok_def)
  note p = push_post(3) [OF this status_text]
  show ?thesis
    unfolding sb_send_status_def
    by (intro hive_post | rule post_call [OF p] | ((use kept_refl [OF assms] in \<open>auto simp: kept_fields intro: kept_send\<close>)[1]; fail))+
qed

lemma need_status_kept:
  assumes "stream_ok st"
  shows "post (need_status st w) (\<lambda>(err, st', w'). kept st w st' w')"
  unfolding need_status_def
  by (intro hive_post | rule status_kept [OF assms] | ((use kept_refl [OF assms] in \<open>auto\<close>)[1]; fail))+

lemma kept_send_ok: "kept st w st' w' \<Longrightarrow> buf_ok (send_buf st')"
  by (simp add: kept_def stream_ok_def)

lemma finalize_kept:
  assumes "stream_ok st"
  shows "post (sb_stream_finalize_header st w) (\<lambda>(err, st', w'). kept st w st' w')"
  unfolding sb_stream_finalize_header_def
  by (intro hive_post | rule post_call [OF need_status_kept [OF assms]] | (rule post_call, rule push_post(2), force dest: kept_send_ok)
      | ((auto simp: kept_fields intro: kept_send)[1]; fail))+

lemma header_kept:
  assumes "stream_ok st"
  shows "post (sb_send_header st field val w) (\<lambda>(err, st', w'). kept st w st' w')"
  unfolding sb_send_header_def
  by (intro hive_post | rule post_call [OF need_status_kept [OF assms]]
      | (rule post_call, rule push_post(3) [OF _ header_format], force dest: kept_send_ok)
      | ((use kept_refl [OF assms] in \<open>auto simp: kept_fields intro: kept_send\<close>)[1]; fail))+

lemma ready_for_data_kept:
  assumes "stream_ok st"
  shows "post (ready_for_data st w) (\<lambda>(err, st', w'). kept st w st' w')"
  unfolding ready_for_data_def
  by (intro hive_post | rule post_call [OF finalize_kept [OF assms]]
      | ((use kept_refl [OF assms] in \<open>auto\<close>)[1]; fail))+

lemma write_kept:
  assumes "stream_ok st"
  shows "post (sb_write st data w) (\<lambda>(err, st', w'). kept st w st' w')"
    and "expand fmt args = Some s \<Longrightarrow> post (sb_vwritef st fmt args w) (\<lambda>(err, st', w'). kept st w st' w')"
  unfolding sb_write_def sb_vwritef_def
  by (intro hive_post | rule post_call [OF ready_for_data_kept [OF assms]]
      | (rule post_call, rule push_post(2), force dest: kept_send_ok)
      | (rule post_call, rule push_post(3), force dest: kept_send_ok, assumption)
      | ((use kept_refl [OF assms] in \<open>auto simp: kept_fields intro: kept_send\<close>)[1]; fail))+

text \<open>A file is only sent on a stream that sends none yet.\<close>

lemma fp_kept:
  "post (sb_send_status st code msg w) (\<lambda>(err, st', w'). send_fp st' = send_fp st)"
  "post (need_status st w) (\<lambda>(err, st', w'). send_fp st' = send_fp st)"
  "post (sb_stream_finalize_header st w) (\<lambda>(err, st', w'). send_fp st' = send_fp st)"
  "post (sb_send_header st field val w) (\<lambda>(err, st', w'). send_fp st' = send_fp st)"
  by (auto simp: post_def sb_send_status_def need_status_def sb_stream_finalize_header_def sb_send_header_def
      bind_eq_Some_iff split: if_splits)

lemma send_file_kept:
  assumes "stream_ok st" "send_fp st = None"
  shows "post (sb_send_file st filename w) (\<lambda>(err, st', w'). kept st w st' w')"
  unfolding sb_send_file_def
  by (intro hive_post | (rule post_call, rule post_conj [OF header_kept [OF assms(1)] fp_kept(4)])
      | (rule post_call, rule post_conj [OF finalize_kept fp_kept(3)], force dest: kept_ok)
      | ((use assms kept_refl [OF assms(1)] in \<open>auto simp: kept_def stream_ok_def fds_of_def open_live fs_live\<close>)[1]; fail))+

lemma kept_new_state:
  "stream_ok st \<Longrightarrow> leaves new old w (err, b, w') \<Longrightarrow> kept st w (st\<lparr>st_state := a, recv_buf := b\<rparr>) w'"
  using kept_recv [of st w "st\<lparr>st_state := a\<rparr>" w] by (simp add: kept_fields kept_refl)

text \<open>Behind the contents of a terminated buffer stands a NUL.\<close>

lemma null_terminate_spec:
  assumes "buf_ok b"
  shows "\<exists>err b' w'. sb_buffer_null_terminate b w = Some (err, b', w') \<and> leaves (buf_data b) (buf_data b) w (err, b', w')
    \<and> (err = SB_ESUCCESS \<longrightarrow> buf_len b' = buf_len b \<and> (\<exists>rest. buf_s b' = buf_data b @ NUL # rest))"
proof -
  obtain err b1 w1 where p: "sb_buffer_push_char b NUL w = Some (err, b1, w1)"
    and l: "leaves (buf_data b @ [NUL]) (buf_data b) w (err, b1, w1)"
    using push_char_spec [OF assms, of NUL w] by (metis prod_cases3)
  show ?thesis
  proof (cases "err = SB_ESUCCESS")
    case True
    with l have d: "buf_data b1 = buf_data b @ [NUL]" and ok: "buf_ok b1" by (auto simp: leaves_def hive_const)
    have n: "buf_len b1 = buf_len b + 1"
      using arg_cong [OF d, of length] unfolding length_append length_buf_data [OF ok] length_buf_data [OF assms] by simp
    have "buf_s b1 = buf_data b @ NUL # drop (buf_len b1) (buf_s b1)"
      using d by (metis append.assoc append_Cons append_Nil append_take_drop_id)
    moreover from this have "take (buf_len b) (buf_s b1) = buf_data b"
      using assms by (metis append_eq_conv_conj buf_ok_def length_take min.absorb2)
    ultimately show ?thesis
      using p True l n by (auto simp: sb_buffer_null_terminate_def leaves_def buf_ok_def hive_const)
  next
    case False
    then show ?thesis using p l by (auto simp: sb_buffer_null_terminate_def leaves_def hive_const)
  qed
qed

lemma null_terminate_post:
  "buf_ok b \<Longrightarrow> post (sb_buffer_null_terminate b w) (leaves (buf_data b) (buf_data b) w)"
  using null_terminate_spec [of b w] by (auto simp: post_def)

text \<open>The contract of an event handler: it answers with the functions above, or does nothing.\<close>

locale sb_handler =
  fixes handler :: "('u, 'r) sb_Handler"
  assumes handler: "stream_ok st \<Longrightarrow> post (handler e st u w) (\<lambda>(res, st', u', w'). kept st w st' w')"
begin

lemma emit:
  assumes "stream_ok st"
  shows "post (sb_stream_emit handler e st u w) (\<lambda>(res, st', u', w'). kept st w st' w')"
  unfolding sb_stream_emit_def
  by (intro hive_post | rule post_call [OF handler [OF assms]] | ((auto)[1]; fail))+

lemma destroy:
  assumes "stream_ok st"
  shows "post (sb_stream_destroy handler st u w)
    (\<lambda>(u', w'). live_http w' = live_http w \<and> open_fds w' = open_fds w - fds_of st)"
  unfolding sb_stream_destroy_def
  by (intro hive_post | rule post_call [OF emit [OF assms]]
      | ((auto simp: kept_def fds_of_def close_fd_def split: if_splits)[1]; fail))+

lemma request:
  assumes "stream_ok st"
  shows "post (handle_request handler st u w) (\<lambda>(res, st', u', w'). kept st w st' w')"
proof -
  have "buf_ok (recv_buf st)" using assms by (simp add: stream_ok_def)
  note t = null_terminate_post [OF this]
  have e: "post (sb_stream_emit handler e st1 u1 w1) (\<lambda>(res, st', u', w'). kept st w st' w')"
    if "kept st w st1 w1" for e st1 u1 w1
    by (rule post_call [OF emit [OF kept_ok [OF that]]]) (auto intro: kept_trans [OF that])
  show ?thesis
    unfolding handle_request_def
    by (intro hive_post | rule post_call [OF t] | rule e | (rule postI, intro hive_post)
        | ((use kept_new_state [OF assms] in \<open>fastforce\<close>)[1]; fail))+
qed

lemma char:
  assumes "stream_ok st"
  shows "post (recv_char handler c st u w) (\<lambda>(err, st', u', w'). kept st w st' w')"
proof -
  have "buf_ok (recv_buf st)" using assms by (simp add: stream_ok_def)
  note p = push_post(1) [OF this]
  have h: "post (handle_request handler st1 u1 w1) (\<lambda>(res, st', u', w'). kept st w st' w')"
    if "kept st w st1 w1" for st1 u1 w1
    by (rule post_call [OF request [OF kept_ok [OF that]]]) (auto intro: kept_trans [OF that])
  have k: "kept st w (st\<lparr>recv_buf := b\<rparr>) w1" if "leaves new old w (err, b, w1)" for new old err b w1
    using kept_recv [OF kept_refl [OF assms] that] .
  have k2: "kept st w (st\<lparr>st_state := a, recv_buf := b2\<rparr>) w2"
    if "leaves new old w (err, b, w1)" "leaves new' old' w1 (err', b2, w2)" for new old err b w1 new' old' err' b2 w2 a
    using kept_recv [of st w "st\<lparr>st_state := a, recv_buf := b\<rparr>" w1] k [OF that(1)] that(2)
    by (simp add: kept_new_state [OF assms that(1)])
  show ?thesis
    unfolding recv_char_def
    by (intro hive_post | rule post_call [OF p] | (rule post_call, rule null_terminate_post, force simp: leaves_def)
        | (rule post_call, rule h, (force simp: kept_fields dest: k k2)) | (rule postI, intro hive_post)
        | ((force simp: kept_fields dest: k k2)[1]; fail))+
qed

lemma bytes:
  "stream_ok st \<Longrightarrow> post (recv_bytes handler cs st u w) (\<lambda>(err, st', u', w'). kept st w st' w')"
proof (induction cs arbitrary: st u w)
  case Nil
  then show ?case by (simp add: post_def kept_refl)
next
  case (Cons c cs)
  show ?case
  proof (rule postI)
    fix y
    assume y: "recv_bytes handler (c # cs) st u w = Some y"
    then obtain r st1 u1 w1 where r: "recv_char handler c st u w = Some (r, st1, u1, w1)"
      by (auto split: option.splits prod.splits)
    from postD [OF char [OF Cons.prems] r] have k: "kept st w st1 w1" by simp
    with Cons.IH [OF kept_ok [OF k], of u1 w1] y r show "case y of (err, st', u', w') \<Rightarrow> kept st w st' w'"
      by (cases r) (auto simp: post_def intro: kept_trans [OF k])
  qed
qed

lemma recv:
  "stream_ok st \<Longrightarrow> post (sb_stream_recv handler now rs st u w) (\<lambda>(err, st', u', w'). kept st w st' w')"
proof (induction rs arbitrary: st u w)
  case Nil
  then show ?case by (simp add: post_def kept_refl)
next
  case (Cons r rs)
  show ?case
  proof (cases r)
    case (Received cs)
    show ?thesis
    proof (rule postI)
      fix y
      assume y: "sb_stream_recv handler now (r # rs) st u w = Some y"
      then obtain e st1 u1 w1 where b: "recv_bytes handler cs (st\<lparr>last_activity := now\<rparr>) u w = Some (e, st1, u1, w1)"
        using Received by (auto split: option.splits prod.splits)
      have "stream_ok (st\<lparr>last_activity := now\<rparr>)" using Cons.prems by (simp add: stream_ok_def)
      from postD [OF bytes [OF this] b] have k: "kept st w st1 w1" by (simp add: kept_def fds_of_def)
      with Cons.IH [OF kept_ok [OF k], of u1 w1] y b Received show "case y of (err, st', u', w') \<Rightarrow> kept st w st' w'"
        by (cases e) (auto simp: post_def intro: kept_trans [OF k])
    qed
  qed (use Cons.prems in \<open>simp_all add: post_def kept_refl\<close>)
qed

end

section \<open>Sending the response\<close>

lemma shift_spec:
  assumes "buf_ok b" "n \<le> buf_len b"
  shows "\<exists>b'. sb_buffer_shift b n = Some b' \<and> buf_ok b' \<and> buf_data b' = drop n (buf_data b)"
  using assms by (auto simp: sb_buffer_shift_def buf_ok_def Let_def drop_take)

lemma send_data_spec:
  assumes "stream_ok st"
  shows "\<exists>out st'. send_data now r st = Some (out, st') \<and> kept st w st' w \<and> send_fp st' = send_fp st
    \<and> out @ buf_data (send_buf st') = buf_data (send_buf st)
    \<and> (r = Room n \<and> 0 < n \<and> 0 < buf_len (send_buf st) \<longrightarrow> out \<noteq> [] \<and> st_state st' = st_state st)"
proof (cases r)
  case (Room m)
  define k where "k = min m (buf_len (send_buf st))"
  have bo: "buf_ok (send_buf st)" using assms by (simp add: stream_ok_def)
  obtain b where b: "sb_buffer_shift (send_buf st) k = Some b" "buf_ok b" "buf_data b = drop k (buf_data (send_buf st))"
    using shift_spec [OF bo, of k] by (auto simp: k_def)
  have "take k (buf_s (send_buf st)) = take k (buf_data (send_buf st))" by (simp add: k_def min.commute)
  then have "take k (buf_s (send_buf st)) @ buf_data b = buf_data (send_buf st)"
    unfolding b(3) by (simp only: append_take_drop_id)
  with b assms bo show ?thesis
    by (auto simp: send_data_def Room Let_def k_def [symmetric] kept_def stream_ok_def fds_of_def sb_stream_close_def buf_ok_def)
      (auto simp: k_def)
qed (use kept_refl [OF assms] in \<open>simp_all add: send_data_def sb_stream_close_def kept_fields\<close>)

lemma send_data_kept: "stream_ok st \<Longrightarrow> post (send_data now r st) (\<lambda>(out, st'). kept st w st' w)"
  using send_data_spec [of st now r w] by (auto simp: post_def)

lemma c_fread_frame:
  "c_fread fp n w = (d, w') \<Longrightarrow> live_http w' = live_http w \<and> open_fds w' = open_fds w \<and> files w' = files w
     \<and> length d \<le> n \<and> hive_error w' = hive_error w"
  by (auto simp: c_fread_def take_fault_def set_errno_def split: list.splits option.splits fault.splits fnode.splits)

lemma send_kept:
  assumes "stream_ok st"
  shows "post (sb_stream_send now r st w) (\<lambda>(err, out, st', w'). kept st w st' w')"
proof (cases "0 < buf_len (send_buf st)")
  case True
  show ?thesis
    unfolding sb_stream_send_def if_P [OF True]
    by (intro hive_post | rule post_call [OF send_data_kept [OF assms, of _ _ w]] | ((auto)[1]; fail))+
next
  case False
  have bo: "buf_ok (send_buf st)" using assms by (simp add: stream_ok_def)
  show ?thesis
  proof (cases "send_fp st")
    case None
    then show ?thesis using False kept_refl [OF assms] by (simp add: sb_stream_send_def post_def)
  next
    case (Some fp)
    obtain err b w1 where r: "sb_buffer_reserve (send_buf st) 8192 w = (err, b, w1)" by (metis prod_cases3)
    obtain d w2 where f: "c_fread fp (length (buf_s b)) w1 = (d, w2)" by fastforce
    let ?st = "st\<lparr>send_buf := \<lparr>buf_s = d @ drop (length d) (buf_s b), buf_len = length d\<rparr>, send_fp := Some (fst fp, snd fp + length d)\<rparr>"
    have k1: "kept st w (st\<lparr>send_buf := b\<rparr>) w1"
      using reserve_spec [OF bo r] kept_send [OF kept_refl [OF assms]] by blast
    then have k2: "kept st w ?st w2"
      using c_fread_frame [OF f] Some by (auto simp: kept_def stream_ok_def fds_of_def buf_ok_def)
    have "kept st w (?st\<lparr>send_fp := None\<rparr>) (close_fd w2)"
      using k2 Some by (auto simp: kept_def stream_ok_def fds_of_def close_fd_def)
    moreover have "post (send_data now s ?st) (\<lambda>(out, st'). kept st w st' w2)" for s
      by (rule post_call [OF send_data_kept [OF kept_ok [OF k2], of _ _ w2]]) (auto intro: kept_trans [OF k2])
    ultimately show ?thesis
      using False Some k1 r f
      by (auto simp: sb_stream_send_def post_def bind_eq_Some_iff Let_def split: prod.splits if_splits)
  qed
qed

text \<open>What is still to be sent: the buffer, then the rest of the file.\<close>

definition pending :: "'r world \<Rightarrow> sb_Stream \<Rightarrow> bytes" where
  "pending w st = buf_data (send_buf st) @ (case send_fp st of None \<Rightarrow> []
     | Some (k, pos) \<Rightarrow> (case node_at w k of Some (File d) \<Rightarrow> drop pos d | _ \<Rightarrow> []))"

lemma pending_cong: "files w' = files w \<Longrightarrow> pending w' st = pending w st"
  by (simp add: pending_def node_at_def split: option.splits)

lemma c_fread_spec:
  assumes "c_fread (k, pos) n w = (d, w')" "faults w = []"
  shows "files w' = files w \<and> faults w' = [] \<and> d = (case node_at w k of Some (File c) \<Rightarrow> take n (drop pos c) | _ \<Rightarrow> [])"
  using assms by (auto simp: c_fread_def take_fault_def set_errno_def split: option.splits fnode.splits)

lemma take_then_drop: "take n (drop pos c) @ drop (pos + min (length c - pos) n) c = drop pos c"
  by (cases "length c - pos \<le> n") (simp_all add: min_def append_take_drop_id add.commute flip: drop_drop)

text \<open>One call: what the socket took and what is pending afterwards are what was pending before, and
  the stream closes only when nothing is.\<close>

lemma send_spec:
  assumes ok: "stream_ok st" and "faults w = []" and r: "r \<noteq> Send_failed" "\<And>n. r = Room n \<Longrightarrow> 0 < n"
  shows "\<exists>out st' w'. sb_stream_send now r st w = Some (SB_ESUCCESS, out, st', w') \<and> kept st w st' w'
    \<and> files w' = files w \<and> faults w' = [] \<and> out @ pending w' st' = pending w st
    \<and> (st_state st' = STATE_CLOSING \<longrightarrow> st_state st = STATE_CLOSING \<or> pending w st = [])
    \<and> (send_fp st = None \<longrightarrow> send_fp st' = None)
    \<and> (r \<noteq> Send_blocked \<longrightarrow> out \<noteq> [] \<or> send_fp st \<noteq> None \<and> send_fp st' = None \<or> st_state st' = STATE_CLOSING)"
proof -
  have stays: "st_state st' = st_state st1 \<and> (r \<noteq> Send_blocked \<longrightarrow> out \<noteq> [])"
    if "send_data now r st1 = Some (out, st')" "0 < buf_len (send_buf st1)" "stream_ok st1" for st1 out st'
    using send_data_spec [OF that(3), of now r w] that(1,2) r by (cases r) (auto simp: send_data_def)
  show ?thesis
  proof (cases "0 < buf_len (send_buf st)")
    case True
    obtain out st' where s: "send_data now r st = Some (out, st')" "kept st w st' w" "send_fp st' = send_fp st"
      "out @ buf_data (send_buf st') = buf_data (send_buf st)"
      using send_data_spec [OF ok, of now r w] by blast
    with stays [OF s(1) True ok] True assms(2) show ?thesis
      by (auto simp: sb_stream_send_def pending_def)
  next
    case False
    show ?thesis
    proof (cases "send_fp st")
      case None
      then show ?thesis
        using False assms(2) kept_refl [OF ok]
        by (auto simp: sb_stream_send_def pending_def sb_stream_close_def kept_fields)
    next
      case (Some fp)
      obtain k pos where fp: "fp = (k, pos)" by fastforce
      have bo: "buf_ok (send_buf st)" using ok by (simp add: stream_ok_def)
      obtain err b w1 where rs: "sb_buffer_reserve (send_buf st) 8192 w = (err, b, w1)" by (metis prod_cases3)
      have l: "leaves (buf_data (send_buf st)) (buf_data (send_buf st)) w (err, b, w1)" "err = SB_ESUCCESS \<longrightarrow> 8192 \<le> length (buf_s b)"
        using reserve_spec [OF bo rs] by auto
      then have w1: "err = SB_ESUCCESS" "faults w1 = []" "files w1 = files w" "8192 \<le> length (buf_s b)"
        using assms(2) by (auto simp: leaves_def)
      obtain d w2 where f: "c_fread (k, pos) (length (buf_s b)) w1 = (d, w2)" by fastforce
      note d = c_fread_spec [OF f w1(2)]
      let ?c = "case node_at w k of Some (File c) \<Rightarrow> drop pos c | _ \<Rightarrow> []"
      have dc: "d = take (length (buf_s b)) ?c" "node_at w1 k = node_at w k" "node_at w2 k = node_at w k"
        using d w1(3) by (auto simp: node_at_def split: option.splits fnode.splits)
      let ?st = "st\<lparr>send_buf := \<lparr>buf_s = d @ drop (length d) (buf_s b), buf_len = length d\<rparr>, send_fp := Some (k, pos + length d)\<rparr>"
      have k1: "kept st w (st\<lparr>send_buf := b\<rparr>) w1"
        using kept_send [OF kept_refl [OF ok] l(1)] .
      then have k2: "kept st w ?st w2"
        using c_fread_frame [OF f] Some by (auto simp: kept_def stream_ok_def fds_of_def buf_ok_def)
      have p: "pending w st = ?c" using False Some fp by (simp add: pending_def)
      show ?thesis
      proof (cases "d = []")
        case True
        then have "?c = []" using dc(1) w1(4) by auto
        moreover have "kept st w (?st\<lparr>send_fp := None\<rparr>) (close_fd w2)"
          using k2 Some by (auto simp: kept_def stream_ok_def fds_of_def close_fd_def)
        ultimately show ?thesis
          using True False Some fp rs w1 f d p
          by (auto simp: sb_stream_send_def Let_def pending_def close_fd_def)
      next
        case notnil: False
        obtain out st' where s: "send_data now r ?st = Some (out, st')" "kept ?st w2 st' w2" "send_fp st' = Some (k, pos + length d)"
          "out @ buf_data (send_buf st') = d"
          using send_data_spec [OF kept_ok [OF k2], of now r w2] by force
        have "?c = d @ (case node_at w k of Some (File c) \<Rightarrow> drop (pos + length d) c | _ \<Rightarrow> [])"
          using dc(1) by (auto split: option.splits fnode.splits simp: take_then_drop)
        then have "out @ pending w2 st' = pending w st"
          using s(3,4) p dc(3) by (auto simp: pending_def)
        moreover have "?c \<noteq> []" using notnil dc(1) by auto
        moreover have "sb_stream_send now r st w = Some (SB_ESUCCESS, out, st', w2)"
          using s(1) notnil False Some fp rs w1(1) f by (simp add: sb_stream_send_def Let_def)
        moreover have "st_state st' = st_state st" "r \<noteq> Send_blocked \<longrightarrow> out \<noteq> []"
          using stays [OF s(1) _ kept_ok [OF k2]] notnil by simp_all
        ultimately show ?thesis
          using kept_trans [OF k2 s(2)] w1(3) d p Some by simp
      qed
    qed
  qed
qed

text \<open>The calls the server makes until the stream is closed, at the times and with the answers of the
  socket given.\<close>

fun send_run :: "(int \<times> send_result) list \<Rightarrow> sb_Stream \<Rightarrow> 'r world \<Rightarrow> (bytes \<times> sb_Stream \<times> 'r world) option" where
  "send_run [] st w = Some ([], st, w)"
| "send_run ((now, r) # rs) st w =
     (if st_state st = STATE_CLOSING then Some ([], st, w)
      else (case sb_stream_send now r st w of
        None \<Rightarrow> None
      | Some (err, out, st1, w1) \<Rightarrow> map_option (\<lambda>(out', st2, w2). (out @ out', st2, w2)) (send_run rs st1 w1)))"

text \<open>How many calls are enough.\<close>

definition to_do :: "'r world \<Rightarrow> sb_Stream \<Rightarrow> nat" where
  "to_do w st = length (pending w st) + (if send_fp st = None then 0 else 1)
     + (if st_state st = STATE_CLOSING then 0 else 1)"

lemma send_run_spec:
  assumes "stream_ok st" "faults w = []"
    and "\<forall>(now, r) \<in> set rs. r \<noteq> Send_failed \<and> (\<forall>n. r = Room n \<longrightarrow> 0 < n)"
  shows "\<exists>out st' w'. send_run rs st w = Some (out, st', w') \<and> out @ pending w' st' = pending w st \<and> files w' = files w
    \<and> (st_state st \<noteq> STATE_CLOSING \<and> st_state st' = STATE_CLOSING \<longrightarrow> out = pending w st)
    \<and> (to_do w st \<le> length (filter (\<lambda>(now, r). r \<noteq> Send_blocked) rs) \<longrightarrow> st_state st' = STATE_CLOSING)"
  using assms
proof (induction rs arbitrary: st w)
  case Nil
  then show ?case by (auto simp: to_do_def split: if_splits)
next
  case (Cons p rs)
  obtain now r where p: "p = (now, r)" by fastforce
  show ?case
  proof (cases "st_state st = STATE_CLOSING")
    case True
    then show ?thesis by (auto simp: p)
  next
    case False
    obtain out st1 w1 where s: "sb_stream_send now r st w = Some (SB_ESUCCESS, out, st1, w1)" "kept st w st1 w1"
      "files w1 = files w" "faults w1 = []" "out @ pending w1 st1 = pending w st"
      "st_state st1 = STATE_CLOSING \<longrightarrow> pending w st = []"
      "send_fp st = None \<longrightarrow> send_fp st1 = None"
      "r \<noteq> Send_blocked \<longrightarrow> out \<noteq> [] \<or> send_fp st \<noteq> None \<and> send_fp st1 = None \<or> st_state st1 = STATE_CLOSING"
      using send_spec [OF Cons.prems(1,2), of r now] Cons.prems(3) False p by auto
    obtain out' st2 w2 where i: "send_run rs st1 w1 = Some (out', st2, w2)" "out' @ pending w2 st2 = pending w1 st1"
      "files w2 = files w1" "st_state st1 \<noteq> STATE_CLOSING \<and> st_state st2 = STATE_CLOSING \<longrightarrow> out' = pending w1 st1"
      "to_do w1 st1 \<le> length (filter (\<lambda>(now, r). r \<noteq> Send_blocked) rs) \<longrightarrow> st_state st2 = STATE_CLOSING"
      using Cons.IH [OF kept_ok [OF s(2)] s(4)] Cons.prems(3) by auto
    have l: "length out + length (pending w1 st1) = length (pending w st)"
      using arg_cong [OF s(5), of length] by simp
    moreover have nonempty: "out \<noteq> [] \<Longrightarrow> Suc 0 \<le> length out" by (cases out) auto
    ultimately have "to_do w1 st1 + (if r = Send_blocked then 0 else 1) \<le> to_do w st"
      using s(7,8) False nonempty by (auto simp: to_do_def)
    then have "to_do w st \<le> length (filter (\<lambda>(now, r). r \<noteq> Send_blocked) (p # rs)) \<longrightarrow> st_state st2 = STATE_CLOSING"
      using i(5) p by (auto split: if_splits)
    moreover have "(out @ out') @ pending w2 st2 = pending w st" using i(2) s(5) by simp
    moreover have "st_state st2 = STATE_CLOSING \<longrightarrow> out @ out' = pending w st"
      using i(2,4) s(5,6) by (cases "st_state st1 = STATE_CLOSING") auto
    moreover have "send_run (p # rs) st w = Some (out @ out', st2, w2)" using s(1) i(1) False p by simp
    moreover have "files w2 = files w" using i(3) s(3) by simp
    ultimately show ?thesis by blast
  qed
qed


section \<open>Receiving in pieces\<close>

lemma recv_char_time:
  "recv_char h c st u w = Some (None, st', u', w') \<Longrightarrow> last_activity st' = last_activity st \<and> u' = u"
  by (auto simp: recv_char_def bind_eq_Some_iff Let_def split: if_splits option.splits prod.splits)

lemma recv_bytes_time:
  "recv_bytes h cs st u w = Some (None, st', u', w') \<Longrightarrow> last_activity st' = last_activity st \<and> u' = u"
  by (induction cs arbitrary: st u w) (auto split: option.splits prod.splits dest!: recv_char_time)

lemma recv_bytes_append:
  "recv_bytes h (cs @ ds) st u w = (case recv_bytes h cs st u w of
     None \<Rightarrow> None
   | Some (Some err, st', u', w') \<Rightarrow> Some (Some err, st', u', w')
   | Some (None, st', u', w') \<Rightarrow> recv_bytes h ds st' u' w')"
  by (induction cs arbitrary: st u w) (auto split: option.splits prod.splits)

lemma recv_pieces:
  "sb_stream_recv h now (Received cs # map Received chs) st u w
     = sb_stream_recv h now [Received (cs @ concat chs)] st u w"
proof (induction chs arbitrary: cs st u w)
  case Nil
  then show ?case by simp
next
  case (Cons d chs)
  show ?case
  proof (cases "recv_bytes h cs (st\<lparr>last_activity := now\<rparr>) u w")
    case None
    then show ?thesis by (simp add: recv_bytes_append)
  next
    case (Some r)
    obtain e st1 u1 w1 where r: "r = (e, st1, u1, w1)" by (cases r)
    show ?thesis
    proof (cases e)
      case None
      then have "st1\<lparr>last_activity := now\<rparr> = st1"
        using recv_bytes_time [of h cs "st\<lparr>last_activity := now\<rparr>" u w st1 u1 w1] Some r by simp
      then show ?thesis
        using Cons.IH [of d st1 u1 w1] Some r None by (simp add: recv_bytes_append)
    qed (simp add: Some r recv_bytes_append)
  qed
qed

text \<open>C19: How the bytes of a request are split over the calls of \<open>recv\<close> does not matter:
  any two ways to cut the same bytes leave the same stream, user data and world and make the same
  calls of the handler.\<close>

theorem recv_chunking_irrelevant:
  assumes "chs \<noteq> []" and "ds \<noteq> []" and "concat chs = concat ds"
  shows "sb_stream_recv h now (map Received chs) st u w = sb_stream_recv h now (map Received ds) st u w"
  using assms recv_pieces [of h now "hd chs" "tl chs" st u w] recv_pieces [of h now "hd ds" "tl ds" st u w]
  by (cases chs; cases ds) simp_all

text \<open>A stream that has received \<open>d\<close>, all of it header.\<close>

definition header_so_far :: "sb_Stream \<Rightarrow> bytes \<Rightarrow> bool" where
  "header_so_far st d \<longleftrightarrow> st_state st = STATE_RECEIVING_HEADER \<and> stream_ok st \<and> buf_data (recv_buf st) = d
     \<and> expected_recv_len st = 0"

definition ends_header :: "bytes \<Rightarrow> bool" where
  "ends_header d \<longleftrightarrow> suffix [CR, LF, CR, LF] d"

lemma ends_header_test:
  "4 \<le> length d \<and> mem_equal (drop (length d - 4) d) [CR, LF, CR, LF] \<longleftrightarrow> ends_header d"
proof -
  have "mem_equal (drop (length d - 4) d) [CR, LF, CR, LF] \<longleftrightarrow> drop (length d - 4) d = [CR, LF, CR, LF]" if "4 \<le> length d"
  proof
    assume "mem_equal (drop (length d - 4) d) [CR, LF, CR, LF]"
    then obtain t where t: "drop (length d - 4) d = [CR, LF, CR, LF] @ t" by (auto simp: mem_equal_def prefix_def)
    from arg_cong [OF this, of length] that have "t = []" by simp
    with t show "drop (length d - 4) d = [CR, LF, CR, LF]" by simp
  qed (simp add: mem_equal_def)
  moreover have "suffix [CR, LF, CR, LF] d \<longleftrightarrow> 4 \<le> length d \<and> drop (length d - 4) d = [CR, LF, CR, LF]"
    by (auto simp: suffix_def) (metis append_take_drop_id)
  ultimately show ?thesis by (auto simp: ends_header_def)
qed

lemma header_byte:
  assumes "header_so_far st d" "faults w = []" "\<not> ends_header (d @ [c])"
  shows "\<exists>st' w'. recv_char h c st u w = Some (None, st', u, w') \<and> header_so_far st' (d @ [c]) \<and> faults w' = []
    \<and> (\<exists>b. st' = st\<lparr>recv_buf := b\<rparr>)"
proof -
  have ok: "buf_ok (recv_buf st)" and d: "buf_data (recv_buf st) = d" using assms(1) by (auto simp: header_so_far_def stream_ok_def)
  obtain err b w1 where p: "sb_buffer_push_char (recv_buf st) c w = Some (err, b, w1)"
    and l: "leaves (d @ [c]) d w (err, b, w1)"
    using push_char_spec [OF ok, of c w] d by (metis prod_cases3)
  with assms(2) have b: "err = SB_ESUCCESS" "buf_ok b" "buf_data b = d @ [c]" "faults w1 = []"
    by (auto simp: leaves_def hive_const)
  have n: "buf_len b = length (d @ [c])" using length_buf_data [OF b(2)] b(3) by simp
  have "\<not> (4 \<le> buf_len b \<and> mem_equal (drop (buf_len b - 4) (buf_data b)) [CR, LF, CR, LF])"
    unfolding b(3) unfolding n using assms(3) ends_header_test [of "d @ [c]"] by blast
  then have "recv_char h c st u w = Some (None, st\<lparr>recv_buf := b\<rparr>, u, w1)"
    using p b(1) n assms(1) by (auto simp: recv_char_def header_so_far_def Let_def)
  then show ?thesis using b assms(1) by (auto simp: header_so_far_def stream_ok_def)
qed

lemma header_bytes:
  "header_so_far st d \<Longrightarrow> faults w = [] \<Longrightarrow> (\<And>k. k < length cs \<Longrightarrow> \<not> ends_header (d @ take (Suc k) cs)) \<Longrightarrow>
     \<exists>st' w'. recv_bytes h cs st u w = Some (None, st', u, w') \<and> header_so_far st' (d @ cs) \<and> faults w' = []
       \<and> (\<exists>b. st' = st\<lparr>recv_buf := b\<rparr>)"
proof (induction cs arbitrary: st d w)
  case Nil
  have "st = st\<lparr>recv_buf := recv_buf st\<rparr>" by simp
  with Nil show ?case by (auto intro: exI [of _ "recv_buf st"])
next
  case (Cons c cs)
  obtain st1 w1 b1 where 1: "recv_char h c st u w = Some (None, st1, u, w1)" "header_so_far st1 (d @ [c])" "faults w1 = []"
    "st1 = st\<lparr>recv_buf := b1\<rparr>"
    using header_byte [OF Cons.prems(1,2), of c h u] Cons.prems(3) [of 0] by auto
  have "\<not> ends_header ((d @ [c]) @ take (Suc k) cs)" if "k < length cs" for k
    using Cons.prems(3) [of "Suc k"] that by simp
  then obtain st2 w2 b2 where "recv_bytes h cs st1 u w1 = Some (None, st2, u, w2)" "header_so_far st2 ((d @ [c]) @ cs)" "faults w2 = []"
    "st2 = st1\<lparr>recv_buf := b2\<rparr>"
    using Cons.IH [OF 1(2,3)] by blast
  with 1 show ?case by auto
qed

text \<open>A terminated buffer as a C string.\<close>

lemma null_terminate_ok:
  assumes "buf_ok b" "faults w = []" "NUL \<notin> set (buf_data b)"
  shows "\<exists>b' w'. sb_buffer_null_terminate b w = Some (SB_ESUCCESS, b', w') \<and> buf_ok b' \<and> buf_data b' = buf_data b
    \<and> faults w' = [] \<and> c_string_in (buf_s b') = Some (buf_data b) \<and> buf_len b' = buf_len b \<and> (\<exists>rest. buf_s b' = buf_data b @ NUL # rest)"
  using null_terminate_spec [OF assms(1), of w] assms(2,3)
  by (auto simp: leaves_def c_string_in_append_NUL)

text \<open>A complete request without a body.\<close>

definition bare_request :: "bytes \<Rightarrow> string \<Rightarrow> string \<Rightarrow> bool" where
  "bare_request req meth path \<longleftrightarrow> ends_header req \<and> (\<forall>k < length req. \<not> ends_header (take k req)) \<and> NUL \<notin> set req
     \<and> find_header_value req ''Content-Length'' = Some None
     \<and> (\<exists>i ver d rc. scan_request req = Some (meth, i, ver) \<and> mem_equal ver ''HTTP''
          \<and> url_decode (drop i req) PATH_SIZE = Some (rc, d) \<and> path = takeWhile (\<lambda>c. c \<noteq> NUL) d)"

definition requested :: "sb_Stream \<Rightarrow> bytes \<Rightarrow> sb_Stream \<Rightarrow> bool" where
  "requested st req st' \<longleftrightarrow> st_state st' = STATE_SENDING_STATUS \<and> buf_data (recv_buf st') = req
     \<and> (\<exists>rest. buf_s (recv_buf st') = req @ NUL # rest) \<and> data_idx st' = data_idx st \<and> send_buf st' = send_buf st
     \<and> st_sockfd st' = st_sockfd st \<and> send_fp st' = send_fp st \<and> last_activity st' = last_activity st \<and> stream_ok st'"

lemma header_complete:
  assumes "header_so_far st d" "faults w = []" "bare_request (d @ [c]) meth path"
  shows "\<exists>st' w'. recv_char h c st u w = map_option (\<lambda>(err, st2, u2, w2). (Some err, st2, u2, w2))
      (sb_stream_emit h (EV_REQUEST meth path) st' u w') \<and> requested st (d @ [c]) st' \<and> faults w' = []"
proof -
  have ok: "buf_ok (recv_buf st)" "buf_data (recv_buf st) = d" "stream_ok st" using assms(1) by (auto simp: header_so_far_def stream_ok_def)
  obtain err b w1 where p: "sb_buffer_push_char (recv_buf st) c w = Some (err, b, w1)"
    and l: "leaves (d @ [c]) d w (err, b, w1)"
    using push_char_spec [OF ok(1), of c w] ok(2) by (metis prod_cases3)
  with assms(2) have b: "err = SB_ESUCCESS" "buf_ok b" "buf_data b = d @ [c]" "faults w1 = []"
    by (auto simp: leaves_def hive_const)
  have n: "buf_len b = length (d @ [c])" using length_buf_data [OF b(2)] b(3) by simp
  have e: "4 \<le> buf_len b \<and> mem_equal (drop (buf_len b - 4) (buf_data b)) [CR, LF, CR, LF]"
    unfolding b(3) unfolding n using assms(3) ends_header_test [of "d @ [c]"] by (auto simp: bare_request_def)
  have nn: "NUL \<notin> set (buf_data b)" using assms(3) unfolding b(3) bare_request_def by blast
  obtain b2 w2 where t: "sb_buffer_null_terminate b w1 = Some (SB_ESUCCESS, b2, w2)" "buf_ok b2" "buf_data b2 = buf_data b"
    "faults w2 = []" "c_string_in (buf_s b2) = Some (d @ [c])"
    using null_terminate_ok [OF b(2,4) nn] b(3) by auto
  have nn2: "NUL \<notin> set (buf_data b2)" using nn t(3) by simp
  obtain b3 w3 where t3: "sb_buffer_null_terminate b2 w2 = Some (SB_ESUCCESS, b3, w3)" "buf_ok b3" "buf_data b3 = d @ [c]"
    "faults w3 = []" "c_string_in (buf_s b3) = Some (d @ [c])" "\<exists>rest. buf_s b3 = (d @ [c]) @ NUL # rest"
    using null_terminate_ok [OF t(2,4) nn2] t(3) b(3) by auto
  obtain i ver dd rc where r: "scan_request (d @ [c]) = Some (meth, i, ver)" "mem_equal ver ''HTTP''"
    "url_decode (drop i (d @ [c])) PATH_SIZE = Some (rc, dd)" "path = takeWhile (\<lambda>c. c \<noteq> NUL) dd"
    "find_header_value (d @ [c]) ''Content-Length'' = Some None"
    using assms(3) by (auto simp: bare_request_def)
  let ?st = "st\<lparr>st_state := STATE_SENDING_STATUS, recv_buf := b3\<rparr>"
  have "recv_char h c st u w = map_option (\<lambda>(err, st2, u2, w2). (Some err, st2, u2, w2))
      (sb_stream_emit h (EV_REQUEST meth path) ?st u w3)"
    using p b(1) e assms(1) t t3 r
    by (simp add: recv_char_def header_so_far_def handle_request_def Let_def map_option_case split: option.splits)
  moreover have "requested st (d @ [c]) ?st"
    using t3 ok(3) by (auto simp: requested_def stream_ok_def)
  ultimately show ?thesis using t3(4) by blast
qed

lemma request_bytes:
  assumes "header_so_far st d" "faults w = []" "bare_request (d @ cs) meth path" "cs \<noteq> []"
  shows "\<exists>st' w'. sb_stream_recv h now [Received cs] st u w = sb_stream_emit h (EV_REQUEST meth path) st' u w'
    \<and> requested (st\<lparr>last_activity := now\<rparr>) (d @ cs) st' \<and> faults w' = []"
proof -
  obtain e c where ec: "cs = e @ [c]" using assms(4) by (meson rev_exhaust)
  let ?st = "st\<lparr>last_activity := now\<rparr>"
  have "header_so_far ?st d" using assms(1) by (simp add: header_so_far_def stream_ok_def)
  moreover have "\<not> ends_header (d @ take (Suc k) e)" if "k < length e" for k
    using assms(3) that unfolding ec bare_request_def by (auto dest!: spec [of _ "length d + Suc k"])
  ultimately obtain st1 w1 b where 1: "recv_bytes h e ?st u w = Some (None, st1, u, w1)" "header_so_far st1 (d @ e)" "faults w1 = []"
    "st1 = ?st\<lparr>recv_buf := b\<rparr>"
    using header_bytes [of ?st d w e h u] assms(2) by auto
  obtain st2 w2 where 2: "recv_char h c st1 u w1 = map_option (\<lambda>(err, st2, u2, w2). (Some err, st2, u2, w2))
      (sb_stream_emit h (EV_REQUEST meth path) st2 u w2)" "requested st1 (d @ cs) st2" "faults w2 = []"
    using header_complete [OF 1(2,3), of c meth path h u] assms(3) ec by auto
  have "sb_stream_recv h now [Received cs] st u w = sb_stream_emit h (EV_REQUEST meth path) st2 u w2"
    using 1(1) 2(1) ec by (auto simp: recv_bytes_append map_option_case split: option.splits prod.splits)
  then show ?thesis using 1(4) 2(2,3) by (auto simp: requested_def)
qed

text \<open>A request without a body reaches the handler, in however many pieces it arrives.\<close>

theorem request_delivered:
  assumes "header_so_far st []" and "faults w = []" and "bare_request (concat chs) meth path" and "chs \<noteq> []"
  shows "\<exists>st' w'. sb_stream_recv h now (map Received chs) st u w = sb_stream_emit h (EV_REQUEST meth path) st' u w'
    \<and> requested (st\<lparr>last_activity := now\<rparr>) (concat chs) st' \<and> faults w' = []"
proof -
  have "ends_header (concat chs)" using assms(3) by (simp add: bare_request_def)
  then have "concat chs \<noteq> []" by (metis ends_header_def list.distinct(1) suffix_Nil)
  moreover have "sb_stream_recv h now (map Received chs) st u w = sb_stream_recv h now [Received (concat chs)] st u w"
    using recv_pieces [of h now "hd chs" "tl chs" st u w] assms(4) by (cases chs) simp_all
  ultimately show ?thesis using request_bytes [OF assms(1,2), of "concat chs" meth path h now u] assms(3) by simp
qed

section \<open>The text of a response\<close>

text \<open>A successful answer: \<open>txt\<close> is added to what is to be sent, and the state becomes \<open>a\<close>.\<close>

definition answered ::
  "sb_Stream \<Rightarrow> string \<Rightarrow> stream_state \<Rightarrow> (int \<times> sb_Stream \<times> 'r world) option \<Rightarrow> sb_Stream \<Rightarrow> 'r world \<Rightarrow> bool" where
  "answered st txt a r st' w' \<longleftrightarrow> r = Some (SB_ESUCCESS, st', w') \<and> stream_ok st' \<and> faults w' = [] \<and> st_state st' = a
     \<and> buf_data (send_buf st') = buf_data (send_buf st) @ txt"

lemma leaves_success:
  "leaves new old w (err, b, w') \<Longrightarrow> faults w = [] \<Longrightarrow> err = SB_ESUCCESS \<and> buf_ok b \<and> buf_data b = new \<and> faults w' = []"
  by (auto simp: leaves_def hive_const)

lemma push_str_ok:
  assumes "buf_ok b" "faults w = []"
  shows "\<exists>b' w'. sb_buffer_push_str b p w = Some (SB_ESUCCESS, b', w') \<and> buf_ok b' \<and> buf_data b' = buf_data b @ p \<and> faults w' = []"
  using push_str_spec [OF assms(1), of p w] leaves_success [OF _ assms(2)] by (metis prod_cases3)

lemma vwritef_ok:
  assumes "buf_ok b" "faults w = []" "expand fmt args = Some s"
  shows "\<exists>b' w'. sb_buffer_vwritef b fmt args w = Some (SB_ESUCCESS, b', w') \<and> buf_ok b' \<and> buf_data b' = buf_data b @ s \<and> faults w' = []"
  using vwritef_spec [OF assms(1,3), of w] leaves_success [OF _ assms(2)] by (metis prod_cases3)

definition status_line :: "int \<Rightarrow> string \<Rightarrow> string" where
  "status_line code msg = ''HTTP/1.1 '' @ show_int code @ '' '' @ msg @ [CR, LF]"

definition header_field :: "string \<times> string \<Rightarrow> string" where
  "header_field f = fst f @ '': '' @ snd f @ [CR, LF]"

lemma status_answered:
  assumes "stream_ok st" "faults w = []" "st_state st = STATE_SENDING_STATUS"
  shows "\<exists>st' w'. answered st (status_line code msg) STATE_SENDING_HEADER (sb_send_status st code msg w) st' w'"
  using vwritef_ok [OF _ assms(2) status_text, of "send_buf st" code msg] assms(1,3)
  by (auto simp: answered_def sb_send_status_def stream_ok_def status_line_def)

lemma header_answered:
  assumes "stream_ok st" "faults w = []" "st_state st = STATE_SENDING_HEADER"
  shows "\<exists>st' w'. answered st (header_field (field, val)) STATE_SENDING_HEADER (sb_send_header st field val w) st' w'"
  using vwritef_ok [OF _ assms(2) header_format, of "send_buf st" field val] assms(1,3)
  by (auto simp: answered_def sb_send_header_def need_status_def stream_ok_def header_field_def)

lemma write_answered:
  assumes "stream_ok st" "faults w = []" "st_state st = STATE_SENDING_HEADER"
  shows "\<exists>st' w'. answered st ([CR, LF] @ data) STATE_SENDING_DATA (sb_write st data w) st' w'"
proof -
  have "buf_ok (send_buf st)" using assms(1) by (simp add: stream_ok_def)
  then obtain b1 w1 where 1: "sb_buffer_push_str (send_buf st) [CR, LF] w = Some (SB_ESUCCESS, b1, w1)" "buf_ok b1"
    "buf_data b1 = buf_data (send_buf st) @ [CR, LF]" "faults w1 = []"
    using push_str_ok [OF _ assms(2)] by blast
  obtain b2 w2 where 2: "sb_buffer_push_str b1 data w1 = Some (SB_ESUCCESS, b2, w2)" "buf_ok b2"
    "buf_data b2 = buf_data b1 @ data" "faults w2 = []"
    using push_str_ok [OF 1(2,4)] by blast
  have "STATE_SENDING_HEADER < STATE_SENDING_DATA" by (simp add: less_stream_state_def)
  with 1 2 assms(1,3) show ?thesis
    by (simp add: answered_def sb_write_def ready_for_data_def sb_stream_finalize_header_def need_status_def stream_ok_def)
qed

text \<open>The header fields of a response, one call each.\<close>

fun send_headers :: "sb_Stream \<Rightarrow> (string \<times> string) list \<Rightarrow> 'r world \<Rightarrow> (int \<times> sb_Stream \<times> 'r world) option" where
  "send_headers st [] w = Some (SB_ESUCCESS, st, w)"
| "send_headers st ((field, val) # fs) w = do {
     (err, st1, w1) \<leftarrow> sb_send_header st field val w;
     if err \<noteq> SB_ESUCCESS then Some (err, st1, w1) else send_headers st1 fs w1
   }"

lemma headers_answered:
  "stream_ok st \<Longrightarrow> faults w = [] \<Longrightarrow> st_state st = STATE_SENDING_HEADER \<Longrightarrow>
     \<exists>st' w'. answered st (concat (map header_field fs)) STATE_SENDING_HEADER (send_headers st fs w) st' w'"
proof (induction fs arbitrary: st w)
  case Nil
  then show ?case by (simp add: answered_def)
next
  case (Cons f fs)
  obtain field val where f: "f = (field, val)" by fastforce
  obtain st1 w1 where 1: "answered st (header_field f) STATE_SENDING_HEADER (sb_send_header st field val w) st1 w1"
    using header_answered [OF Cons.prems, of field val] f by auto
  then obtain st2 w2 where "answered st1 (concat (map header_field fs)) STATE_SENDING_HEADER (send_headers st1 fs w1) st2 w2"
    using Cons.IH [of st1 w1] by (auto simp: answered_def)
  with 1 f show ?case by (auto simp: answered_def)
qed

text \<open>C20: The functions that answer produce an HTTP response: status line, header fields in the order
  of the calls, empty line, body; once the body has begun, another status, header or file is refused
  with \<open>SB_EBADSTATE\<close> and changes nothing.\<close>

theorem response_text:
  assumes "stream_ok st" and "faults w = []" and "st_state st = STATE_SENDING_STATUS" and "buf_data (send_buf st) = []"
  shows "\<exists>st1 w1 st2 w2 st3 w3. sb_send_status st code msg w = Some (SB_ESUCCESS, st1, w1) \<and>
    send_headers st1 fs w1 = Some (SB_ESUCCESS, st2, w2) \<and> sb_write st2 body w2 = Some (SB_ESUCCESS, st3, w3) \<and>
    buf_data (send_buf st3) = status_line code msg @ concat (map header_field fs) @ [CR, LF] @ body \<and>
    (\<forall>code' msg'. sb_send_status st3 code' msg' w3 = Some (SB_EBADSTATE, st3, w3)) \<and>
    (\<forall>field val. sb_send_header st3 field val w3 = Some (SB_EBADSTATE, st3, w3)) \<and>
    (\<forall>name. sb_send_file st3 name w3 = Some (SB_EBADSTATE, st3, w3))"
proof -
  obtain st1 w1 where 1: "answered st (status_line code msg) STATE_SENDING_HEADER (sb_send_status st code msg w) st1 w1"
    using status_answered [OF assms(1-3)] by blast
  obtain st2 w2 where 2: "answered st1 (concat (map header_field fs)) STATE_SENDING_HEADER (send_headers st1 fs w1) st2 w2"
    using headers_answered [of st1 w1 fs] 1 by (auto simp: answered_def)
  obtain st3 w3 where 3: "answered st2 ([CR, LF] @ body) STATE_SENDING_DATA (sb_write st2 body w2) st3 w3"
    using write_answered [of st2 w2 body] 2 by (auto simp: answered_def)
  from 3 have "st_state st3 = STATE_SENDING_DATA" by (simp add: answered_def)
  then have "\<forall>code' msg'. sb_send_status st3 code' msg' w3 = Some (SB_EBADSTATE, st3, w3)"
    "\<forall>field val. sb_send_header st3 field val w3 = Some (SB_EBADSTATE, st3, w3)"
    "\<forall>name. sb_send_file st3 name w3 = Some (SB_EBADSTATE, st3, w3)"
    by (simp_all add: sb_send_status_def sb_send_header_def sb_send_file_def less_stream_state_def)
  with 1 2 3 assms(4) show ?thesis
    by (intro exI [of _ st1] exI [of _ w1] exI [of _ st2] exI [of _ w2] exI [of _ st3] exI [of _ w3])
      (simp add: answered_def)
qed

section \<open>The buffer refines a list of bytes\<close>

datatype buf_op = Push_char char | Push_str bytes | Writef string "fmt_arg list" | Terminate | Shift nat

fun buf_exec :: "buf_op \<Rightarrow> sb_Buffer \<Rightarrow> 'r world \<Rightarrow> (int \<times> sb_Buffer \<times> 'r world) option" where
  "buf_exec (Push_char c) b w = sb_buffer_push_char b c w"
| "buf_exec (Push_str s) b w = sb_buffer_push_str b s w"
| "buf_exec (Writef fmt args) b w = sb_buffer_vwritef b fmt args w"
| "buf_exec Terminate b w = sb_buffer_null_terminate b w"
| "buf_exec (Shift n) b w = map_option (\<lambda>b'. (SB_ESUCCESS, b', w)) (sb_buffer_shift b n)"

text \<open>The same operations on a list of bytes; \<open>None\<close> is a step the list cannot take.\<close>

fun bytes_exec :: "buf_op \<Rightarrow> bytes \<Rightarrow> bytes option" where
  "bytes_exec (Push_char c) d = Some (d @ [c])"
| "bytes_exec (Push_str s) d = Some (d @ s)"
| "bytes_exec (Writef fmt args) d = map_option ((@) d) (expand fmt args)"
| "bytes_exec Terminate d = Some d"
| "bytes_exec (Shift n) d = (if n \<le> length d then Some (drop n d) else None)"

text \<open>A run of operations, each performed whatever the ones before it reported.\<close>

fun buf_run :: "buf_op list \<Rightarrow> sb_Buffer \<Rightarrow> 'r world \<Rightarrow> (sb_Buffer \<times> 'r world) option" where
  "buf_run [] b w = Some (b, w)"
| "buf_run (op # ops) b w = (case buf_exec op b w of None \<Rightarrow> None | Some (_, b', w') \<Rightarrow> buf_run ops b' w')"

fun bytes_run :: "buf_op list \<Rightarrow> bytes \<Rightarrow> bytes option" where
  "bytes_run [] d = Some d"
| "bytes_run (op # ops) d = Option.bind (bytes_exec op d) (bytes_run ops)"

lemma buf_step:
  assumes "buf_ok b" "bytes_exec op (buf_data b) = Some d"
  shows "\<exists>r. buf_exec op b w = Some r \<and> leaves d (buf_data b) w r"
proof (cases op)
  case (Shift n)
  then have "n \<le> buf_len b" "d = drop n (buf_data b)"
    using assms length_buf_data [OF assms(1)] by (auto simp del: length_take split: if_splits)
  then show ?thesis using shift_spec [OF assms(1), of n] Shift by (auto simp: leaves_def)
next
  case Terminate
  then show ?thesis using assms(2) null_terminate_spec [OF assms(1), of w] by auto
qed (use assms(2) push_char_spec [OF assms(1)] push_str_spec [OF assms(1)] vwritef_spec [OF assms(1)] in auto)

text \<open>C21: The growing buffer refines a list of bytes: from the empty buffer on, every sequence of
  appends, formatted appends, terminations and shifts that the list allows runs without error and
  leaves in the buffer what the same operations leave in the list, within the block of memory.\<close>

theorem buffer_refines_bytes:
  assumes "bytes_run ops [] = Some d" and "faults w = []"
  shows "\<exists>b w'. buf_run ops sb_buffer_init w = Some (b, w') \<and> take (buf_len b) (buf_s b) = d
    \<and> buf_len b \<le> length (buf_s b)"
proof -
  have "\<exists>b' w'. buf_run ops b w = Some (b', w') \<and> buf_data b' = d \<and> buf_ok b'"
    if "buf_ok b" "bytes_run ops (buf_data b) = Some d" "faults w = []" for b w
    using that
  proof (induction ops arbitrary: b w)
    case (Cons op ops)
    from Cons.prems(2) obtain d1 where d1: "bytes_exec op (buf_data b) = Some d1" "bytes_run ops d1 = Some d"
      by (auto simp: bind_eq_Some_iff)
    obtain err b1 w1 where s: "buf_exec op b w = Some (err, b1, w1)" and l: "leaves d1 (buf_data b) w (err, b1, w1)"
      using buf_step [OF Cons.prems(1) d1(1), of w] by (metis prod_cases3)
    have "buf_ok b1" "buf_data b1 = d1" "faults w1 = []" using leaves_success [OF l Cons.prems(3)] by auto
    then show ?case using Cons.IH d1(2) s by auto
  qed simp
  from this [of sb_buffer_init w] assms show ?thesis by (simp add: sb_buffer_init_def buf_ok_def)
qed

lemma buffer_refines_bytes_witness:
  "\<exists>b w'. buf_run [Push_str ''abc'', Shift 1, Writef ''%s!'' [Str_arg (Some ''x'')], Terminate] sb_buffer_init (calm_world ()) = Some (b, w')
     \<and> take (buf_len b) (buf_s b) = ''bcx!'' \<and> buf_len b \<le> length (buf_s b)"
  by (rule buffer_refines_bytes) (simp_all add: fmt_expand_def)

section \<open>Examples\<close>

definition sample_stream :: sb_Stream where
  "sample_stream = \<lparr>st_state = STATE_SENDING_STATUS, init_time = 0, last_activity = 0, expected_recv_len = 0, data_idx = 0,
     st_sockfd = 4, recv_buf = sb_buffer_init, send_buf = sb_buffer_init, send_fp = None, st_address = ''10.0.0.9''\<rparr>"


lemma recv_chunking_irrelevant_witness:
  "\<forall>h now st u w. sb_stream_recv h now (map Received [''GE'', ''T /'']) st u w
     = sb_stream_recv h now (map Received [''GET'', '' /'']) st u w"
  by (intro allI recv_chunking_irrelevant) simp_all

lemma response_text_witness:
  "\<exists>st1 w1 st2 w2 st3 w3. sb_send_status sample_stream 404 ''None'' (calm_world ()) = Some (SB_ESUCCESS, st1, w1) \<and>
    send_headers st1 [(''A'', ''b'')] w1 = Some (SB_ESUCCESS, st2, w2) \<and> sb_write st2 ''body'' w2 = Some (SB_ESUCCESS, st3, w3) \<and>
    buf_data (send_buf st3) = status_line 404 ''None'' @ concat (map header_field [(''A'', ''b'')]) @ [CR, LF] @ ''body''"
  using response_text [of sample_stream "calm_world ()" 404 "''None''" "[(''A'', ''b'')]" "''body''"]
  by (force simp: sample_stream_def stream_ok_def buf_ok_def sb_buffer_init_def)

end
