(* ===== verification/Hive_Sandbird_Server.thy ===== *)
theory Hive_Sandbird_Server
  imports Hive_Sandbird_Stream
begin

text \<open>
  The embedded HTTP server itself (\<open>src/src/sandbird/sandbird.c\<close>, section Server): opening the
  listening socket, one round of \<open>select\<close>, and closing.

  \<^item> What the operating system answers in one round is the record \<open>poll_env\<close>: the time, for every
    descriptor what \<open>recv\<close> or \<open>send\<close> would return when \<open>select\<close> reports it, and the connections
    \<open>accept\<close> yields.
  \<^item> A descriptor that does not fit an \<open>fd_set\<close> makes \<open>FD_SET\<close> write outside it, which has no
    result.
\<close>

definition FD_SETSIZE :: nat where [hive_const]: "FD_SETSIZE = 1024"

record ('u, 'r) sb_Server =
  srv_streams :: "sb_Stream list"
  srv_handler :: "('u, 'r) sb_Handler"
  srv_sockfd :: nat
  srv_udata :: 'u
  srv_now :: int
  srv_timeout :: int
  srv_max_lifetime :: int
  srv_max_request_size :: nat

record ('u, 'r) sb_Options =
  opt_handler :: "('u, 'r) sb_Handler"
  opt_udata :: 'u
  opt_host :: string
  opt_port :: string
  opt_timeout :: "string option"
  opt_max_lifetime :: "string option"
  opt_max_request_size :: "string option"

text \<open>What \<open>getaddrinfo\<close>, \<open>socket\<close>, \<open>bind\<close> and \<open>listen\<close> answer.\<close>

record net =
  net_getaddrinfo :: "string \<Rightarrow> string \<Rightarrow> bool"
  net_socket :: "nat option"
  net_bind :: bool
  net_listen :: bool

section \<open>Closing\<close>

fun destroy_streams ::
  "('u, 'r) sb_Handler \<Rightarrow> sb_Stream list \<Rightarrow> 'u \<Rightarrow> 'r world \<Rightarrow> ('u \<times> 'r world) option" where
  "destroy_streams h [] u w = Some (u, w)"
| "destroy_streams h (st # sts) u w =
     (case sb_stream_destroy h st u w of None \<Rightarrow> None | Some (u1, w1) \<Rightarrow> destroy_streams h sts u1 w1)"

definition sb_close_server :: "('u, 'r) sb_Server \<Rightarrow> 'r world \<Rightarrow> ('u \<times> 'r world) option" where
  "sb_close_server srv w = do {
     (u1, w1) \<leftarrow> destroy_streams (srv_handler srv) (srv_streams srv) (srv_udata srv) w;
     Some (u1, close_fd w1)
   }"

section \<open>Opening\<close>

text \<open>On every failure after the creation of the object the server is closed again, which closes the
  socket when there is one.\<close>

definition sb_new_server ::
  "net \<Rightarrow> ('u, 'r) sb_Options \<Rightarrow> 'r world \<Rightarrow> ('u, 'r) sb_Server option \<times> 'r world" where
  "sb_new_server net opt w =
     (let (ok, w1) = c_alloc w in
      if \<not> ok then (None, w1)
      else if \<not> net_getaddrinfo net (opt_host opt) (opt_port opt) then (None, w1)
      else (case net_socket net of
        None \<Rightarrow> (None, w1)
      | Some fd \<Rightarrow>
          (let w2 = w1\<lparr>open_fds := open_fds w1 + 1\<rparr> in
           if \<not> net_bind net \<or> \<not> net_listen net then (None, close_fd w2)
           else (Some \<lparr>srv_streams = [], srv_handler = opt_handler opt, srv_sockfd = fd, srv_udata = opt_udata opt, srv_now = 0,
                   srv_timeout = (case opt_timeout opt of None \<Rightarrow> 30000 | t \<Rightarrow> int (str_to_uint t)),
                   srv_max_lifetime = int (str_to_uint (opt_max_lifetime opt)),
                   srv_max_request_size = str_to_uint (opt_max_request_size opt)\<rparr>, w2))))"

section \<open>One round\<close>

record poll_env =
  pe_now :: int
  pe_recv :: "nat \<Rightarrow> recv_result list option"
  pe_send :: "nat \<Rightarrow> send_result option"
  pe_accept :: "(nat \<times> (bool \<times> string) option) list"

text \<open>The socket of a stream is watched for reading or for writing, depending on its state.\<close>

definition sb_stream_io ::
  "('u, 'r) sb_Handler \<Rightarrow> poll_env \<Rightarrow> sb_Stream \<Rightarrow> 'u \<Rightarrow> 'r world \<Rightarrow> (int \<times> bytes \<times> sb_Stream \<times> 'u \<times> 'r world) option" where
  "sb_stream_io h env st u w =
     (if STATE_SENDING_STATUS \<le> st_state st
      then (case pe_send env (st_sockfd st) of
        None \<Rightarrow> Some (SB_ESUCCESS, [], st, u, w)
      | Some r \<Rightarrow> do { (err, out, st', w') \<leftarrow> sb_stream_send (pe_now env) r st w; Some (err, out, st', u, w') })
      else (case pe_recv env (st_sockfd st) of
        None \<Rightarrow> Some (SB_ESUCCESS, [], st, u, w)
      | Some rs \<Rightarrow> do { (err, st', u', w') \<leftarrow> sb_stream_recv h (pe_now env) rs st u w; Some (err, [], st', u', w') }))"

definition stream_expired :: "('u, 'r) sb_Server \<Rightarrow> sb_Stream \<Rightarrow> bool" where
  "stream_expired srv st \<longleftrightarrow>
     srv_timeout srv \<noteq> 0 \<and> srv_now srv - last_activity st > srv_timeout srv div 1000
     \<or> srv_max_lifetime srv \<noteq> 0 \<and> srv_now srv - init_time st > srv_max_lifetime srv div 1000
     \<or> srv_max_request_size srv \<noteq> 0 \<and> srv_max_request_size srv \<le> buf_len (recv_buf st)"

text \<open>The loop over the streams; the second component of the result collects what was sent.\<close>

fun poll_streams ::
  "('u, 'r) sb_Server \<Rightarrow> poll_env \<Rightarrow> sb_Stream list \<Rightarrow> 'u \<Rightarrow> 'r world
     \<Rightarrow> (int \<times> bytes \<times> sb_Stream list \<times> 'u \<times> 'r world) option" where
  "poll_streams srv env [] u w = Some (SB_ESUCCESS, [], [], u, w)"
| "poll_streams srv env (st # sts) u w =
     (case sb_stream_io (srv_handler srv) env st u w of
        None \<Rightarrow> None
      | Some (err, out, st1, u1, w1) \<Rightarrow>
          if err \<noteq> SB_ESUCCESS then Some (err, out, st1 # sts, u1, w1)
          else (let st2 = (if stream_expired srv st1 then sb_stream_close st1 else st1) in
            if st_state st2 = STATE_CLOSING
            then (case sb_stream_destroy (srv_handler srv) st2 u1 w1 of
                    None \<Rightarrow> None
                  | Some (u2, w2) \<Rightarrow>
                      map_option (\<lambda>(err, out', rest, u', w'). (err, out @ out', rest, u', w')) (poll_streams srv env sts u2 w2))
            else map_option (\<lambda>(err, out', rest, u', w'). (err, out @ out', st2 # rest, u', w')) (poll_streams srv env sts u1 w1)))"

text \<open>The loop over the new connections.\<close>

fun accept_streams ::
  "('u, 'r) sb_Handler \<Rightarrow> int \<Rightarrow> (nat \<times> (bool \<times> string) option) list \<Rightarrow> sb_Stream list \<Rightarrow> 'u \<Rightarrow> 'r world
     \<Rightarrow> (int \<times> sb_Stream list \<times> 'u \<times> 'r world) option" where
  "accept_streams h now [] sts u w = Some (SB_ESUCCESS, sts, u, w)"
| "accept_streams h now ((fd, peer) # fds) sts u w =
     (let w0 = w\<lparr>open_fds := open_fds w + 1\<rparr> in
      if FD_SETSIZE < fd then Some (SB_EFDTOOBIG, sts, u, close_fd w0)
      else (case sb_stream_new now fd peer w0 of
        (None, w1) \<Rightarrow> Some (SB_EOUTOFMEM, sts, u, close_fd w1)
      | (Some st, w1) \<Rightarrow>
          (case sb_stream_emit h EV_CONNECT st u w1 of
             None \<Rightarrow> None
           | Some (err, st1, u1, w2) \<Rightarrow>
               if err \<noteq> SB_ESUCCESS then Some (err, st1 # sts, u1, w2)
               else accept_streams h now fds (st1 # sts) u1 w2)))"

definition sb_poll_server ::
  "('u, 'r) sb_Server \<Rightarrow> poll_env \<Rightarrow> 'r world \<Rightarrow> (int \<times> bytes \<times> ('u, 'r) sb_Server \<times> 'r world) option" where
  "sb_poll_server srv env w = do {
     c_assert (srv_sockfd srv < FD_SETSIZE \<and> (\<forall>st \<in> set (srv_streams srv). st_sockfd st < FD_SETSIZE));
     let srv1 = srv\<lparr>srv_now := pe_now env\<rparr>;
     (err, out, sts, u1, w1) \<leftarrow> poll_streams srv1 env (srv_streams srv1) (srv_udata srv1) w;
     let srv2 = srv1\<lparr>srv_streams := sts, srv_udata := u1\<rparr>;
     if err \<noteq> SB_ESUCCESS then Some (err, out, srv2, w1)
     else do {
       (err, sts', u2, w2) \<leftarrow> accept_streams (srv_handler srv2) (srv_now srv2) (pe_accept env) sts u1 w1;
       Some (err, out, srv2\<lparr>srv_streams := sts', srv_udata := u2\<rparr>, w2)
     }
   }"

section \<open>Descriptors\<close>

text \<open>The server owns its listening socket and what its streams own, on top of the \<open>base\<close>
  descriptors of the rest of the program.\<close>

definition streams_ok :: "sb_Stream list \<Rightarrow> int \<Rightarrow> 'r world \<Rightarrow> bool" where
  "streams_ok sts base w \<longleftrightarrow> (\<forall>st \<in> set sts. stream_ok st) \<and> open_fds w = base + 1 + sum_list (map fds_of sts)"

definition server_ok :: "('u, 'r) sb_Server \<Rightarrow> int \<Rightarrow> 'r world \<Rightarrow> bool" where
  "server_ok srv base w \<longleftrightarrow> streams_ok (srv_streams srv) base w"

context sb_handler begin

lemma io:
  assumes "stream_ok st"
  shows "post (sb_stream_io handler env st u w) (\<lambda>(err, out, st', u', w'). kept st w st' w')"
  unfolding sb_stream_io_def
  by (intro hive_post | rule post_call [OF send_kept [OF assms]] | rule post_call [OF recv [OF assms]]
      | ((use kept_refl [OF assms] in auto)[1]; fail))+

lemma destroy_all:
  "streams_ok sts base w \<Longrightarrow> post (destroy_streams handler sts u w)
     (\<lambda>(u', w'). live_http w' = live_http w \<and> open_fds w' = base + 1)"
proof (induction sts arbitrary: u w)
  case Nil
  then show ?case by (simp add: post_def streams_ok_def)
next
  case (Cons st sts)
  show ?case
  proof (rule postI)
    fix y
    assume y: "destroy_streams handler (st # sts) u w = Some y"
    then obtain u1 w1 where d: "sb_stream_destroy handler st u w = Some (u1, w1)" by (auto split: option.splits)
    have "stream_ok st" using Cons.prems by (simp add: streams_ok_def)
    from postD [OF destroy [OF this] d] Cons.prems have "streams_ok sts base w1" "live_http w1 = live_http w"
      by (auto simp: streams_ok_def)
    with postD [OF Cons.IH [OF this(1), of u1], of y] y d
    show "case y of (u', w') \<Rightarrow> live_http w' = live_http w \<and> open_fds w' = base + 1" by auto
  qed
qed

lemma poll_streams_ok:
  "srv_handler srv = handler \<Longrightarrow> streams_ok sts base w \<Longrightarrow> post (poll_streams srv env sts u w)
     (\<lambda>(err, out, sts', u', w'). streams_ok sts' base w' \<and> live_http w' = live_http w)"
proof (induction sts arbitrary: base u w)
  case Nil
  then show ?case by (simp add: post_def)
next
  case (Cons st sts)
  have ok: "stream_ok st" and rest: "streams_ok sts (base + fds_of st) w"
    using Cons.prems(2) by (auto simp: streams_ok_def)
  show ?case
  proof (rule postI)
    fix y
    assume y: "poll_streams srv env (st # sts) u w = Some y"
    then obtain err out st1 u1 w1 where io1: "sb_stream_io handler env st u w = Some (err, out, st1, u1, w1)"
      using Cons.prems(1) by (auto split: option.splits)
    define st2 where "st2 = (if stream_expired srv st1 then sb_stream_close st1 else st1)"
    have k: "kept st w st1 w1" "kept st w st2 w1" using postD [OF io [OF ok] io1] by (auto simp: st2_def)
    have ok1: "streams_ok sts (base + fds_of st2) w1" "live_http w1 = live_http w" "stream_ok st2"
      "streams_ok (st1 # sts) base w1"
      using k rest by (auto simp: kept_def streams_ok_def)
    show "case y of (err, out, sts', u', w') \<Rightarrow> streams_ok sts' base w' \<and> live_http w' = live_http w"
    proof (cases "err \<noteq> SB_ESUCCESS")
      case True
      then show ?thesis using y io1 ok1 Cons.prems(1) by auto
    next
      case False
      show ?thesis
      proof (cases "st_state st2 = STATE_CLOSING")
        case True
        then obtain u2 w2 where d: "sb_stream_destroy handler st2 u1 w1 = Some (u2, w2)"
          using y io1 False Cons.prems(1) by (auto simp: st2_def Let_def split: option.splits)
        from postD [OF destroy [OF ok1(3)] d] ok1 have "streams_ok sts base w2" "live_http w2 = live_http w"
          by (auto simp: streams_ok_def)
        with Cons.IH [OF Cons.prems(1) this(1), of u2] y io1 False True d Cons.prems(1) show ?thesis
          by (auto simp: st2_def [symmetric] Let_def post_def)
      next
        case going: False
        from Cons.IH [OF Cons.prems(1) ok1(1), of u1] y io1 False going ok1(2,3) Cons.prems(1) show ?thesis
          by (force simp: st2_def [symmetric] Let_def post_def streams_ok_def)
      qed
    qed
  qed
qed

lemma accept_ok:
  "streams_ok sts base w \<Longrightarrow> post (accept_streams handler now fds sts u w)
     (\<lambda>(err, sts', u', w'). streams_ok sts' base w' \<and> live_http w' = live_http w)"
proof (induction fds arbitrary: sts u w)
  case Nil
  then show ?case by (simp add: post_def)
next
  case (Cons c fds)
  obtain fd peer where c: "c = (fd, peer)" by fastforce
  show ?case
    unfolding c
  proof (rule postI)
    fix y
    assume y: "accept_streams handler now ((fd, peer) # fds) sts u w = Some y"
    let ?w = "w\<lparr>open_fds := open_fds w + 1\<rparr>"
    obtain r w1 where n: "sb_stream_new now fd peer ?w = (r, w1)" by fastforce
    then have w1: "open_fds w1 = open_fds w + 1" "live_http w1 = live_http w"
      by (auto simp: sb_stream_new_def Let_def c_alloc_def take_fault_def split: prod.splits if_splits list.splits option.splits)
    have fresh: "stream_ok st \<and> fds_of st = 1" if "r = Some st" for st
      using n that by (auto simp: sb_stream_new_def stream_ok_def buf_ok_def sb_buffer_init_def fds_of_def Let_def
          split: prod.splits if_splits)
    show "case y of (err, sts', u', w') \<Rightarrow> streams_ok sts' base w' \<and> live_http w' = live_http w"
    proof (cases "FD_SETSIZE < fd \<or> r = None")
      case True
      then have "y = (SB_EFDTOOBIG, sts, u, close_fd ?w) \<or> y = (SB_EOUTOFMEM, sts, u, close_fd w1)"
        using y n by (auto simp: Let_def split: if_splits)
      then show ?thesis using w1 Cons.prems by (auto simp: streams_ok_def close_fd_def)
    next
      case False
      then obtain st where st: "r = Some st" by auto
      then obtain err st1 u1 w2 where e: "sb_stream_emit handler EV_CONNECT st u w1 = Some (err, st1, u1, w2)"
        using y n False by (auto simp: Let_def split: option.splits)
      from postD [OF emit e] fresh [OF st] have "kept st w1 st1 w2" by simp
      with fresh [OF st] w1 Cons.prems have "streams_ok (st1 # sts) base w2" "live_http w2 = live_http w"
        by (auto simp: kept_def streams_ok_def)
      with Cons.IH [OF this(1), of u1] y n st e False show ?thesis
        by (auto simp: Let_def post_def split: if_splits)
    qed
  qed
qed

lemma poll_ok:
  assumes "srv_handler srv = handler" "server_ok srv base w"
  shows "post (sb_poll_server srv env w) (\<lambda>(err, out, srv', w'). server_ok srv' base w' \<and> live_http w' = live_http w
    \<and> srv_handler srv' = handler)"
proof -
  have "streams_ok (srv_streams srv) base w" using assms(2) by (simp add: server_ok_def)
  note p = poll_streams_ok [OF _ this, of "srv\<lparr>srv_now := pe_now env\<rparr>" env "srv_udata srv"]
  show ?thesis
    unfolding sb_poll_server_def
    by (intro hive_post | (rule post_call, simp, rule p, simp add: assms(1)) | (rule post_call, simp add: assms(1), rule accept_ok, force)
        | ((use assms(1) in \<open>auto simp: server_ok_def\<close>)[1]; fail))+
qed

lemma close_ok:
  assumes "srv_handler srv = handler" "server_ok srv base w"
  shows "post (sb_close_server srv w) (\<lambda>(u, w'). live_http w' = live_http w \<and> open_fds w' = base)"
proof -
  have "streams_ok (srv_streams srv) base w" using assms(2) by (simp add: server_ok_def)
  note d = destroy_all [OF this, of "srv_udata srv"]
  show ?thesis
    unfolding sb_close_server_def assms(1)
    by (intro hive_post | rule post_call [OF d] | ((auto simp: close_fd_def)[1]; fail))+
qed

end

section \<open>The largest descriptor\<close>

text \<open>C22: The check of an accepted descriptor is off by one: \<open>FD_SETSIZE\<close> itself is
  accepted with success, and every later round then writes outside the descriptor sets, which has no
  result.\<close>

theorem descriptor_at_limit:
  assumes "srv_streams srv = []" and "srv_sockfd srv < FD_SETSIZE" and "faults w = []" and "pe_accept env = [(FD_SETSIZE, peer)]"
    and "\<And>st u w. srv_handler srv EV_CONNECT st u w = Some (SB_RES_OK, st, u, w)"
  shows "\<exists>srv' w'. sb_poll_server srv env w = Some (SB_ESUCCESS, [], srv', w') \<and> (\<forall>env' w''. sb_poll_server srv' env' w'' = None)"
  using assms
  by (auto simp: sb_poll_server_def sb_stream_new_def c_alloc_def take_fault_def sb_stream_emit_def SB_RES_OK_def SB_RES_CLOSE_def Let_def)

lemma descriptor_at_limit_witness:
  "let srv = \<lparr>srv_streams = [], srv_handler = (\<lambda>e st u w. Some (SB_RES_OK, st, u, w)), srv_sockfd = 3, srv_udata = (),
       srv_now = 0, srv_timeout = 30000, srv_max_lifetime = 0, srv_max_request_size = 0\<rparr>;
     env = \<lparr>pe_now = 5, pe_recv = (\<lambda>_. None), pe_send = (\<lambda>_. None), pe_accept = [(1024, Some (False, ''10.0.0.9''))]\<rparr> in
   \<exists>srv' w'. sb_poll_server srv env (calm_world ()) = Some (0, [], srv', w') \<and> (\<forall>env' w''. sb_poll_server srv' env' w'' = None)"
  unfolding Let_def SB_ESUCCESS_def [symmetric] FD_SETSIZE_def [symmetric]
  by (rule descriptor_at_limit) (simp_all add: FD_SETSIZE_def)

end
