(* ===== verification/Hive_Redirect.thy ===== *)
theory Hive_Redirect
  imports Hive_Sandbird_Server
begin

text \<open>
  The local web server that waits for the redirect of the browser (\<open>src/src/oauth/oauth_token.c\<close>):
  the event handler \<open>handle_auth_redirect\<close> and the loop that polls the server, on top of the
  embedded server.

  \<^item> The data behind \<open>udata\<close> that the handler writes are the flag \<open>stop\<close> and the code buffer (its
    contents up to the NUL that ends what was written last); the path it compares with and the
    size of the buffer are its first arguments.
  \<^item> The rounds of \<open>select\<close> are a list; when it ends the server waits for ever.
\<close>

definition handle_auth_redirect :: "string \<Rightarrow> nat \<Rightarrow> (bool \<times> bytes, 'r) sb_Handler" where
  "handle_auth_redirect path sz e st ud w =
     (case ud of (stop, code) \<Rightarrow>
       (case e of
          EV_CONNECT \<Rightarrow> Some (SB_RES_OK, st, (stop, code), w)
        | EV_CLOSE \<Rightarrow> Some (SB_RES_OK, st, (True, code), w)
        | EV_REQUEST meth p \<Rightarrow>
            (if p \<noteq> path
             then Some (SB_RES_OK, st, (stop, code), hive_set_error (int_of_error (HIVE_GENERAL_ERROR HIVEERR_BAD_ADDRESS)) w)
             else do {
               (rc, code') \<leftarrow> sb_get_var (buf_s (recv_buf st)) (data_idx st) ''code'' sz;
               if rc \<noteq> SB_ESUCCESS
               then Some (SB_RES_OK, st, (stop, code'), hive_set_error (int_of_error (HIVE_GENERAL_ERROR HIVEERR_INVALID_CREDENTIAL)) w)
               else do {
                 (_, st', w') \<leftarrow> sb_send_status st 200 ''OK'' w;
                 Some (SB_RES_OK, st', (stop, code'), w')
               }
             })))"

type_synonym 'r redirect_server = "(bool \<times> bytes, 'r) sb_Server"

text \<open>\<open>while (!stopped) sb_poll_server(server, 300*1000)\<close>; the result also collects what was sent.\<close>

fun auth_loop :: "poll_env list \<Rightarrow> 'r redirect_server \<Rightarrow> 'r world \<Rightarrow> (bytes \<times> 'r redirect_server \<times> 'r world) option" where
  "auth_loop [] srv w = (if fst (srv_udata srv) then Some ([], srv, w) else None)"
| "auth_loop (env # polls) srv w =
     (if fst (srv_udata srv) then Some ([], srv, w)
      else (case sb_poll_server srv env w of
        None \<Rightarrow> None
      | Some (_, out, srv1, w1) \<Rightarrow>
          map_option (\<lambda>(out', srv2, w2). (out @ out', srv2, w2)) (auth_loop polls srv1 w1)))"

definition redirect_options :: "string \<Rightarrow> string \<Rightarrow> string \<Rightarrow> nat \<Rightarrow> (bool \<times> bytes, 'r) sb_Options" where
  "redirect_options host port path sz =
     \<lparr>opt_handler = handle_auth_redirect path sz, opt_udata = (False, []), opt_host = host, opt_port = port,
      opt_timeout = None, opt_max_lifetime = None, opt_max_request_size = None\<rparr>"

section \<open>Descriptors\<close>

lemma post_emitted [hive_post]:
  "(e = EV_CONNECT \<Longrightarrow> post m P) \<Longrightarrow> (e = EV_CLOSE \<Longrightarrow> post n P) \<Longrightarrow>
     (\<And>meth p. e = EV_REQUEST meth p \<Longrightarrow> post (f meth p) P) \<Longrightarrow>
     post (case e of EV_CONNECT \<Rightarrow> m | EV_CLOSE \<Rightarrow> n | EV_REQUEST meth p \<Rightarrow> f meth p) P"
  by (cases e) simp_all

interpretation redirect: sb_handler "handle_auth_redirect path sz"
proof
  fix st :: sb_Stream and e u and w :: "'r world"
  assume ok: "stream_ok st"
  show "post (handle_auth_redirect path sz e st u w) (\<lambda>(res, st', u', w'). kept st w st' w')"
    unfolding handle_auth_redirect_def
    by (intro hive_post | rule post_call [OF status_kept [OF ok]] | (rule postI, intro hive_post)
        | ((use kept_refl [OF ok] in \<open>auto simp: kept_def\<close>)[1]; fail))+
qed

lemma auth_loop_ok:
  "srv_handler srv = handle_auth_redirect path sz \<Longrightarrow> server_ok srv base w \<Longrightarrow> post (auth_loop polls srv w)
     (\<lambda>(out, srv', w'). server_ok srv' base w' \<and> live_http w' = live_http w \<and> srv_handler srv' = handle_auth_redirect path sz)"
proof (induction polls arbitrary: srv w)
  case Nil
  then show ?case by (simp add: post_def)
next
  case (Cons env polls)
  show ?case
  proof (rule postI)
    fix y
    assume y: "auth_loop (env # polls) srv w = Some y"
    show "case y of (out, srv', w') \<Rightarrow> server_ok srv' base w' \<and> live_http w' = live_http w \<and> srv_handler srv' = handle_auth_redirect path sz"
    proof (cases "fst (srv_udata srv)")
      case True
      then show ?thesis using y Cons.prems by auto
    next
      case False
      then obtain err out srv1 w1 where p: "sb_poll_server srv env w = Some (err, out, srv1, w1)"
        using y by (auto split: option.splits)
      from postD [OF redirect.poll_ok [OF Cons.prems] p]
      have 1: "srv_handler srv1 = handle_auth_redirect path sz" "server_ok srv1 base w1" "live_http w1 = live_http w" by auto
      from Cons.IH [OF 1(1,2)] y p False 1(3) show ?thesis by (auto simp: post_def)
    qed
  qed
qed

lemma new_server_ok:
  "sb_new_server net opt w = (Some srv, w') \<Longrightarrow> server_ok srv (open_fds w) w' \<and> live_http w' = live_http w
     \<and> srv_handler srv = opt_handler opt"
  "sb_new_server net opt w = (None, w') \<Longrightarrow> held w' = held w"
  by (auto simp: sb_new_server_def server_ok_def streams_ok_def c_alloc_def take_fault_def close_fd_def Let_def
      split: if_splits option.splits list.splits prod.splits)

text \<open>C17: From the socket the redirect server opens to its closing, whatever clients connect, send and
  read in between and whatever allocations fail: the descriptors of the listening socket, of every
  accepted connection and of every file being sent are all closed, and no other is.\<close>

theorem redirect_server_balanced:
  assumes "sb_new_server net (redirect_options host port path sz) w = (Some srv, w1)"
    and "auth_loop polls srv w1 = Some (out, srv', w2)" and "sb_close_server srv' w2 = Some (ud, w3)"
  shows "held w3 = held w"
proof -
  have 1: "server_ok srv (open_fds w) w1" "live_http w1 = live_http w" "srv_handler srv = handle_auth_redirect path sz"
    using new_server_ok(1) [OF assms(1)] by (auto simp: redirect_options_def)
  from postD [OF auth_loop_ok [OF 1(3,1)] assms(2)]
  have 2: "server_ok srv' (open_fds w) w2" "live_http w2 = live_http w" "srv_handler srv' = handle_auth_redirect path sz"
    using 1(2) by auto
  from postD [OF redirect.close_ok [OF 2(3,1)] assms(3)] 2(2) show ?thesis by simp
qed

section \<open>A browser that follows the redirect\<close>

text \<open>Rounds in which one thing happens: a connection, bytes from the browser, room in the socket.\<close>

definition connect_round :: "int \<Rightarrow> nat \<Rightarrow> poll_env" where
  "connect_round now fd = \<lparr>pe_now = now, pe_recv = (\<lambda>_. None), pe_send = (\<lambda>_. None), pe_accept = [(fd, Some (False, ''127.0.0.1''))]\<rparr>"

definition read_round :: "int \<times> bytes \<Rightarrow> poll_env" where
  "read_round p = \<lparr>pe_now = fst p, pe_recv = (\<lambda>_. Some [Received (snd p)]), pe_send = (\<lambda>_. None), pe_accept = []\<rparr>"

definition write_round :: "int \<times> nat \<Rightarrow> poll_env" where
  "write_round p = \<lparr>pe_now = fst p, pe_recv = (\<lambda>_. None), pe_send = (\<lambda>_. Some (Room (snd p))), pe_accept = []\<rparr>"

lemmas round_defs = connect_round_def read_round_def write_round_def

text \<open>The server with one stream, before the stream is closed.\<close>

definition serving :: "'r redirect_server \<Rightarrow> string \<Rightarrow> nat \<Rightarrow> bytes \<Rightarrow> sb_Stream \<Rightarrow> bool" where
  "serving srv path sz code st \<longleftrightarrow> srv_streams srv = [st] \<and> srv_handler srv = handle_auth_redirect path sz
     \<and> srv_udata srv = (False, code) \<and> srv_sockfd srv < FD_SETSIZE \<and> st_sockfd st < FD_SETSIZE
     \<and> srv_timeout srv = 30000 \<and> srv_max_lifetime srv = 0 \<and> srv_max_request_size srv = 0 \<and> send_fp st = None"

lemma poll_going:
  assumes "serving srv path sz code st" "pe_accept env = []"
    and "sb_stream_io (handle_auth_redirect path sz) env st (False, code) w = Some (SB_ESUCCESS, out, st1, (False, code1), w1)"
    and "st_state st1 \<noteq> STATE_CLOSING" "last_activity st1 = pe_now env" "st_sockfd st1 = st_sockfd st" "send_fp st1 = None"
  shows "\<exists>srv1. sb_poll_server srv env w = Some (SB_ESUCCESS, out, srv1, w1) \<and> serving srv1 path sz code1 st1"
  using assms by (auto simp: sb_poll_server_def serving_def stream_expired_def Let_def)

lemma poll_gone:
  assumes "serving srv path sz code st" "pe_accept env = []"
    and "sb_stream_io (handle_auth_redirect path sz) env st (False, code) w = Some (SB_ESUCCESS, out, st1, (False, code), w1)"
    and "st_state st1 = STATE_CLOSING"
  shows "\<exists>srv1 w2. sb_poll_server srv env w = Some (SB_ESUCCESS, out, srv1, w2) \<and> srv_streams srv1 = [] \<and> srv_udata srv1 = (True, code)"
  using assms
  by (auto simp: sb_poll_server_def serving_def sb_stream_destroy_def sb_stream_emit_def handle_auth_redirect_def hive_const
      sb_stream_close_def Let_def)

lemma connected:
  assumes "srv_streams srv = []" "srv_handler srv = handle_auth_redirect path sz" "srv_udata srv = (False, code)"
    "srv_sockfd srv < FD_SETSIZE" "fd < FD_SETSIZE" "srv_timeout srv = 30000" "srv_max_lifetime srv = 0"
    "srv_max_request_size srv = 0" "faults w = []"
  shows "\<exists>srv1 st w1. sb_poll_server srv (connect_round now fd) w = Some (SB_ESUCCESS, [], srv1, w1)
    \<and> serving srv1 path sz code st \<and> header_so_far st [] \<and> buf_data (send_buf st) = [] \<and> data_idx st = 0 \<and> faults w1 = []"
proof -
  have "0 < FD_SETSIZE" by (simp add: hive_const)
  then show ?thesis
    using assms
    by (auto simp: sb_poll_server_def round_defs sb_stream_new_def c_alloc_def take_fault_def sb_stream_emit_def handle_auth_redirect_def
        SB_RES_OK_def SB_RES_CLOSE_def serving_def header_so_far_def stream_ok_def buf_ok_def sb_buffer_init_def Let_def)
qed

lemma reading:
  assumes "header_so_far st d"
  shows "sb_stream_io h (read_round (now, cs)) st u w
    = map_option (\<lambda>(err, st', u', w'). (err, [], st', u', w')) (sb_stream_recv h now [Received cs] st u w)"
  using assms by (auto simp: sb_stream_io_def header_so_far_def less_eq_stream_state_def read_round_def map_option_case
      split: option.splits prod.splits)

lemma read_more:
  assumes "serving srv path sz code st" "header_so_far st d" "faults w = []"
    and "\<And>k. k < length cs \<Longrightarrow> \<not> ends_header (d @ take (Suc k) cs)"
  shows "\<exists>srv1 st1 w1. sb_poll_server srv (read_round (now, cs)) w = Some (SB_ESUCCESS, [], srv1, w1)
    \<and> serving srv1 path sz code st1 \<and> header_so_far st1 (d @ cs) \<and> send_buf st1 = send_buf st \<and> data_idx st1 = data_idx st
    \<and> faults w1 = []"
proof -
  let ?st = "st\<lparr>last_activity := now\<rparr>"
  have "header_so_far ?st d" using assms(2) by (simp add: header_so_far_def stream_ok_def)
  then obtain st1 w1 b where 1: "recv_bytes (handle_auth_redirect path sz) cs ?st (False, code) w = Some (None, st1, (False, code), w1)"
    "header_so_far st1 (d @ cs)" "faults w1 = []" "st1 = ?st\<lparr>recv_buf := b\<rparr>"
    using header_bytes [OF _ assms(3,4), of ?st "handle_auth_redirect path sz" "(False, code)"] by auto
  then have io: "sb_stream_io (handle_auth_redirect path sz) (read_round (now, cs)) st (False, code) w
      = Some (SB_ESUCCESS, [], st1, (False, code), w1)"
    by (simp add: reading [OF assms(2)])
  have "send_fp st = None" using assms(1) by (simp add: serving_def)
  then obtain srv1 where "sb_poll_server srv (read_round (now, cs)) w = Some (SB_ESUCCESS, [], srv1, w1)" "serving srv1 path sz code st1"
    using poll_going [OF assms(1) _ io] 1(2,4) by (auto simp: read_round_def header_so_far_def)
  then show ?thesis using 1(2-4) by (intro exI [of _ srv1] exI [of _ st1] exI [of _ w1]) simp
qed

text \<open>What the handler leaves for the browser: the status line when it stored the code.\<close>

definition reply :: "int \<Rightarrow> bytes" where
  "reply rc = (if rc = SB_ESUCCESS then status_line 200 ''OK'' else [])"

lemma read_last:
  assumes "serving srv path sz code st" "header_so_far st d" "faults w = []" "bare_request (d @ cs) meth path" "cs \<noteq> []"
    and "buf_data (send_buf st) = []"
    and var: "\<And>rest. sb_get_var ((d @ cs) @ NUL # rest) (data_idx st) ''code'' sz = Some (rc, code1)"
  shows "\<exists>srv1 st1 w1. sb_poll_server srv (read_round (now, cs)) w = Some (SB_ESUCCESS, [], srv1, w1)
    \<and> serving srv1 path sz code1 st1 \<and> stream_ok st1 \<and> STATE_SENDING_STATUS \<le> st_state st1 \<and> st_state st1 \<noteq> STATE_CLOSING
    \<and> buf_data (send_buf st1) = reply rc \<and> faults w1 = []"
proof -
  let ?h = "handle_auth_redirect path sz" and ?u = "(False, code)"
  obtain st1 w1 where 1: "sb_stream_recv ?h now [Received cs] st ?u w = sb_stream_emit ?h (EV_REQUEST meth path) st1 ?u w1"
    "requested (st\<lparr>last_activity := now\<rparr>) (d @ cs) st1" "faults w1 = []"
    using request_bytes [OF assms(2-5), of ?h now ?u] by blast
  then have r: "st_state st1 = STATE_SENDING_STATUS" "stream_ok st1" "st_sockfd st1 = st_sockfd st" "send_fp st1 = None"
    "last_activity st1 = now" "buf_data (send_buf st1) = []" "sb_get_var (buf_s (recv_buf st1)) (data_idx st1) ''code'' sz = Some (rc, code1)"
    using assms(1,6) var by (auto simp: requested_def serving_def)
  obtain st2 w2 where 2: "answered st1 (status_line 200 ''OK'') STATE_SENDING_HEADER (sb_send_status st1 200 ''OK'' w1) st2 w2"
    using status_answered [OF r(2) 1(3) r(1)] by blast
  have fr: "send_fp st2 = None \<and> last_activity st2 = last_activity st1 \<and> st_sockfd st2 = st_sockfd st1"
    using 2 r(4) by (auto simp: answered_def sb_send_status_def bind_eq_Some_iff split: if_splits)
  define st3 where "st3 = (if rc = SB_ESUCCESS then st2 else st1)"
  define w3 where "w3 = (if rc = SB_ESUCCESS then w2
    else hive_set_error (int_of_error (HIVE_GENERAL_ERROR HIVEERR_INVALID_CREDENTIAL)) w1)"
  have "sb_stream_emit ?h (EV_REQUEST meth path) st1 ?u w1 = Some (SB_ESUCCESS, st3, (False, code1), w3)"
    using r(7) 2 by (auto simp: sb_stream_emit_def handle_auth_redirect_def answered_def st3_def w3_def hive_const)
  then have io: "sb_stream_io ?h (read_round (now, cs)) st ?u w = Some (SB_ESUCCESS, [], st3, (False, code1), w3)"
    by (simp add: reading [OF assms(2)] 1(1) del: sb_stream_recv.simps)
  have st3: "stream_ok st3" "STATE_SENDING_STATUS \<le> st_state st3" "st_state st3 \<noteq> STATE_CLOSING"
    "buf_data (send_buf st3) = reply rc" "last_activity st3 = now" "st_sockfd st3 = st_sockfd st" "send_fp st3 = None" "faults w3 = []"
    using 2 r fr 1(3) by (auto simp: st3_def w3_def answered_def reply_def less_eq_stream_state_def hive_set_error_def)
  then obtain srv1 where "sb_poll_server srv (read_round (now, cs)) w = Some (SB_ESUCCESS, [], srv1, w3)" "serving srv1 path sz code1 st3"
    using poll_going [OF assms(1) _ io] by (auto simp: read_round_def)
  with st3 show ?thesis by blast
qed

text \<open>Writing: the server sends what is pending, then closes the stream, and the loop ends.\<close>

lemma write_io:
  assumes "stream_ok st" "faults w = []" "STATE_SENDING_STATUS \<le> st_state st" "st_state st \<noteq> STATE_CLOSING" "send_fp st = None" "0 < n"
  shows "\<exists>out st1. sb_stream_io h (write_round (now, n)) st u w = Some (SB_ESUCCESS, out, st1, u, w)
    \<and> out @ buf_data (send_buf st1) = buf_data (send_buf st) \<and> stream_ok st1 \<and> st_sockfd st1 = st_sockfd st \<and> send_fp st1 = None
    \<and> (if buf_data (send_buf st) = [] then st_state st1 = STATE_CLOSING
       else st_state st1 = st_state st \<and> last_activity st1 = now \<and> out \<noteq> [])"
proof (cases "buf_data (send_buf st) = []")
  case True
  have "buf_ok (send_buf st)" using assms(1) by (simp add: stream_ok_def)
  then have "buf_len (send_buf st) = 0" using True length_buf_data by fastforce
  then show ?thesis
    using True assms by (auto simp: sb_stream_io_def write_round_def sb_stream_send_def sb_stream_close_def stream_ok_def)
next
  case False
  then have pos: "0 < buf_len (send_buf st)" by auto
  obtain out st1 where s: "send_data now (Room n) st = Some (out, st1)" "kept st w st1 w" "send_fp st1 = send_fp st"
    "out @ buf_data (send_buf st1) = buf_data (send_buf st)" "out \<noteq> []" "st_state st1 = st_state st"
    using send_data_spec [OF assms(1), of now "Room n" w n] assms(6) pos by auto
  have "last_activity st1 = now"
    using s(1) assms(6) pos by (auto simp: send_data_def bind_eq_Some_iff Let_def split: if_splits)
  then show ?thesis
    using s pos False assms(3,5) by (auto simp: sb_stream_io_def write_round_def sb_stream_send_def kept_def)
qed

lemma write_out:
  "serving srv path sz code st \<Longrightarrow> stream_ok st \<Longrightarrow> faults w = [] \<Longrightarrow> STATE_SENDING_STATUS \<le> st_state st \<Longrightarrow>
   st_state st \<noteq> STATE_CLOSING \<Longrightarrow> \<forall>p \<in> set writes. 0 < snd p \<Longrightarrow> length (buf_data (send_buf st)) < length writes \<Longrightarrow>
   \<exists>srv1 w1. auth_loop (map write_round writes) srv w = Some (buf_data (send_buf st), srv1, w1)
     \<and> srv_streams srv1 = [] \<and> srv_udata srv1 = (True, code)"
proof (induction writes arbitrary: srv st)
  case (Cons p writes)
  obtain now n where p: "p = (now, n)" by fastforce
  have fp: "send_fp st = None" and n: "0 < n" and ud: "srv_udata srv = (False, code)" using Cons.prems p by (auto simp: serving_def)
  obtain out st1 where io: "sb_stream_io (handle_auth_redirect path sz) (write_round p) st (False, code) w
      = Some (SB_ESUCCESS, out, st1, (False, code), w)"
    and o: "out @ buf_data (send_buf st1) = buf_data (send_buf st)" "stream_ok st1" "st_sockfd st1 = st_sockfd st" "send_fp st1 = None"
    and st1: "if buf_data (send_buf st) = [] then st_state st1 = STATE_CLOSING
       else st_state st1 = st_state st \<and> last_activity st1 = now \<and> out \<noteq> []"
    using write_io [OF Cons.prems(2-5) fp n, of "handle_auth_redirect path sz" now "(False, code)"] unfolding p by blast
  have env: "pe_accept (write_round p) = []" "pe_now (write_round p) = now" by (simp_all add: write_round_def p)
  show ?case
  proof (cases "buf_data (send_buf st) = []")
    case True
    then obtain srv1 w2 where "sb_poll_server srv (write_round p) w = Some (SB_ESUCCESS, out, srv1, w2)"
      "srv_streams srv1 = []" "srv_udata srv1 = (True, code)"
      using poll_gone [OF Cons.prems(1) env(1) io] st1 by auto
    moreover from this have "auth_loop polls srv1 w2 = Some ([], srv1, w2)" for polls by (cases polls) simp_all
    ultimately show ?thesis using ud o(1) True by simp
  next
    case False
    then obtain srv1 where s: "sb_poll_server srv (write_round p) w = Some (SB_ESUCCESS, out, srv1, w)" "serving srv1 path sz code st1"
      using poll_going [OF Cons.prems(1) env(1) io] st1 Cons.prems(5) o env by auto
    have l: "length out + length (buf_data (send_buf st1)) = length (buf_data (send_buf st))"
      using arg_cong [OF o(1), of length] by simp
    have "Suc 0 \<le> length out" using st1 False by (cases out) auto
    with l have "length (buf_data (send_buf st1)) < length writes" using Cons.prems(7) by simp
    with Cons.IH [OF s(2) o(2) Cons.prems(3)] st1 False Cons.prems(4-6) obtain srv2 w2 where
      "auth_loop (map write_round writes) srv1 w = Some (buf_data (send_buf st1), srv2, w2)" "srv_streams srv2 = []" "srv_udata srv2 = (True, code)"
      by auto
    then show ?thesis using s(1) ud o(1) by simp
  qed
qed simp

lemma not_ended:
  assumes "bare_request (d @ cs @ e) meth path" "e \<noteq> []" "k < length cs"
  shows "\<not> ends_header (d @ take (Suc k) cs)"
proof -
  have "length d + Suc k < length (d @ cs @ e)" using assms(2,3) by (cases e) auto
  with assms(1) have "\<not> ends_header (take (length d + Suc k) (d @ cs @ e))" unfolding bare_request_def by blast
  then show ?thesis using assms(3) by simp
qed

lemma read_in:
  "serving srv path sz code st \<Longrightarrow> header_so_far st d \<Longrightarrow> faults w = [] \<Longrightarrow> buf_data (send_buf st) = [] \<Longrightarrow> data_idx st = 0 \<Longrightarrow>
   bare_request (d @ concat (map snd reads)) meth path \<Longrightarrow> reads \<noteq> [] \<Longrightarrow> \<forall>p \<in> set reads. snd p \<noteq> [] \<Longrightarrow>
   (\<And>rest. sb_get_var ((d @ concat (map snd reads)) @ NUL # rest) 0 ''code'' sz = Some (rc, code1)) \<Longrightarrow>
   \<exists>srv1 st1 w1. (\<forall>polls. auth_loop (map read_round reads @ polls) srv w = auth_loop polls srv1 w1)
     \<and> serving srv1 path sz code1 st1 \<and> stream_ok st1 \<and> STATE_SENDING_STATUS \<le> st_state st1 \<and> st_state st1 \<noteq> STATE_CLOSING
     \<and> buf_data (send_buf st1) = reply rc \<and> faults w1 = []"
proof (induction reads arbitrary: srv st d w)
  case (Cons p reads)
  obtain now cs where p: "p = (now, cs)" by fastforce
  have ud: "srv_udata srv = (False, code)" using Cons.prems(1) by (simp add: serving_def)
  show ?case
  proof (cases "reads = []")
    case True
    have "bare_request (d @ cs) meth path" "cs \<noteq> []" "\<And>rest. sb_get_var ((d @ cs) @ NUL # rest) (data_idx st) ''code'' sz = Some (rc, code1)"
      using Cons.prems(5,6,8,9) True p by auto
    from read_last [OF Cons.prems(1-3) this(1,2) Cons.prems(4) this(3), of now] obtain srv1 st1 w1 where
      "sb_poll_server srv (read_round p) w = Some (SB_ESUCCESS, [], srv1, w1)" "serving srv1 path sz code1 st1" "stream_ok st1"
      "STATE_SENDING_STATUS \<le> st_state st1" "st_state st1 \<noteq> STATE_CLOSING" "buf_data (send_buf st1) = reply rc" "faults w1 = []"
      unfolding p by blast
    then show ?thesis using True ud
      by (intro exI [of _ srv1] exI [of _ st1] exI [of _ w1]) (auto simp: option.map_id)
  next
    case False
    let ?more = "concat (map snd reads)"
    have "?more \<noteq> []" using False Cons.prems(8) by (cases reads) auto
    then have "\<not> ends_header (d @ take (Suc k) cs)" if "k < length cs" for k
      using not_ended [of d cs ?more meth path k] Cons.prems(6) that p by simp
    from read_more [OF Cons.prems(1-3) this, of now] obtain srv1 st1 w1 where
      1: "sb_poll_server srv (read_round p) w = Some (SB_ESUCCESS, [], srv1, w1)" "serving srv1 path sz code st1"
      "header_so_far st1 (d @ cs)" "send_buf st1 = send_buf st" "data_idx st1 = data_idx st" "faults w1 = []"
      unfolding p by blast
    have "bare_request ((d @ cs) @ ?more) meth path" "\<And>rest. sb_get_var (((d @ cs) @ ?more) @ NUL # rest) 0 ''code'' sz = Some (rc, code1)"
      "buf_data (send_buf st1) = []" "data_idx st1 = 0" "\<forall>p \<in> set reads. snd p \<noteq> []"
      using Cons.prems(4-6,8,9) 1(4,5) p by auto
    from Cons.IH [OF 1(2,3,6) this(3,4,1) False this(5,2)] obtain srv2 st2 w2 where
      2: "\<forall>polls. auth_loop (map read_round reads @ polls) srv1 w1 = auth_loop polls srv2 w2" "serving srv2 path sz code1 st2" "stream_ok st2"
      "STATE_SENDING_STATUS \<le> st_state st2" "st_state st2 \<noteq> STATE_CLOSING" "buf_data (send_buf st2) = reply rc" "faults w2 = []"
      by blast
    then show ?thesis using 1(1) ud
      by (intro exI [of _ srv2] exI [of _ st2] exI [of _ w2]) (auto simp: option.map_id)
  qed
qed simp

text \<open>The request line of a redirect: \<open>pre\<close> up to the query, the other variables, the code, the rest of
  the request.\<close>

definition redirect_text :: "string \<Rightarrow> string list \<Rightarrow> string \<Rightarrow> string \<Rightarrow> bytes" where
  "redirect_text pre vars code rest =
     pre @ ''?'' @ concat (map (\<lambda>v. v @ ''&'') vars) @ ''code'' @ ''='' @ pct_encode code @ rest"

definition redirect_request :: "string \<Rightarrow> string list \<Rightarrow> string \<Rightarrow> string \<Rightarrow> string \<Rightarrow> bool" where
  "redirect_request pre vars code rest path \<longleftrightarrow> set pre \<inter> {CHR ''?'', CR, NUL} = {} \<and> other_vars ''code'' vars
     \<and> (rest = [] \<or> hd rest \<in> url_stop) \<and> (\<exists>meth. bare_request (redirect_text pre vars code rest) meth path)"

text \<open>The rounds in which a browser connects, sends \<open>req\<close> in any pieces and reads what it is sent in any
  pieces, at least \<open>n\<close> of them.\<close>

definition visit :: "bytes \<Rightarrow> nat \<Rightarrow> poll_env list \<Rightarrow> bool" where
  "visit req n polls \<longleftrightarrow> (\<exists>t fd reads writes. polls = connect_round t fd # map read_round reads @ map write_round writes
     \<and> fd < FD_SETSIZE \<and> concat (map snd reads) = req \<and> reads \<noteq> [] \<and> (\<forall>p \<in> set reads. snd p \<noteq> [])
     \<and> (\<forall>p \<in> set writes. 0 < snd p) \<and> n \<le> length writes)"

lemma ok_line: "status_line 200 ''OK'' = ''HTTP/1.1 200 OK'' @ [CR, LF]"
  by (simp add: status_line_def show_int_def show_nat.simps digit_char_def char_of_eq_iff)

lemma visited:
  assumes "srv_streams srv = []" "srv_handler srv = handle_auth_redirect path sz" "srv_udata srv = (False, [])"
    "srv_sockfd srv < FD_SETSIZE" "srv_timeout srv = 30000" "srv_max_lifetime srv = 0"
    "srv_max_request_size srv = 0" "faults w = []"
    and "redirect_request pre vars code rest path" "length code < sz"
    and "visit (redirect_text pre vars code rest) 18 polls"
  shows "\<exists>srv1 w1. auth_loop polls srv w = Some (reply (if length code = sz - 1 then SB_ETRUNCATED else SB_ESUCCESS), srv1, w1)
    \<and> srv_streams srv1 = [] \<and> srv_udata srv1 = (True, code)"
proof -
  let ?rc = "if length code = sz - 1 then SB_ETRUNCATED else SB_ESUCCESS"
  obtain t fd reads writes where polls: "polls = connect_round t fd # map read_round reads @ map write_round writes" "fd < FD_SETSIZE"
    "concat (map snd reads) = redirect_text pre vars code rest" "reads \<noteq> []" "\<forall>p \<in> set reads. snd p \<noteq> []"
    "\<forall>p \<in> set writes. 0 < snd p" "18 \<le> length writes"
    using assms(11) by (auto simp: visit_def)
  obtain meth where req: "set pre \<inter> {CHR ''?'', CR, NUL} = {}" "other_vars ''code'' vars" "rest = [] \<or> hd rest \<in> url_stop"
    "bare_request ([] @ concat (map snd reads)) meth path"
    using assms(9) polls(3) by (auto simp: redirect_request_def)
  have var: "sb_get_var (([] @ concat (map snd reads)) @ NUL # more) 0 ''code'' sz = Some (?rc, code)" for more
  proof -
    have "rest @ NUL # more = [] \<or> hd (rest @ NUL # more) = NUL \<or> hd (rest @ NUL # more) \<in> url_stop"
      using req(3) by (cases rest) auto
    from sb_get_var_value [OF req(1,2) _ this assms(10), of 0] show ?thesis by (simp add: polls(3) redirect_text_def)
  qed
  obtain srv1 st1 w1 where 1: "sb_poll_server srv (connect_round t fd) w = Some (SB_ESUCCESS, [], srv1, w1)" "serving srv1 path sz [] st1"
    "header_so_far st1 []" "buf_data (send_buf st1) = []" "data_idx st1 = 0" "faults w1 = []"
    using connected [OF assms(1-4) polls(2) assms(5-8), of t] by blast
  from read_in [OF 1(2,3,6,4,5) req(4) polls(4,5) var] obtain srv2 st2 w2 where
    2: "\<forall>polls. auth_loop (map read_round reads @ polls) srv1 w1 = auth_loop polls srv2 w2" "serving srv2 path sz code st2" "stream_ok st2"
    "STATE_SENDING_STATUS \<le> st_state st2" "st_state st2 \<noteq> STATE_CLOSING" "buf_data (send_buf st2) = reply ?rc" "faults w2 = []"
    by blast
  have "length (reply ?rc) < length writes"
    using polls(7) by (auto simp: reply_def ok_line)
  then obtain srv3 w3 where 3: "auth_loop (map write_round writes) srv2 w2 = Some (reply ?rc, srv3, w3)" "srv_streams srv3 = []" "srv_udata srv3 = (True, code)"
    using write_out [OF 2(2,3,7,4,5) polls(6)] 2(6) by auto
  with 1(1) 2(1) assms(3) show ?thesis by (simp add: polls(1) option.map_id)
qed

text \<open>C16: What the browser is sent for a redirect that carries a code: the status line of a 200 answer
  and nothing else, then the connection is closed. The header of the response is never ended with an
  empty line, because the handler calls \<open>sb_send_status\<close> only.\<close>

theorem redirect_answered:
  assumes "sb_new_server net (redirect_options host port path sz) w = (Some srv, w1)" and "faults w1 = []"
    and "srv_sockfd srv < FD_SETSIZE"
    and "redirect_request pre vars code rest path" and "length code + 1 < sz"
    and "visit (redirect_text pre vars code rest) 18 polls"
  shows "\<exists>srv' w'. auth_loop polls srv w1 = Some (''HTTP/1.1 200 OK'' @ [CR, LF], srv', w')
    \<and> srv_streams srv' = [] \<and> srv_udata srv' = (True, code)"
proof -
  have "srv_streams srv = []" "srv_handler srv = handle_auth_redirect path sz" "srv_udata srv = (False, [])"
    "srv_timeout srv = 30000" "srv_max_lifetime srv = 0" "srv_max_request_size srv = 0"
    using assms(1) by (auto simp: sb_new_server_def redirect_options_def str_to_uint_def Let_def
        split: if_splits option.splits prod.splits)
  from visited [OF this(1-3) assms(3) this(4-6) assms(2,4) _ assms(6)] assms(5)
  obtain srv' w' where "auth_loop polls srv w1 = Some (reply (if length code = sz - 1 then SB_ETRUNCATED else SB_ESUCCESS), srv', w')"
    "srv_streams srv' = []" "srv_udata srv' = (True, code)"
    by auto
  moreover have "length code \<noteq> sz - 1" using assms(5) by simp
  ultimately show ?thesis by (simp add: reply_def ok_line)
qed

section \<open>Examples\<close>

definition sample_request :: bytes where
  "sample_request = ''GET /cb?code=%43%37 HTTP/1.1'' @ [CR, LF, CR, LF]"

lemma sample_request_text: "redirect_text ''GET /cb'' [] ''C7'' ('' HTTP/1.1'' @ [CR, LF, CR, LF]) = sample_request"
  by code_simp

lemma sample_request_bare: "bare_request sample_request ''GET'' ''/cb''"
proof -
  have "ends_header sample_request" by code_simp
  moreover have "list_all (\<lambda>k. \<not> ends_header (take k sample_request)) [0..<length sample_request]" by code_simp
  then have "\<forall>k < length sample_request. \<not> ends_header (take k sample_request)" by (simp add: list_all_iff)
  moreover have "NUL \<notin> set sample_request" by code_simp
  moreover have "find_header_value sample_request ''Content-Length'' = Some None"
    by (subst find_header_value.simps, subst find_header_value.simps)
      (simp add: sample_request_def mem_equal_def mem_case_equal_def str_from_def c_tolower_def)
  moreover have "scan_request sample_request = Some (''GET'', 4, ''HTTP/1.1'')" by code_simp
  moreover have "url_decode (drop 4 sample_request) PATH_SIZE = Some (0, ''/cb'')" by code_simp
  moreover have "mem_equal ''HTTP/1.1'' ''HTTP''" "''/cb'' = takeWhile (\<lambda>c. c \<noteq> NUL) ''/cb''" by code_simp+
  ultimately show ?thesis unfolding bare_request_def by blast
qed

lemma sample_redirect: "redirect_request ''GET /cb'' [] ''C7'' ('' HTTP/1.1'' @ [CR, LF, CR, LF]) ''/cb''"
  unfolding redirect_request_def sample_request_text
  using sample_request_bare by (auto simp: other_vars_def url_stop_def)

definition sample_polls :: "poll_env list" where
  "sample_polls = connect_round 0 4 # map read_round [(1, take 10 sample_request), (2, drop 10 sample_request)]
     @ map write_round (replicate 18 (3, 5))"

lemma sample_visit: "visit (redirect_text ''GET /cb'' [] ''C7'' ('' HTTP/1.1'' @ [CR, LF, CR, LF])) 18 sample_polls"
  unfolding visit_def sample_polls_def sample_request_text
  by (intro exI [of _ 0] exI [of _ 4] exI [of _ "[(1, take 10 sample_request), (2, drop 10 sample_request)]"]
      exI [of _ "replicate 18 (3, 5)"]) (simp add: sample_request_def FD_SETSIZE_def)

definition sample_net :: "bool \<Rightarrow> net" where
  "sample_net up = \<lparr>net_getaddrinfo = (\<lambda>_ _. up), net_socket = Some 3, net_bind = True, net_listen = True\<rparr>"

definition sample_server :: "unit redirect_server \<times> unit world" where
  "sample_server = (case sb_new_server (sample_net True) (redirect_options ''h'' ''p'' ''/cb'' 512) (calm_world ()) of
     (Some srv, w) \<Rightarrow> (srv, w))"

lemma sample_server:
  "sb_new_server (sample_net True) (redirect_options ''h'' ''p'' ''/cb'' 512) (calm_world ()) = (Some (fst sample_server), snd sample_server)"
  "faults (snd sample_server) = []" "srv_sockfd (fst sample_server) = 3"
  by (simp_all add: sample_server_def sb_new_server_def sample_net_def redirect_options_def c_alloc_def take_fault_def)

lemma redirect_answered_witness:
  "\<exists>srv' w'. auth_loop sample_polls (fst sample_server) (snd sample_server) = Some (''HTTP/1.1 200 OK'' @ [CR, LF], srv', w')
    \<and> srv_streams srv' = [] \<and> srv_udata srv' = (True, ''C7'')"
  by (rule redirect_answered [OF sample_server(1,2) _ sample_redirect _ sample_visit]) (simp_all add: sample_server(3) FD_SETSIZE_def)

lemma sample_server_fields:
  "srv_streams (fst sample_server) = []" "srv_handler (fst sample_server) = handle_auth_redirect ''/cb'' 512"
  "srv_udata (fst sample_server) = (False, [])" "srv_timeout (fst sample_server) = 30000"
  "srv_max_lifetime (fst sample_server) = 0" "srv_max_request_size (fst sample_server) = 0"
  by (simp_all add: sample_server_def sb_new_server_def sample_net_def redirect_options_def c_alloc_def take_fault_def str_to_uint_def)

lemma redirect_server_balanced_witness:
  "\<exists>out srv' w2 ud w3. auth_loop sample_polls (fst sample_server) (snd sample_server) = Some (out, srv', w2)
    \<and> sb_close_server srv' w2 = Some (ud, w3) \<and> held w3 = held (calm_world ())"
proof -
  have fd: "srv_sockfd (fst sample_server) < FD_SETSIZE" by (simp add: sample_server(3) FD_SETSIZE_def)
  have "length ''C7'' < 512" by simp
  from visited [OF sample_server_fields(1-3) fd sample_server_fields(4-6) sample_server(2) sample_redirect this sample_visit]
  obtain out srv' w2 where l: "auth_loop sample_polls (fst sample_server) (snd sample_server) = Some (out, srv', w2)" "srv_streams srv' = []"
    by blast
  then obtain ud w3 where c: "sb_close_server srv' w2 = Some (ud, w3)" by (simp add: sb_close_server_def)
  from redirect_server_balanced [OF sample_server(1) l(1) c] l(1) c show ?thesis by blast
qed

end
