(* ===== verification/Hive_OAuth.thy ===== *)
theory Hive_OAuth
  imports Hive_Json Hive_Redirect
begin

text \<open>
  OAuth tokens (\<open>src/src/oauth/oauth_token.c\<close>): restoring them from the key store, asking the
  user for an authorization code, redeeming and refreshing tokens, expiry.

  \<^item> \<open>oauth_token\<close> is the structure of the same name.  \<open>writeback_cb\<close> stands for the callback and
    its \<open>user_data\<close>: given the JSON object it works on the world.
  \<^item> The user and the authorization server are a parameter of type \<open>auth_env\<close>: what the network
    answers when the local server is set up, whether the thread starts, and the rounds of the
    local server after the user was shown the URL.
  \<^item> Each operation returns the C result, the token and the world.
\<close>

section \<open>State\<close>

record ('j, 'r) oauth_token =
  authorize_url :: string
  token_url :: string
  client_id :: string
  scope :: string
  redirect_url :: string
  token_type :: "string option"
  access_token :: "string option"
  refresh_token :: "string option"
  expires_at :: "int \<times> int"
  writeback_cb :: "'j \<Rightarrow> 'r world \<Rightarrow> (int \<times> 'r world) option"

record 'j oauth_options =
  opt_authorize_url :: string
  opt_token_url :: string
  opt_client_id :: string
  opt_scope :: string
  opt_redirect_url :: string
  opt_store :: "'j option"

record 'r auth_env =
  ae_net :: net
  ae_thread_rc :: int
  ae_polls :: "string \<Rightarrow> 'r \<Rightarrow> poll_env list \<times> 'r"

section \<open>Persisting and restoring\<close>

definition writeback_tokens ::
  "('j, 'r) ext \<Rightarrow> ('j, 'r) oauth_token \<Rightarrow> 'r world \<Rightarrow> 'r world option" where
  "writeback_tokens X tok w =
     (let (ok, w1) = c_alloc w in
      if \<not> ok then Some w1
      else (let j = json_add (cJSON_AddStringToObject X) ''client_id'' (client_id tok) (cJSON_CreateObject X) in do {
        j2 \<leftarrow> (case token_type tok of
                None \<Rightarrow> Some j
              | Some tt \<Rightarrow> do {
                  at \<leftarrow> access_token tok;
                  rt \<leftarrow> refresh_token tok;
                  Some (json_add (cJSON_AddNumberToObject X) ''expires_at'' (fst (expires_at tok))
                        (json_add (cJSON_AddStringToObject X) ''refresh_token'' rt
                        (json_add (cJSON_AddStringToObject X) ''access_token'' at
                        (json_add (cJSON_AddStringToObject X) ''token_type'' tt j))))
                });
        (rc, w2) \<leftarrow> writeback_cb tok j2 w1;
        Some w2
      }))"

definition restore_access_token ::
  "('j, 'r) ext \<Rightarrow> 'j option \<Rightarrow> ('j, 'r) oauth_token \<Rightarrow> 'r world
     \<Rightarrow> (int \<times> ('j, 'r) oauth_token \<times> 'r world) option" where
  "restore_access_token X store tok w =
     (case store of
        None \<Rightarrow> Some (0, tok, w)
      | Some json \<Rightarrow> do {
          let cid = cJSON_GetObjectItem X json ''client_id'';
          same \<leftarrow> (if is_string X cid
                    then do { v \<leftarrow> valuestring_of X cid; Some (v = client_id tok) } else Some False);
          if \<not> same
          then Some (int_of_error (HIVE_GENERAL_ERROR HIVEERR_BAD_PERSISTENT_DATA), tok, w)
          else (let tt = cJSON_GetObjectItem X json ''token_type'';
                    at = cJSON_GetObjectItem X json ''access_token'';
                    rt = cJSON_GetObjectItem X json ''refresh_token'';
                    ex = cJSON_GetObjectItem X json ''expires_at''
                in if \<not> is_string X tt \<or> \<not> is_string X at \<or> \<not> is_string X rt \<or> \<not> is_number X ex
                   then Some (0, tok, w)
                   else do {
                     t \<leftarrow> valuestring_of X tt;
                     a \<leftarrow> valuestring_of X at;
                     r \<leftarrow> valuestring_of X rt;
                     let tok1 = tok\<lparr>expires_at := (case ex of None \<Rightarrow> 0 | Some i \<Rightarrow> j_valuelong X i,
                                                   snd (expires_at tok))\<rparr>;
                     let (ok, w1) = c_alloc w;
                     if \<not> ok then Some (int_of_error (HIVE_SYS_ERROR (errno w1)), tok1, w1)
                     else Some (0, tok1\<lparr>token_type := Some t, access_token := Some a,
                                       refresh_token := Some r\<rparr>, w1)
                   })
        })"

section \<open>Life cycle\<close>

definition oauth_token_new ::
  "('j, 'r) ext \<Rightarrow> 'j oauth_options \<Rightarrow> ('j \<Rightarrow> 'r world \<Rightarrow> (int \<times> 'r world) option) \<Rightarrow> 'r world
     \<Rightarrow> (('j, 'r) oauth_token option \<times> 'r world) option" where
  "oauth_token_new X opts cb w = do {
     c_assert (opt_scope opts \<noteq> [] \<and> opt_client_id opts \<noteq> [] \<and> opt_redirect_url opts \<noteq> []
               \<and> opt_authorize_url opts \<noteq> [] \<and> opt_token_url opts \<noteq> []);
     let (ok, w1) = c_alloc w;
     if \<not> ok then Some (None, hive_set_error (int_of_error (HIVE_GENERAL_ERROR HIVEERR_OUT_OF_MEMORY)) w1)
     else do {
       (rc, tok, w2) \<leftarrow> restore_access_token X (opt_store opts)
         \<lparr>authorize_url = opt_authorize_url opts, token_url = opt_token_url opts,
          client_id = opt_client_id opts, scope = opt_scope opts,
          redirect_url = opt_redirect_url opts, token_type = None, access_token = None,
          refresh_token = None, expires_at = (0, 0), writeback_cb = cb\<rparr> w1;
       Some (Some tok, w2)
     }
   }"

definition oauth_token_reset ::
  "('j, 'r) ext \<Rightarrow> ('j, 'r) oauth_token \<Rightarrow> 'r world
     \<Rightarrow> (int \<times> ('j, 'r) oauth_token \<times> 'r world) option" where
  "oauth_token_reset X tok w = do {
     c_assert (token_type tok \<noteq> None);
     let tok1 = tok\<lparr>token_type := None, access_token := None, refresh_token := None\<rparr>;
     w1 \<leftarrow> writeback_tokens X tok1 w;
     Some (0, tok1, w1)
   }"

section \<open>Asking for an authorization code\<close>

definition request_auth_entry :: "'r auth_env \<Rightarrow> string \<Rightarrow> 'r world \<Rightarrow> poll_env list \<times> 'r world" where
  "request_auth_entry A url w =
     (case ae_polls A url (remote w) of (polls, r) \<Rightarrow> (polls, w\<lparr>remote := r\<rparr>))"

text \<open>The codes of the \<open>http_client_set_*\<close> calls are ignored.\<close>

definition authorize_request ::
  "('j, 'r) ext \<Rightarrow> ('j, 'r) oauth_token \<Rightarrow> http_client \<Rightarrow> http_client option" where
  "authorize_request X tok c = do {
     (_, c1) \<leftarrow> http_client_set_url X c (authorize_url tok);
     (_, c2) \<leftarrow> http_client_set_query X c1 ''client_id'' (client_id tok);
     (_, c3) \<leftarrow> http_client_set_query X c2 ''scope'' (scope tok);
     (_, c4) \<leftarrow> http_client_set_query X c3 ''redirect_uri'' (redirect_url tok);
     (_, c5) \<leftarrow> http_client_set_query X c4 ''response_type'' ''code'';
     Some c5
   }"

text \<open>A getter that reports success has stored its string; \<open>rc\<close> is the first failing one.\<close>

definition redirect_parts :: "('j, 'r) ext \<Rightarrow> http_client \<Rightarrow> int + string \<times> string \<times> string" where
  "redirect_parts X c =
     (case http_client_get_host X c of
        (rc, None) \<Rightarrow> Inl rc
      | (_, Some host) \<Rightarrow> (case http_client_get_port X c of
          (rc, None) \<Rightarrow> Inl rc
        | (_, Some port) \<Rightarrow> (case http_client_get_path X c of
            (rc, None) \<Rightarrow> Inl rc
          | (_, Some path) \<Rightarrow> Inr (host, port, path))))"

text \<open>From the creation of the thread on.\<close>

definition await_code ::
  "'r auth_env \<Rightarrow> string \<Rightarrow> 'r redirect_server \<Rightarrow> 'r world \<Rightarrow> (string option \<times> 'r world) option" where
  "await_code A url srv w =
     (if ae_thread_rc A \<noteq> 0
      then do {
        (_, w1) \<leftarrow> sb_close_server srv (hive_set_error (int_of_error (HIVE_SYS_ERROR (errno w))) w);
        Some (None, w1)
      }
      else (case request_auth_entry A url w of (polls, w1) \<Rightarrow> do {
        (_, srv1, w2) \<leftarrow> auth_loop polls srv w1;
        (ud, w3) \<leftarrow> sb_close_server srv1 w2;
        let s = c_str_at (snd ud) 0;
        Some (if s = [] then None else Some s, w3)
      }))"

definition get_authorize_code ::
  "('j, 'r) ext \<Rightarrow> 'r auth_env \<Rightarrow> ('j, 'r) oauth_token \<Rightarrow> nat \<Rightarrow> 'r world
     \<Rightarrow> (string option \<times> 'r world) option" where
  "get_authorize_code X A tok bufsz w =
     (case http_client_new X w of
        (None, w1) \<Rightarrow> Some (None, hive_set_error (int_of_error (HIVE_GENERAL_ERROR HIVEERR_OUT_OF_MEMORY)) w1)
      | (Some c, w1) \<Rightarrow> do {
          c1 \<leftarrow> authorize_request X tok c;
          case http_client_get_url_escape X c1 of
            (rc, None) \<Rightarrow>
              Some (None, http_client_close (hive_set_error (int_of_error (HIVE_CURLU_ERROR rc)) w1))
          | (_, Some url) \<Rightarrow> do {
              (_, c2) \<leftarrow> http_client_set_url X (http_client_reset c1) (redirect_url tok);
              case redirect_parts X c2 of
                Inl rc \<Rightarrow>
                  Some (None, http_client_close (hive_set_error (int_of_error (HIVE_CURLU_ERROR rc)) w1))
              | Inr (host, port, path) \<Rightarrow>
                  (case sb_new_server (ae_net A) (redirect_options host port path bufsz) (http_client_close w1) of
                     (None, w2) \<Rightarrow> Some (None, w2)
                   | (Some srv, w2) \<Rightarrow> await_code A url srv w2)
            }
        })"

section \<open>Redeeming and refreshing\<close>

definition IS_STRING_NODE :: "('j, 'r) ext \<Rightarrow> 'j option \<Rightarrow> bool" where
  "IS_STRING_NODE X item \<longleftrightarrow> is_string X item \<and> \<not> null_or_empty (valuestring_of X item)"

definition timeradd :: "int \<times> int \<Rightarrow> int \<times> int \<Rightarrow> int \<times> int" where
  "timeradd a b =
     (let s = fst a + fst b; u = snd a + snd b
      in if u \<ge> 1000000 then (s + 1, u - 1000000) else (s, u))"

definition timer_gt :: "int \<times> int \<Rightarrow> int \<times> int \<Rightarrow> bool" where
  "timer_gt a b \<longleftrightarrow> (if fst a = fst b then snd a > snd b else fst a > fst b)"

definition decode_access_token ::
  "('j, 'r) ext \<Rightarrow> ('j, 'r) oauth_token \<Rightarrow> bytes \<Rightarrow> 'r world
     \<Rightarrow> (int \<times> ('j, 'r) oauth_token \<times> 'r world) option" where
  "decode_access_token X tok body w = do {
     parsed \<leftarrow> parse_block X body;
     let bad = int_of_error (HIVE_GENERAL_ERROR HIVEERR_BAD_JSON_FORMAT);
     case parsed of
       None \<Rightarrow> Some (bad, tok, w)
     | Some json \<Rightarrow>
        (let tt = cJSON_GetObjectItemCaseSensitive X json ''token_type'' in
         if \<not> IS_STRING_NODE X tt then Some (bad, tok, w)
         else (let (ok1, w1) = c_alloc w in
         if \<not> ok1 then Some (int_of_error (HIVE_SYS_ERROR (errno w1)), tok, w1)
         else if \<not> IS_STRING_NODE X (cJSON_GetObjectItemCaseSensitive X json ''scope'') then Some (bad, tok, w1)
         else (let at = cJSON_GetObjectItemCaseSensitive X json ''access_token'' in
         if \<not> IS_STRING_NODE X at then Some (bad, tok, w1)
         else (let (ok2, w2) = c_alloc w1 in
         if \<not> ok2 then Some (int_of_error (HIVE_SYS_ERROR (errno w2)), tok, w2)
         else (let rt = cJSON_GetObjectItemCaseSensitive X json ''refresh_token'' in
         if \<not> IS_STRING_NODE X rt then Some (bad, tok, w2)
         else (let (ok3, w3) = c_alloc w2 in
         if \<not> ok3 then Some (int_of_error (HIVE_SYS_ERROR (errno w3)), tok, w3)
         else (case cJSON_GetObjectItemCaseSensitive X json ''expires_in'' of
           None \<Rightarrow> Some (bad, tok, w3)
         | Some ex \<Rightarrow>
            (if \<not> cJSON_IsNumber X ex \<or> j_valuelong X ex < 0 then Some (bad, tok, w3)
             else (let (now, w4) = c_gettimeofday w3 in
               Some (0, tok\<lparr>token_type := valuestring_of X tt, access_token := valuestring_of X at,
                            refresh_token := valuestring_of X rt,
                            expires_at := timeradd now (j_valuelong X ex, 0)\<rparr>, w4))))))))))
   }"

text \<open>The escaped strings, one after the other; the inner option is the NULL of a failed escape.\<close>

fun escape_all :: "('j, 'r) ext \<Rightarrow> string list \<Rightarrow> string list option option" where
  "escape_all X [] = Some (Some [])"
| "escape_all X (s # ss) = do {
     e \<leftarrow> http_client_escape X s;
     case e of
       None \<Rightarrow> Some None
     | Some e' \<Rightarrow> do {
         es \<leftarrow> escape_all X ss;
         Some (case es of None \<Rightarrow> None | Some es' \<Rightarrow> Some (e' # es'))
       }
   }"

text \<open>Set-up and execution of the POST request both functions send.\<close>

definition token_post ::
  "('j, 'r) ext \<Rightarrow> string \<Rightarrow> string \<Rightarrow> http_client \<Rightarrow> 'r world \<Rightarrow> (int \<times> http_client \<times> 'r world) option" where
  "token_post X url buf c w = do {
     (_, c1) \<leftarrow> http_client_set_url X c url;
     let (_, c2) = http_client_set_method X c1 HTTP_METHOD_POST;
     http_client_request X
       (http_client_enable_response_body
          (http_client_set_request_body_instant c2 (Some buf) (length buf))) w
   }"

definition redeem_access_token ::
  "('j, 'r) ext \<Rightarrow> ('j, 'r) oauth_token \<Rightarrow> string \<Rightarrow> 'r world
     \<Rightarrow> (int \<times> ('j, 'r) oauth_token \<times> 'r world) option" where
  "redeem_access_token X tok code w =
     (let oom = int_of_error (HIVE_GENERAL_ERROR HIVEERR_OUT_OF_MEMORY) in
      case http_client_new X w of
        (None, w1) \<Rightarrow> Some (oom, tok, w1)
      | (Some c, w1) \<Rightarrow> do {
          esc \<leftarrow> escape_all X [client_id tok, redirect_url tok, code];
          case esc of
            Some [cid, uri, code'] \<Rightarrow>
              (let (n, buf) = c_snprintf 512 (''client_id='' @ cid @ ''&redirect_uri='' @ uri
                     @ ''&code='' @ code' @ ''&grant_type=authorization_code'') in
               if n < 0 \<or> n \<ge> 512
               then Some (int_of_error (HIVE_GENERAL_ERROR HIVEERR_BUFFER_TOO_SMALL), tok, http_client_close w1)
               else do {
                 (rc, c2, w2) \<leftarrow> token_post X (token_url tok) buf c w1;
                 if rc \<noteq> 0 then Some (int_of_error (HIVE_CURL_ERROR rc), tok, http_client_close w2)
                 else (case http_client_get_response_code c2 of (rc, resp) \<Rightarrow>
                   if rc < 0 then Some (int_of_error (HIVE_CURL_ERROR rc), tok, http_client_close w2)
                   else if resp_code_of resp \<noteq> HttpStatus_OK
                   then Some (int_of_error (HIVE_HTTP_STATUS_ERROR (resp_code_of resp)), tok, http_client_close w2)
                   else do {
                     (body, _, _) \<leftarrow> http_client_move_response_body c2 False;
                     case body of
                       None \<Rightarrow> Some (oom, tok, http_client_close w2)
                     | Some b \<Rightarrow> decode_access_token X tok b (http_client_close w2)
                   })
               })
          | _ \<Rightarrow> Some (oom, tok, http_client_close w1)
        })"

definition oauth_token_request ::
  "('j, 'r) ext \<Rightarrow> 'r auth_env \<Rightarrow> ('j, 'r) oauth_token \<Rightarrow> 'r world
     \<Rightarrow> (int \<times> ('j, 'r) oauth_token \<times> 'r world) option" where
  "oauth_token_request X A tok w =
     (if access_token tok \<noteq> None then Some (0, tok, w)
      else do {
        (code, w1) \<leftarrow> get_authorize_code X A tok 512 w;
        case code of
          None \<Rightarrow> Some (hive_get_error w1, tok, w1)
        | Some code' \<Rightarrow> do {
            (rc, tok2, w2) \<leftarrow> redeem_access_token X tok code' w1;
            if rc < 0 then Some (rc, tok2, w2)
            else do { w3 \<leftarrow> writeback_tokens X tok2 w2; Some (0, tok2, w3) }
          }
      })"

text \<open>A refresh token that is not there would be passed to \<open>strlen\<close>.\<close>

definition refresh_access_token ::
  "('j, 'r) ext \<Rightarrow> ('j, 'r) oauth_token \<Rightarrow> 'r world
     \<Rightarrow> (int \<times> ('j, 'r) oauth_token \<times> 'r world) option" where
  "refresh_access_token X tok w =
     (let oom = int_of_error (HIVE_GENERAL_ERROR HIVEERR_OUT_OF_MEMORY) in
      case http_client_new X w of
        (None, w1) \<Rightarrow> Some (oom, tok, w1)
      | (Some c, w1) \<Rightarrow> do {
          esc2 \<leftarrow> escape_all X [client_id tok, redirect_url tok];
          case esc2 of
            Some [cid, uri] \<Rightarrow> do {
              rt \<leftarrow> refresh_token tok;
              esc1 \<leftarrow> http_client_escape X rt;
              case esc1 of
                Some rt' \<Rightarrow>
                  (let (n, buf) = c_snprintf 4096 (''client_id='' @ cid @ ''&redirect_uri='' @ uri
                         @ ''&refresh_token='' @ rt' @ ''&grant_type=refresh_token'') in
                   if n < 0 \<or> n \<ge> 4096
                   then Some (int_of_error (HIVE_GENERAL_ERROR HIVEERR_BUFFER_TOO_SMALL), tok, http_client_close w1)
                   else do {
                     (rc, c2, w2) \<leftarrow> token_post X (token_url tok) buf c w1;
                     if rc \<noteq> 0 then Some (int_of_error (HIVE_CURL_ERROR rc), tok, http_client_close w2)
                     else (case http_client_get_response_code c2 of (rc, resp) \<Rightarrow>
                       if rc \<noteq> 0 then Some (int_of_error (HIVE_CURL_ERROR rc), tok, http_client_close w2)
                       else if resp_code_of resp \<noteq> HttpStatus_OK
                       then Some (int_of_error (HIVE_HTTP_STATUS_ERROR (resp_code_of resp)), tok, http_client_close w2)
                       else do {
                         (body, _, _) \<leftarrow> http_client_move_response_body c2 False;
                         case body of
                           None \<Rightarrow> Some (oom, tok, http_client_close w2)
                         | Some b \<Rightarrow> do {
                             (rc, tok3, w3) \<leftarrow> decode_access_token X tok b (http_client_close w2);
                             if rc < 0 then Some (rc, tok3, w3)
                             else do { w4 \<leftarrow> writeback_tokens X tok3 w3; Some (0, tok3, w4) }
                           }
                       })
                   })
              | None \<Rightarrow> Some (oom, tok, http_client_close w1)
            }
          | _ \<Rightarrow> Some (oom, tok, http_client_close w1)
        })"

section \<open>Expiry\<close>

definition oauth_token_set_expired :: "('j, 'r) oauth_token \<Rightarrow> ('j, 'r) oauth_token" where
  "oauth_token_set_expired tok = tok\<lparr>expires_at := (0, 0)\<rparr>"

definition oauth_token_is_expired :: "('j, 'r) oauth_token \<Rightarrow> 'r world \<Rightarrow> bool \<times> 'r world" where
  "oauth_token_is_expired tok w = (case c_gettimeofday w of (now, w1) \<Rightarrow> (timer_gt now (expires_at tok), w1))"

definition oauth_token_check_expire ::
  "('j, 'r) ext \<Rightarrow> ('j, 'r) oauth_token \<Rightarrow> 'r world
     \<Rightarrow> (int \<times> ('j, 'r) oauth_token \<times> 'r world) option" where
  "oauth_token_check_expire X tok w =
     (case oauth_token_is_expired tok w of (expired, w1) \<Rightarrow>
        if \<not> expired then Some (0, tok, w1)
        else do {
          (rc, tok2, w2) \<leftarrow> refresh_access_token X tok w1;
          if rc < 0 then Some (rc, tok2, w2) else Some (0, tok2, w2)
        })"

definition get_bearer_token :: "('j, 'r) oauth_token \<Rightarrow> string option" where
  "get_bearer_token tok = access_token tok"

section \<open>Outcomes\<close>

text \<open>What a successful exchange with the token server does to a token.\<close>

definition renewed :: "('j, 'r) oauth_token \<Rightarrow> ('j, 'r) oauth_token \<Rightarrow> bool" where
  "renewed tok tok' \<longleftrightarrow> (\<exists>t a r now ex. t \<noteq> [] \<and> a \<noteq> [] \<and> r \<noteq> [] \<and> 0 \<le> ex \<and>
     tok' = tok\<lparr>token_type := Some t, access_token := Some a, refresh_token := Some r,
                expires_at := timeradd now (ex, 0)\<rparr>)"

definition token_ok :: "('j, 'r) oauth_token \<Rightarrow> bool" where
  "token_ok tok \<longleftrightarrow> (token_type tok = None) = (access_token tok = None)
     \<and> (access_token tok = None) = (refresh_token tok = None)"

definition same_config :: "('j, 'r) oauth_token \<Rightarrow> ('j, 'r) oauth_token \<Rightarrow> bool" where
  "same_config tok tok' \<longleftrightarrow> authorize_url tok' = authorize_url tok \<and> token_url tok' = token_url tok
     \<and> client_id tok' = client_id tok \<and> scope tok' = scope tok \<and> redirect_url tok' = redirect_url tok
     \<and> writeback_cb tok' = writeback_cb tok"

text \<open>A write-back that leaves the HTTP clients alone.\<close>

definition quiet_writeback :: "('j, 'r) oauth_token \<Rightarrow> bool" where
  "quiet_writeback tok \<longleftrightarrow>
     (\<forall>j w rc w'. writeback_cb tok j w = Some (rc, w') \<longrightarrow> held w' = held w)"

lemma renewed_props:
  assumes "renewed tok tok'"
  shows "token_ok tok'" "same_config tok tok'" "access_token tok' \<noteq> None" "refresh_token tok' \<noteq> None"
  using assms by (auto simp: renewed_def token_ok_def same_config_def)

lemma IS_STRING_NODE_value: "IS_STRING_NODE X j \<Longrightarrow> \<exists>s. valuestring_of X j = Some s \<and> s \<noteq> []"
  by (auto simp: IS_STRING_NODE_def)

lemma renewedI:
  "t \<noteq> [] \<Longrightarrow> a \<noteq> [] \<Longrightarrow> r \<noteq> [] \<Longrightarrow> \<not> ex < 0 \<Longrightarrow>
     renewed tok (tok\<lparr>token_type := Some t, access_token := Some a, refresh_token := Some r,
       expires_at := timeradd now (ex, 0)\<rparr>)"
  unfolding renewed_def by (intro exI conjI) auto

lemma decode_post:
  "post (decode_access_token X tok b w) (\<lambda>(rc, tok', w').
     held w' = held w \<and> (rc < 0 \<and> tok' = tok \<or> rc = 0 \<and> renewed tok tok'))"
  unfolding decode_access_token_def
  apply (intro hive_post)
   apply (rule postI)
  by (intro hive_post)
    (auto simp: c_alloc_live gettimeofday_live dest!: IS_STRING_NODE_value intro!: renewedI)

lemma token_post_post:
  "post (token_post X url buf c w) (\<lambda>(rc, c', w'). held w' = held w)"
  unfolding token_post_def
  apply (intro hive_post)
  apply (rule postI)
  apply (intro hive_post)
  apply (rule request_post)
  done

lemma redeem_post:
  "post (redeem_access_token X tok code w) (\<lambda>(rc, tok', w').
     held w' = held w \<and> (rc < 0 \<and> tok' = tok \<or> rc = 0 \<and> renewed tok tok'))"
  unfolding redeem_access_token_def
  by (intro hive_post | (rule post_call, rule token_post_post) | (rule post_call, rule decode_post)
      | rule postI | (use live_http_new in \<open>fastforce\<close>))+

text \<open>The write-back of a renewed token finds its strings and only calls \<open>writeback_cb\<close>.\<close>

lemma writeback_post:
  "quiet_writeback tok \<Longrightarrow> post (writeback_tokens X tok w) (\<lambda>w'. held w' = held w)"
  unfolding writeback_tokens_def
  by (intro hive_post | rule postI | (use c_alloc_live in \<open>fastforce simp: quiet_writeback_def\<close>))+

lemma quiet_writeback_config: "same_config tok tok' \<Longrightarrow> quiet_writeback tok' = quiet_writeback tok"
  by (simp add: quiet_writeback_def same_config_def)

lemma refresh_post:
  "quiet_writeback tok \<Longrightarrow> post (refresh_access_token X tok w) (\<lambda>(rc, tok', w').
     held w' = held w \<and> (rc < 0 \<and> tok' = tok \<or> rc = 0 \<and> renewed tok tok'))"
  unfolding refresh_access_token_def
  by (intro hive_post | (rule post_call, rule token_post_post) | (rule post_call, rule decode_post)
      | rule post_call [OF writeback_post]
      | rule postI | (use live_http_new renewed_props(2) quiet_writeback_config in \<open>fastforce\<close>))+

lemma closed_held:
  assumes "server_ok srv (open_fds w) w1" "live_http w1 = live_http w" "srv_handler srv = handle_auth_redirect path sz"
  shows "post (sb_close_server srv w1) (\<lambda>(ud, w2). held w2 = held w)"
  by (rule post_call [OF redirect.close_ok [OF assms(3,1)]]) (use assms(2) in auto)

lemma await_code_held:
  assumes "server_ok srv (open_fds w) w1" "live_http w1 = live_http w" "srv_handler srv = handle_auth_redirect path sz"
  shows "post (await_code A url srv w1) (\<lambda>(code, w2). held w2 = held w)"
proof (rule postI)
  fix y
  assume y: "await_code A url srv w1 = Some y"
  have same: "server_ok srv (open_fds w) (hive_set_error e w1)" "live_http (hive_set_error e w1) = live_http w"
    "server_ok srv (open_fds w) (w1\<lparr>remote := r\<rparr>)" for e r
    using assms(1,2) by (simp_all add: server_ok_def streams_ok_def)
  show "case y of (code, w2) \<Rightarrow> held w2 = held w"
  proof (cases "ae_thread_rc A = 0")
    case False
    then show ?thesis using y closed_held [OF same(1,2) assms(3)]
      by (auto simp: await_code_def post_def bind_eq_Some_iff)
  next
    case True
    obtain polls r where "ae_polls A url (remote w1) = (polls, r)" by fastforce
    with y True obtain out srv' w2 ud w3 where s: "auth_loop polls srv (w1\<lparr>remote := r\<rparr>) = Some (out, srv', w2)"
      "sb_close_server srv' w2 = Some (ud, w3)" "snd y = w3"
      by (auto simp: await_code_def request_auth_entry_def bind_eq_Some_iff Let_def)
    from postD [OF auth_loop_ok [OF assms(3) same(3)] s(1)] assms(2)
    have "server_ok srv' (open_fds w) w2" "live_http w2 = live_http w" "srv_handler srv' = handle_auth_redirect path sz" by auto
    from postD [OF closed_held [OF this] s(2)] s(3) show ?thesis by (cases y) auto
  qed
qed

lemma new_server_held:
  "sb_new_server net (redirect_options host port path sz) w = (None, w1) \<Longrightarrow> held w1 = held w"
  "sb_new_server net (redirect_options host port path sz) w = (Some srv, w1) \<Longrightarrow>
     post (await_code A url srv w1) (\<lambda>(code, w2). held w2 = held w)"
  using new_server_ok [of net "redirect_options host port path sz" w]
  by (auto simp: redirect_options_def intro: await_code_held [unfolded prod.inject])

lemma authorize_code_post:
  "post (get_authorize_code X A tok bufsz w) (\<lambda>(code, w'). held w' = held w)"
  unfolding get_authorize_code_def
  by (intro hive_post | (rule post_call, rule new_server_held(2), blast) | rule postI
      | ((auto dest!: live_http_new new_server_held(1) split: prod.splits)[1]; fail))+

lemma token_request_post:
  assumes "quiet_writeback tok"
  shows "post (oauth_token_request X A tok w) (\<lambda>(rc, tok', w').
     held w' = held w \<and> (tok' = tok \<or> rc = 0 \<and> access_token tok = None \<and> renewed tok tok'))"
  unfolding oauth_token_request_def
  by (intro hive_post | (rule post_call, rule authorize_code_post) | (rule post_call, rule redeem_post)
      | rule post_call [OF writeback_post]
      | (use assms renewed_props(2) quiet_writeback_config in \<open>fastforce\<close>))+

lemma check_expire_post:
  assumes "quiet_writeback tok"
  shows "post (oauth_token_check_expire X tok w) (\<lambda>(rc, tok', w').
     held w' = held w \<and>
     (rc < 0 \<and> tok' = tok \<or>
      rc = 0 \<and> (if timer_gt (clock w (tick w)) (expires_at tok) then renewed tok tok' else tok' = tok)))"
  unfolding oauth_token_check_expire_def oauth_token_is_expired_def c_gettimeofday_def
  by (intro hive_post | rule post_call [OF refresh_post] | (use assms in \<open>fastforce\<close>))+

text \<open>C6: \<open>oauth_token_check_expire\<close> is all or nothing: it leaves the token alone and
  fails, or succeeds; when the token had expired, success means that a complete new token (type,
  access and refresh token, expiry time) was installed, and when it had not, that nothing changed.
  No HTTP client or descriptor is leaked either way.\<close>

theorem token_check_atomic:
  assumes "quiet_writeback tok" and "oauth_token_check_expire X tok w = Some (rc, tok', w')"
  shows "held w' = held w \<and>
     (rc < 0 \<and> tok' = tok \<or>
      rc = 0 \<and> (if timer_gt (clock w (tick w)) (expires_at tok) then renewed tok tok' else tok' = tok))"
  using postD [OF check_expire_post [OF assms(1)] assms(2)] by simp

section \<open>The life of a token\<close>

text \<open>The operations a client performs on its token, in any order and with any environment.\<close>

inductive token_step ::
  "('j, 'r) oauth_token \<times> 'r world \<Rightarrow> ('j, 'r) oauth_token \<times> 'r world \<Rightarrow> bool" where
  request: "oauth_token_request X A tok w = Some (rc, tok', w') \<Longrightarrow> token_step (tok, w) (tok', w')"
| check: "oauth_token_check_expire X tok w = Some (rc, tok', w') \<Longrightarrow> token_step (tok, w) (tok', w')"
| expire: "token_step (tok, w) (oauth_token_set_expired tok, w)"
| reset: "oauth_token_reset X tok w = Some (rc, tok', w') \<Longrightarrow> token_step (tok, w) (tok', w')"

inductive token_run ::
  "('j, 'r) oauth_token \<times> 'r world \<Rightarrow> ('j, 'r) oauth_token \<times> 'r world \<Rightarrow> bool" where
  start: "token_run s s"
| step: "token_run s t \<Longrightarrow> token_step t u \<Longrightarrow> token_run s u"

inductive_cases token_stepE: "token_step (tok, w) s"

lemma same_config_refl [simp]: "same_config tok tok"
  by (simp add: same_config_def)

lemma same_config_trans: "same_config a b \<Longrightarrow> same_config b c \<Longrightarrow> same_config a c"
  by (simp add: same_config_def)

lemma reset_post:
  "quiet_writeback tok \<Longrightarrow> post (oauth_token_reset X tok w) (\<lambda>(rc, tok', w').
     held w' = held w \<and> rc = 0 \<and>
     tok' = tok\<lparr>token_type := None, access_token := None, refresh_token := None\<rparr>)"
  unfolding oauth_token_reset_def
  by (intro hive_post | rule post_call [OF writeback_post] | (fastforce simp: quiet_writeback_def))+

lemma token_step_ok:
  assumes "token_step (tok, w) (tok', w')" "quiet_writeback tok" "token_ok tok"
  shows "token_ok tok' \<and> same_config tok tok' \<and> held w' = held w"
  using assms(1)
proof (cases rule: token_step.cases)
  case (request X A rc)
  from postD [OF token_request_post [OF assms(2)] request(1)] assms(3) show ?thesis
    using renewed_props by auto
next
  case (check X rc)
  from postD [OF check_expire_post [OF assms(2)] check(1)] assms(3) show ?thesis
    using renewed_props by (auto split: if_splits)
next
  case expire
  with assms(3) show ?thesis
    by (simp add: token_ok_def same_config_def oauth_token_set_expired_def)
next
  case (reset X rc)
  from postD [OF reset_post [OF assms(2)] reset(1)] show ?thesis
    by (auto simp: token_ok_def same_config_def)
qed

lemma token_run_ok:
  assumes "token_run (tok, w) s" "quiet_writeback tok" "token_ok tok"
  shows "token_ok (fst s) \<and> same_config tok (fst s) \<and> held (snd s) = held w"
  using assms
proof (induction "(tok, w)" s rule: token_run.induct)
  case (step t u)
  then have t: "token_ok (fst t)" "same_config tok (fst t)" "held (snd t) = held w" by auto
  then have "quiet_writeback (fst t)" using step.prems(1) quiet_writeback_config by blast
  with token_step_ok [of "fst t" "snd t" "fst u" "snd u"] step.hyps(3) t show ?case
    using same_config_trans by (metis prod.collapse)
qed simp

lemma token_new_ok:
  "post (oauth_token_new X opts cb w) (\<lambda>(t, w'). held w' = held w \<and>
     (case t of None \<Rightarrow> True
      | Some tok \<Rightarrow> token_ok tok \<and> writeback_cb tok = cb \<and> client_id tok = opt_client_id opts))"
  unfolding oauth_token_new_def restore_access_token_def
  by (intro hive_post | rule postI | (fastforce simp: c_alloc_live token_ok_def))+

text \<open>C7: From \<open>oauth_token_new\<close> on, whatever sequence of authorization, refresh, reset and
  expiry calls is run, in any environment, the token's three strings are all set or all unset, its
  client id is the one it was made with, and no HTTP client or descriptor stays open.\<close>

theorem token_reachable_ok:
  assumes "oauth_token_new X opts cb w = Some (Some tok, w0)"
    and "\<And>j w rc w'. cb j w = Some (rc, w') \<Longrightarrow> held w' = held w"
    and "token_run (tok, w0) (tok', w')"
  shows "token_ok tok' \<and> client_id tok' = opt_client_id opts \<and> held w' = held w"
proof -
  have new: "token_ok tok" "writeback_cb tok = cb" "client_id tok = opt_client_id opts" "held w0 = held w"
    using postD [OF token_new_ok assms(1)] by auto
  then have "quiet_writeback tok" using assms(2) by (auto simp: quiet_writeback_def)
  with token_run_ok [OF assms(3)] new show ?thesis by (auto simp: same_config_def)
qed

section \<open>Tokens survive in the key store\<close>

lemma store_keys:
  "\<not> same_key ''client_id'' ''token_type''" "\<not> same_key ''client_id'' ''access_token''"
  "\<not> same_key ''client_id'' ''refresh_token''" "\<not> same_key ''client_id'' ''expires_at''"
  "\<not> same_key ''token_type'' ''access_token''" "\<not> same_key ''token_type'' ''refresh_token''"
  "\<not> same_key ''token_type'' ''expires_at''" "\<not> same_key ''access_token'' ''refresh_token''"
  "\<not> same_key ''access_token'' ''expires_at''" "\<not> same_key ''refresh_token'' ''expires_at''"
  by code_simp+

lemma same_key_refl [simp]: "same_key k k"
  by (simp add: same_key_def)

lemma store_keys_sym:
  "\<not> same_key ''token_type'' ''client_id''" "\<not> same_key ''access_token'' ''client_id''"
  "\<not> same_key ''refresh_token'' ''client_id''" "\<not> same_key ''expires_at'' ''client_id''"
  "\<not> same_key ''access_token'' ''token_type''" "\<not> same_key ''refresh_token'' ''token_type''"
  "\<not> same_key ''expires_at'' ''token_type''" "\<not> same_key ''refresh_token'' ''access_token''"
  "\<not> same_key ''expires_at'' ''access_token''" "\<not> same_key ''expires_at'' ''refresh_token''"
  using store_keys by (auto simp: same_key_sym)

text \<open>The object \<open>writeback_tokens\<close> builds for a token with all its strings.\<close>

definition stored_tokens :: "('j, 'r) ext \<Rightarrow> ('j, 'r) oauth_token \<Rightarrow> string \<Rightarrow> string \<Rightarrow> string \<Rightarrow> 'j" where
  "stored_tokens X tok t a r =
     json_add (cJSON_AddNumberToObject X) ''expires_at'' (fst (expires_at tok))
    (json_add (cJSON_AddStringToObject X) ''refresh_token'' r
    (json_add (cJSON_AddStringToObject X) ''access_token'' a
    (json_add (cJSON_AddStringToObject X) ''token_type'' t
    (json_add (cJSON_AddStringToObject X) ''client_id'' (client_id tok) (cJSON_CreateObject X)))))"

lemma stored_tokens_items:
  assumes "json_laws X"
  obtains c i1 i2 i3 i4 where
    "cJSON_GetObjectItem X (stored_tokens X tok t a r) ''client_id'' = Some c"
    "cJSON_IsString X c" "j_valuestring X c = Some (client_id tok)"
    "cJSON_GetObjectItem X (stored_tokens X tok t a r) ''token_type'' = Some i1"
    "cJSON_IsString X i1" "j_valuestring X i1 = Some t"
    "cJSON_GetObjectItem X (stored_tokens X tok t a r) ''access_token'' = Some i2"
    "cJSON_IsString X i2" "j_valuestring X i2 = Some a"
    "cJSON_GetObjectItem X (stored_tokens X tok t a r) ''refresh_token'' = Some i3"
    "cJSON_IsString X i3" "j_valuestring X i3 = Some r"
    "cJSON_GetObjectItem X (stored_tokens X tok t a r) ''expires_at'' = Some i4"
    "cJSON_IsNumber X i4"
    "\<bar>fst (expires_at tok)\<bar> < 2 ^ 53 \<longrightarrow> j_valuelong X i4 = fst (expires_at tok)"
proof -
  let ?get = "cJSON_GetObjectItem X"
  define j0 where "j0 = cJSON_CreateObject X"
  define j1 where "j1 = json_add (cJSON_AddStringToObject X) ''client_id'' (client_id tok) j0"
  define j2 where "j2 = json_add (cJSON_AddStringToObject X) ''token_type'' t j1"
  define j3 where "j3 = json_add (cJSON_AddStringToObject X) ''access_token'' a j2"
  define j4 where "j4 = json_add (cJSON_AddStringToObject X) ''refresh_token'' r j3"
  define j5 where "j5 = json_add (cJSON_AddNumberToObject X) ''expires_at'' (fst (expires_at tok)) j4"
  have g0: "?get j0 k = None" for k
    using assms by (simp add: json_laws_def j0_def)
  have str: "json_adds X (cJSON_AddStringToObject X) (\<lambda>i v. cJSON_IsString X i \<and> j_valuestring X i = Some v)"
    and num: "json_adds X (cJSON_AddNumberToObject X)
       (\<lambda>i v. cJSON_IsNumber X i \<and> (\<bar>v\<bar> < 2 ^ 53 \<longrightarrow> j_valuelong X i = v))"
    using assms by (simp_all add: json_laws_def)
  note neq = store_keys store_keys_sym
  have fr1: "?get j0 ''client_id'' = None" by (simp add: g0 neq)
  obtain c where c: "cJSON_IsString X c \<and> j_valuestring X c = Some (client_id tok)"
    and g1: "\<And>k. ?get j1 k = (if same_key ''client_id'' k then Some c else ?get j0 k)"
    using json_adds_json_add [OF str fr1, of "client_id tok"] unfolding j1_def by blast
  have fr2: "?get j1 ''token_type'' = None" by (simp add: g0 g1 neq)
  obtain i1 where i1: "cJSON_IsString X i1 \<and> j_valuestring X i1 = Some t"
    and g2: "\<And>k. ?get j2 k = (if same_key ''token_type'' k then Some i1 else ?get j1 k)"
    using json_adds_json_add [OF str fr2, of t] unfolding j2_def by blast
  have fr3: "?get j2 ''access_token'' = None" by (simp add: g0 g1 g2 neq)
  obtain i2 where i2: "cJSON_IsString X i2 \<and> j_valuestring X i2 = Some a"
    and g3: "\<And>k. ?get j3 k = (if same_key ''access_token'' k then Some i2 else ?get j2 k)"
    using json_adds_json_add [OF str fr3, of a] unfolding j3_def by blast
  have fr4: "?get j3 ''refresh_token'' = None" by (simp add: g0 g1 g2 g3 neq)
  obtain i3 where i3: "cJSON_IsString X i3 \<and> j_valuestring X i3 = Some r"
    and g4: "\<And>k. ?get j4 k = (if same_key ''refresh_token'' k then Some i3 else ?get j3 k)"
    using json_adds_json_add [OF str fr4, of r] unfolding j4_def by blast
  have fr5: "?get j4 ''expires_at'' = None" by (simp add: g0 g1 g2 g3 g4 neq)
  obtain i4 where i4: "cJSON_IsNumber X i4 \<and> (\<bar>fst (expires_at tok)\<bar> < 2 ^ 53 \<longrightarrow> j_valuelong X i4 = fst (expires_at tok))"
    and g5: "\<And>k. ?get j5 k = (if same_key ''expires_at'' k then Some i4 else ?get j4 k)"
    using json_adds_json_add [OF num fr5, of "fst (expires_at tok)"] unfolding j5_def by blast
  have "stored_tokens X tok t a r = j5"
    by (simp add: stored_tokens_def j0_def j1_def j2_def j3_def j4_def j5_def)
  with that c i1 i2 i3 i4 show thesis by (simp add: g1 g2 g3 g4 g5 neq)
qed

text \<open>C8: What \<open>writeback_tokens\<close> hands to the writeback callback is restored by
  \<open>restore_access_token\<close> as the same token type, access token, refresh token and expiry
  second, into a token of the same client id, for a JSON library whose objects return what was added
  to them.\<close>

theorem token_store_roundtrip:
  assumes "json_laws X" and "token_type tok = Some t" and "access_token tok = Some a"
    and "refresh_token tok = Some r" and "\<bar>fst (expires_at tok)\<bar> < 2 ^ 53" and "faults w = []"
    and "client_id fresh = client_id tok" and "faults w' = []"
  shows "\<exists>j. writeback_tokens X tok w = (do { (rc, w2) \<leftarrow> writeback_cb tok j w; Some w2 }) \<and>
     restore_access_token X (Some j) fresh w' =
       Some (0, fresh\<lparr>expires_at := (fst (expires_at tok), snd (expires_at fresh)), token_type := Some t,
                      access_token := Some a, refresh_token := Some r\<rparr>, w')"
proof (intro exI conjI)
  have alloc: "c_alloc w = (True, w)" "c_alloc w' = (True, w')"
    using assms(6,8) by (simp_all add: c_alloc_def take_fault_def)
  show "writeback_tokens X tok w = (do { (rc, w2) \<leftarrow> writeback_cb tok (stored_tokens X tok t a r) w; Some w2 })"
    using assms(2-4) alloc by (simp add: writeback_tokens_def stored_tokens_def)
  obtain c i1 i2 i3 i4 where items:
    "cJSON_GetObjectItem X (stored_tokens X tok t a r) ''client_id'' = Some c"
    "cJSON_IsString X c" "j_valuestring X c = Some (client_id tok)"
    "cJSON_GetObjectItem X (stored_tokens X tok t a r) ''token_type'' = Some i1"
    "cJSON_IsString X i1" "j_valuestring X i1 = Some t"
    "cJSON_GetObjectItem X (stored_tokens X tok t a r) ''access_token'' = Some i2"
    "cJSON_IsString X i2" "j_valuestring X i2 = Some a"
    "cJSON_GetObjectItem X (stored_tokens X tok t a r) ''refresh_token'' = Some i3"
    "cJSON_IsString X i3" "j_valuestring X i3 = Some r"
    "cJSON_GetObjectItem X (stored_tokens X tok t a r) ''expires_at'' = Some i4"
    "cJSON_IsNumber X i4" "j_valuelong X i4 = fst (expires_at tok)"
    using stored_tokens_items [OF assms(1), of tok t a r] assms(5) by metis
  then show "restore_access_token X (Some (stored_tokens X tok t a r)) fresh w' =
       Some (0, fresh\<lparr>expires_at := (fst (expires_at tok), snd (expires_at fresh)), token_type := Some t,
                      access_token := Some a, refresh_token := Some r\<rparr>, w')"
    using assms(7) alloc
    by (simp add: restore_access_token_def is_string_def is_number_def valuestring_of_def)
qed

section \<open>Installing the tokens of an answer\<close>

text \<open>A complete answer of the token endpoint is installed as it is:
  \<open>decode_access_token\<close> sets the type, the access and the refresh token to the strings
  of the answer and the expiry time to now plus \<open>expires_in\<close> seconds.\<close>

theorem decode_installs_tokens:
  assumes "parse_block X body = Some (Some json)" and "faults w = []"
    and "\<forall>k \<in> {''token_type'', ''scope'', ''access_token'', ''refresh_token''}.
           IS_STRING_NODE X (cJSON_GetObjectItemCaseSensitive X json k)"
    and "cJSON_GetObjectItemCaseSensitive X json ''expires_in'' = Some ex"
    and "cJSON_IsNumber X ex" and "0 \<le> j_valuelong X ex"
  shows "decode_access_token X tok body w =
     Some (0, tok\<lparr>token_type := valuestring_of X (cJSON_GetObjectItemCaseSensitive X json ''token_type''),
                   access_token := valuestring_of X (cJSON_GetObjectItemCaseSensitive X json ''access_token''),
                   refresh_token := valuestring_of X (cJSON_GetObjectItemCaseSensitive X json ''refresh_token''),
                   expires_at := timeradd (clock w (tick w)) (j_valuelong X ex, 0)\<rparr>,
           w\<lparr>tick := Suc (tick w)\<rparr>)"
  using assms by (simp add: decode_access_token_def c_alloc_def take_fault_def c_gettimeofday_def)

text \<open>Marking a token expired forces a refresh: the next check either fails and leaves the token
  marked, or succeeds with a complete new token.\<close>

theorem set_expired_refreshes:
  assumes "quiet_writeback tok" and "timer_gt (clock w (tick w)) (0, 0)"
    and "oauth_token_check_expire X (oauth_token_set_expired tok) w = Some (rc, tok', w')"
  shows "rc < 0 \<and> tok' = oauth_token_set_expired tok \<or> rc = 0 \<and> renewed tok tok'"
proof -
  have q: "quiet_writeback (oauth_token_set_expired tok)"
    using assms(1) by (simp add: quiet_writeback_def oauth_token_set_expired_def)
  have "renewed (oauth_token_set_expired tok) tok' \<Longrightarrow> renewed tok tok'"
    by (auto simp: renewed_def oauth_token_set_expired_def)
  with postD [OF check_expire_post [OF q] assms(3)] assms(2) show ?thesis
    by (auto simp: oauth_token_set_expired_def)
qed

section \<open>The authorization code\<close>

text \<open>C15: The authorization flow delivers the code, from the bytes on: when a browser connects to the
  local server, sends a redirected request with the percent-encoded code among its query variables
  in any pieces, and reads the answer in any pieces, \<open>get_authorize_code\<close> returns that
  code, through the accept, receive, parse, event and close steps of the embedded server.\<close>

theorem authorize_code_received:
  assumes "http_client_new X w = (Some c, w1)" and "faults w1 = []" and "authorize_request X tok c = Some c1"
    and "http_client_get_url_escape X c1 = (0, Some url)"
    and "http_client_set_url X (http_client_reset c1) (redirect_url tok) = Some (rc, c2)"
    and "redirect_parts X c2 = Inr (host, port, path)"
    and "net_getaddrinfo (ae_net A) host port" and "net_socket (ae_net A) = Some lfd" and "lfd < FD_SETSIZE"
    and "net_bind (ae_net A)" and "net_listen (ae_net A)" and "ae_thread_rc A = 0"
    and "redirect_request pre vars code rest path" and "length code < bufsz" and "code \<noteq> []" and "NUL \<notin> set code"
    and "visit (redirect_text pre vars code rest) 18 (fst (ae_polls A url (remote w1)))"
  shows "\<exists>w'. get_authorize_code X A tok bufsz w = Some (Some code, w')"
proof -
  let ?w = "http_client_close w1"
  have "faults ?w = []" "remote ?w = remote w1" using assms(2) by (simp_all add: http_client_close_def)
  with assms(7-11) obtain srv w2 where n: "sb_new_server (ae_net A) (redirect_options host port path bufsz) ?w = (Some srv, w2)"
    "faults w2 = []" "remote w2 = remote w1" "srv_sockfd srv = lfd" "srv_streams srv = []"
    "srv_handler srv = handle_auth_redirect path bufsz" "srv_udata srv = (False, [])" "srv_timeout srv = 30000"
    "srv_max_lifetime srv = 0" "srv_max_request_size srv = 0"
    by (simp add: sb_new_server_def c_alloc_def take_fault_def redirect_options_def str_to_uint_def)
  obtain polls r where p: "ae_polls A url (remote w1) = (polls, r)" by fastforce
  obtain srv1 w3 where "auth_loop polls srv (w2\<lparr>remote := r\<rparr>)
      = Some (reply (if length code = bufsz - 1 then SB_ETRUNCATED else SB_ESUCCESS), srv1, w3)"
    "srv_streams srv1 = []" "srv_udata srv1 = (True, code)"
    using visited [OF n(5-7) _ n(8-10) _ assms(13,14), of "w2\<lparr>remote := r\<rparr>" polls] assms(9,17) n(2,4) p by auto
  with assms(1,3-6,12,15,16) n(1,3) p show ?thesis
    by (simp add: get_authorize_code_def await_code_def request_auth_entry_def sb_close_server_def c_str_at_def)
qed

text \<open>When the local server for the redirect cannot be opened, \<open>oauth_token_request\<close>
  returns whatever error was recorded before the call (zero, hence success, in a fresh thread),
  because nothing on that path records an error.\<close>

theorem token_request_stale_error:
  assumes "access_token tok = None"
    and "http_client_new X w = (Some c, w1)" and "authorize_request X tok c = Some c1"
    and "http_client_get_url_escape X c1 = (0, Some url)"
    and "http_client_set_url X (http_client_reset c1) (redirect_url tok) = Some (rc, c2)"
    and "redirect_parts X c2 = Inr (host, port, path)" and "\<not> net_getaddrinfo (ae_net A) host port" and "faults w1 = []"
  shows "oauth_token_request X A tok w = Some (hive_error w1, tok, http_client_close w1)"
  using assms
  by (simp add: oauth_token_request_def get_authorize_code_def hive_get_error_def http_client_close_def sb_new_server_def
      c_alloc_def take_fault_def redirect_options_def)

section \<open>Examples\<close>

definition sample_token :: "(json, 'r) oauth_token" where
  "sample_token = \<lparr>authorize_url = ''https://login/auth'', token_url = ''https://login/token'',
     client_id = ''id'', scope = ''files'', redirect_url = ''http://localhost:1/cb'',
     token_type = Some ''bearer'', access_token = Some ''A'', refresh_token = Some ''R'',
     expires_at = (2000, 0), writeback_cb = (\<lambda>j w. Some (0, w))\<rparr>"

definition sample_json :: json where
  "sample_json = JObj [(''token_type'', JStr ''bearer''), (''scope'', JStr ''files''), (''expires_in'', JNum 3600),
     (''access_token'', JStr ''A2''), (''refresh_token'', JStr ''R2'')]"

text \<open>No server can be reached.\<close>

definition offline :: "(json, unit) ext" where
  "offline = json_ext (\<lambda>_ _ r. (\<lparr>t_code = 7, t_chunks = [], t_status = 0, t_info = 0\<rparr>, r))
     (\<lambda>_. Some sample_json) (\<lambda>_. None)"

lemma sample_quiet [simp]:
  "quiet_writeback sample_token" "quiet_writeback (oauth_token_set_expired sample_token)"
  by (simp_all add: quiet_writeback_def sample_token_def oauth_token_set_expired_def)

lemma calm_new [simp]:
  "http_client_new X (calm_world ()) = (Some fresh_client, (calm_world ())\<lparr>live_http := 1\<rparr>)"
  by (simp add: http_client_new_def calm_world_def c_alloc_def take_fault_def)

lemma refresh_offline:
  "oauth_token_check_expire offline (oauth_token_set_expired sample_token) (calm_world ())
     = Some (int_of_error (HIVE_CURL_ERROR 7), oauth_token_set_expired sample_token,
             (calm_world ())\<lparr>tick := 1\<rparr>)"
  by (simp add: oauth_token_check_expire_def oauth_token_is_expired_def c_gettimeofday_def timer_gt_def
      oauth_token_set_expired_def sample_token_def calm_world_def refresh_access_token_def
      http_client_new_def c_alloc_def take_fault_def http_client_escape_def offline_def json_ext_def
      c_snprintf_def token_post_def http_client_set_url_def http_client_set_method_def Let_def
      curl_url_set_def http_client_request_def http_client_close_def)

lemma token_check_atomic_witness:
  "\<exists>rc tok' w'. oauth_token_check_expire offline (oauth_token_set_expired sample_token) (calm_world ())
      = Some (rc, tok', w') \<and> rc < 0 \<and> tok' = oauth_token_set_expired sample_token \<and> live_http w' = 0"
  using token_check_atomic [OF _ refresh_offline] by (simp add: refresh_offline)

lemma set_expired_refreshes_witness:
  "\<exists>rc tok' w'. oauth_token_check_expire offline (oauth_token_set_expired sample_token) (calm_world ())
      = Some (rc, tok', w') \<and> (rc < 0 \<and> tok' = oauth_token_set_expired sample_token \<or> rc = 0 \<and> renewed sample_token tok')"
  using set_expired_refreshes [OF _ _ refresh_offline]
  by (simp add: refresh_offline timer_gt_def)

lemma token_reachable_ok_witness:
  "\<exists>tok w0. oauth_token_new offline \<lparr>opt_authorize_url = ''a'', opt_token_url = ''t'', opt_client_id = ''id'',
       opt_scope = ''s'', opt_redirect_url = ''r'', opt_store = None\<rparr> (\<lambda>j w. Some (0, w)) (calm_world ())
     = Some (Some tok, w0) \<and> token_run (tok, w0) (oauth_token_set_expired tok, w0) \<and>
     token_ok (oauth_token_set_expired tok) \<and> client_id (oauth_token_set_expired tok) = ''id''"
proof -
  let ?o = "\<lparr>opt_authorize_url = ''a'', opt_token_url = ''t'', opt_client_id = ''id'',
       opt_scope = ''s'', opt_redirect_url = ''r'', opt_store = None\<rparr> :: json oauth_options"
  have "\<exists>tok w0. oauth_token_new offline ?o (\<lambda>j w. Some (0, w)) (calm_world ()) = Some (Some tok, w0)"
    by (simp add: oauth_token_new_def restore_access_token_def c_alloc_def take_fault_def calm_world_def)
  then obtain tok w0 where new: "oauth_token_new offline ?o (\<lambda>j w. Some (0, w)) (calm_world ()) = Some (Some tok, w0)"
    by blast
  have run: "token_run (tok, w0) (oauth_token_set_expired tok, w0)"
    by (rule token_run.step [OF token_run.start token_step.expire])
  from token_reachable_ok [OF new _ run] new run show ?thesis by auto
qed

lemma token_store_roundtrip_witness:
  "\<exists>j. writeback_tokens offline sample_token (calm_world ()) = Some (calm_world ()) \<and>
     restore_access_token offline (Some j) (sample_token\<lparr>access_token := None\<rparr>) (calm_world ())
       = Some (0, sample_token, calm_world ())"
  using token_store_roundtrip
    [of offline sample_token "''bearer''" "''A''" "''R''" "calm_world ()" "sample_token\<lparr>access_token := None\<rparr>" "calm_world ()"]
  by (auto simp: offline_def json_ext_laws sample_token_def calm_world_def)

lemma decode_installs_tokens_witness:
  "decode_access_token offline sample_token (''{}'' @ [NUL]) (calm_world ())
     = Some (0, sample_token\<lparr>access_token := Some ''A2'', refresh_token := Some ''R2'', expires_at := (4600, 0)\<rparr>,
             (calm_world ())\<lparr>tick := 1\<rparr>)"
  using decode_installs_tokens [of offline "''{}'' @ [NUL]" sample_json "calm_world ()" "JNum 3600" sample_token]
  by (simp add: offline_def json_ext_def parse_block_def c_string_in_def calm_world_def IS_STRING_NODE_def
      is_string_def valuestring_of_def json_item_def sample_json_def timeradd_def sample_token_def)

definition sample_auth :: "bool \<Rightarrow> unit auth_env" where
  "sample_auth up = \<lparr>ae_net = sample_net up, ae_thread_rc = 0, ae_polls = (\<lambda>_ r. (sample_polls, r))\<rparr>"

lemma sample_authorize:
  "\<exists>c1. authorize_request offline sample_token fresh_client = Some c1 \<and>
     http_client_get_url_escape offline c1 = (0, Some ''x'') \<and>
     (\<exists>rc c2. http_client_set_url offline (http_client_reset c1) (redirect_url sample_token) = Some (rc, c2) \<and>
        redirect_parts offline c2 = Inr (''x'', ''x'', ''/cb''))"
  by (simp add: authorize_request_def http_client_set_url_def http_client_set_query_def curl_url_set_def
      sample_token_def offline_def json_ext_def http_client_get_url_escape_def url_get_def redirect_parts_def
      http_client_get_host_def http_client_get_port_def http_client_get_path_def)

lemma authorize_code_received_witness:
  "\<exists>w'. get_authorize_code offline (sample_auth True) sample_token 512 (calm_world ()) = Some (Some ''C7'', w')"
proof -
  let ?X = "offline :: (_, unit) ext"
  obtain c1 rc c2 where a: "authorize_request ?X sample_token fresh_client = Some c1"
    "http_client_get_url_escape ?X c1 = (0, Some ''x'')"
    "http_client_set_url ?X (http_client_reset c1) (redirect_url (sample_token :: (_, unit) oauth_token)) = Some (rc, c2)"
    "redirect_parts ?X c2 = Inr (''x'', ''x'', ''/cb'')"
    using sample_authorize by blast
  show ?thesis
    by (rule authorize_code_received [OF calm_new _ a, where lfd = 3 and pre = "''GET /cb''" and vars = "[]"
          and rest = "'' HTTP/1.1'' @ [CR, LF, CR, LF]"])
      (use sample_redirect sample_visit in \<open>simp_all add: sample_auth_def sample_net_def
        FD_SETSIZE_def calm_world_def\<close>)
qed

lemma token_request_stale_error_witness:
  "let tok = sample_token\<lparr>access_token := None\<rparr> in
   \<exists>w'. oauth_token_request offline (sample_auth False) tok (calm_world ()) = Some (0, tok, w') \<and> access_token tok = None"
proof -
  have "\<exists>c1. authorize_request offline (sample_token\<lparr>access_token := None\<rparr>) fresh_client = Some c1 \<and>
     http_client_get_url_escape offline c1 = (0, Some ''x'') \<and>
     (\<exists>rc c2. http_client_set_url offline (http_client_reset c1) (redirect_url (sample_token\<lparr>access_token := None\<rparr>)) = Some (rc, c2) \<and>
        redirect_parts offline c2 = Inr (''x'', ''x'', ''/cb''))"
    using sample_authorize by (simp add: authorize_request_def)
  then show ?thesis
    using token_request_stale_error [OF _ calm_new, of "sample_token\<lparr>access_token := None\<rparr>" offline _ "''x''" _ _
        "''x''" "''x''" "''/cb''" "sample_auth False"]
    by (auto simp: sample_auth_def sample_net_def calm_world_def Let_def)
qed

end
