(* ===== verification/Hive_Mkdirs.thy ===== *)
theory Hive_Mkdirs
  imports Hive_Libc
begin

text \<open>
  \<open>src/src/mkdirs.c\<close>: creating a directory and its missing ancestors.  \<open>mkdirs_loop\<close> is the
  \<open>while\<close> loop over the copy of the path: \<open>pre\<close> is the part before \<open>pp\<close>, \<open>rest\<close> the part from
  \<open>pp\<close> on; the temporary NUL at \<open>sp\<close> makes the string passed to \<open>mkdir_internal\<close> be \<open>pre @ seg\<close>.
\<close>

definition PATH_MAX :: nat where [hive_const]: "PATH_MAX = 4096"

definition mkdir_internal :: "string \<Rightarrow> 'r world \<Rightarrow> int \<times> 'r world" where
  "mkdir_internal path w =
     (case c_stat path w of
        (None, w1) \<Rightarrow>
          (case c_mkdir path w1 of (rc, w2) \<Rightarrow>
             if rc \<noteq> 0 \<and> errno w2 \<noteq> EEXIST then (-1, w2) else (0, w2))
      | (Some Dir, w1) \<Rightarrow> (0, w1)
      | (Some (File d), w1) \<Rightarrow> (-1, set_errno ENOTDIR w1))"

lemma after_slash_shorter:
  assumes "CHR ''/'' \<in> set rest"
  shows "length (tl (dropWhile (\<lambda>c. c \<noteq> CHR ''/'') rest)) < length rest"
proof -
  have "rest \<noteq> []" using assms by auto
  then show ?thesis
    using length_dropWhile_le [of "\<lambda>c. c \<noteq> CHR ''/''" rest]
    by (cases rest) (simp_all add: less_Suc_eq_le)
qed

function mkdirs_loop :: "int \<Rightarrow> string \<Rightarrow> string \<Rightarrow> 'r world \<Rightarrow> int \<times> 'r world" where
  "mkdirs_loop rc pre rest w =
     (if rc = 0 \<and> CHR ''/'' \<in> set rest then
        (let seg = takeWhile (\<lambda>c. c \<noteq> CHR ''/'') rest;
             rest' = tl (dropWhile (\<lambda>c. c \<noteq> CHR ''/'') rest)
         in if seg = [] then mkdirs_loop rc (pre @ ''/'') rest' w
            else (case mkdir_internal (pre @ seg) w of
                    (rc', w') \<Rightarrow> mkdirs_loop rc' (pre @ seg @ ''/'') rest' w'))
      else (rc, w))"
  by pat_completeness auto

termination
  by (relation "measure (\<lambda>(rc, pre, rest, w). length rest)")
    (simp_all add: after_slash_shorter del: length_tl)

declare mkdirs_loop.simps [simp del]

definition mkdirs :: "string \<Rightarrow> 'r world \<Rightarrow> int \<times> 'r world" where
  "mkdirs path w =
     (case mkdirs_loop 0 [] (take (PATH_MAX - 1) path) w of
        (rc, w') \<Rightarrow> if rc = 0 then mkdir_internal path w' else (rc, w'))"

lemma mkdir_internal_live: "mkdir_internal path w = (rc, w') \<Longrightarrow> held w' = held w"
  by (auto simp: mkdir_internal_def fs_live split: if_splits option.splits prod.splits fnode.splits)

lemma mkdirs_loop_live: "mkdirs_loop rc pre rest w = (rc', w') \<Longrightarrow> held w' = held w"
proof (induction rc pre rest w arbitrary: rc' w' rule: mkdirs_loop.induct)
  case (1 rc pre rest w)
  obtain rc1 w1 where m: "mkdir_internal (pre @ takeWhile (\<lambda>c. c \<noteq> CHR ''/'') rest) w = (rc1, w1)" by fastforce
  with 1 mkdirs_loop.simps [of rc pre rest w] mkdir_internal_live [OF m] show ?case
    by (simp add: Let_def split: if_splits)
qed

lemma mkdirs_live: "mkdirs path w = (rc, w') \<Longrightarrow> held w' = held w"
  by (auto simp: mkdirs_def split: prod.splits if_splits dest!: mkdirs_loop_live mkdir_internal_live)

section \<open>Path keys\<close>

lemma split_slash_nonempty [simp]: "split_slash s \<noteq> []"
  by (induction s) (auto split: list.splits)

lemma split_slash_append:
  "split_slash (p @ CHR ''/'' # q) = split_slash p @ split_slash q"
  by (induction p) (auto split: list.splits)

lemma split_slash_segment: "CHR ''/'' \<notin> set s \<Longrightarrow> split_slash s = [s]"
  by (induction s) auto

lemma path_key_slash: "path_key (p @ CHR ''/'' # q) = path_key p @ path_key q"
  by (simp add: path_key_def split_slash_append)

lemma path_key_Nil [simp]: "path_key [] = []"
  by (simp add: path_key_def)

text \<open>What precedes \<open>pp\<close> is empty or ends with a slash.\<close>

definition closed_prefix :: "string \<Rightarrow> bool" where
  "closed_prefix pre \<longleftrightarrow> pre = [] \<or> last pre = CHR ''/''"

lemma path_key_closed:
  assumes "closed_prefix pre"
  shows "path_key (pre @ q) = path_key pre @ path_key q"
proof (cases pre rule: rev_cases)
  case (snoc p c)
  with assms have "pre = p @ ''/''" by (simp add: closed_prefix_def)
  then show ?thesis by (simp add: path_key_slash)
qed simp

section \<open>Creating one directory\<close>

text \<open>The specification: every non-empty prefix of the path becomes a directory.\<close>

definition add_dirs :: "string list \<Rightarrow> (string list \<Rightarrow> fnode option) \<Rightarrow> string list \<Rightarrow> fnode option" where
  "add_dirs k fs = (\<lambda>p. if p \<noteq> [] \<and> prefix p k \<and> fs p = None then Some Dir else fs p)"

definition no_file_on :: "string list \<Rightarrow> (string list \<Rightarrow> fnode option) \<Rightarrow> bool" where
  "no_file_on k fs \<longleftrightarrow> (\<forall>p d. prefix p k \<longrightarrow> p \<noteq> [] \<longrightarrow> fs p \<noteq> Some (File d))"

lemma no_file_on_prefix: "no_file_on k fs \<Longrightarrow> prefix j k \<Longrightarrow> no_file_on j fs"
  by (auto simp: no_file_on_def)

lemma no_file_on_add_dirs: "no_file_on k fs \<Longrightarrow> no_file_on k (add_dirs j fs)"
  by (auto simp: no_file_on_def add_dirs_def)

lemma add_dirs_mono: "prefix j k \<Longrightarrow> add_dirs k (add_dirs j fs) = add_dirs k fs"
  by (rule ext) (auto simp: add_dirs_def dest: prefix_order.trans)

lemma add_dirs_at: "no_file_on k fs \<Longrightarrow> k \<noteq> [] \<Longrightarrow> add_dirs k fs k = Some Dir"
  by (cases "fs k") (auto simp: add_dirs_def no_file_on_def fnode.exhaust intro: fnode.exhaust)

lemma add_dirs_Nil [simp]: "add_dirs [] fs = fs"
  by (rule ext) (auto simp: add_dirs_def)

lemma add_dirs_snoc:
  "add_dirs (j @ [x]) fs =
     (if add_dirs j fs (j @ [x]) = None then (add_dirs j fs)(j @ [x] := Some Dir) else add_dirs j fs)"
  by (rule ext) (auto simp: add_dirs_def)

lemma add_dirs_absorb: "prefix j k \<Longrightarrow> add_dirs j (add_dirs k fs) = add_dirs k fs"
  by (rule ext) (auto simp: add_dirs_def dest: prefix_order.trans)

lemma mkdir_internal_spec:
  assumes "faults w = []" and "no_file_on (path_key p) (files w)"
    and fs: "files w = add_dirs (butlast (path_key p)) fs"
  shows "\<exists>w'. mkdir_internal p w = (0, w') \<and> faults w' = [] \<and>
           files w' = add_dirs (path_key p) fs"
proof (cases "path_key p" rule: rev_cases)
  case Nil
  with assms(1) fs show ?thesis
    by (simp add: mkdir_internal_def c_stat_def take_fault_def node_at_def)
next
  case (snoc j x)
  with fs have fj: "files w = add_dirs j fs" by simp
  show ?thesis
  proof (cases "files w (j @ [x])")
    case None
    have "files w j \<noteq> None \<or> j = []"
      by (auto simp: fj add_dirs_def)
    with assms(2) snoc have "parent_dir w (j @ [x])"
      by (cases "files w j"; cases "the (files w j)")
        (auto simp: parent_dir_def node_at_def no_file_on_def)
    with None snoc assms(1) fj show ?thesis
      by (simp add: mkdir_internal_def libc_defs node_at_def parent_dir_def add_dirs_snoc hive_const
          split: if_splits)
  next
    case (Some n)
    with assms(2) snoc have "n = Dir"
      by (cases n) (auto simp: no_file_on_def)
    with Some snoc assms(1) fj show ?thesis
      by (simp add: mkdir_internal_def libc_defs node_at_def add_dirs_snoc)
  qed
qed

lemma mkdir_internal_again:
  assumes "faults w = []" and "no_file_on (path_key p) (files w)"
    and "files w = add_dirs (path_key p) fs"
  shows "\<exists>w'. mkdir_internal p w = (0, w') \<and> faults w' = [] \<and>
           files w' = add_dirs (path_key p) fs"
proof -
  have "files w = add_dirs (butlast (path_key p)) (files w)"
    using assms(3) by (simp add: add_dirs_absorb prefixeq_butlast)
  from mkdir_internal_spec [OF assms(1,2) this] assms(3) show ?thesis
    by (simp add: add_dirs_absorb)
qed

section \<open>The loop and \<open>mkdirs\<close>\<close>

text \<open>The loop creates the directories of every component that ends at a slash and leaves the
  text after the last slash.\<close>

definition upto_slash :: "string \<Rightarrow> string" where
  "upto_slash s = rev (dropWhile (\<lambda>c. c \<noteq> CHR ''/'') (rev s))"

lemma upto_slash_no_slash: "CHR ''/'' \<notin> set s \<Longrightarrow> upto_slash s = []"
  by (simp add: upto_slash_def)

lemma upto_slash_slash: "upto_slash (seg @ CHR ''/'' # rest) = seg @ CHR ''/'' # upto_slash rest"
proof (cases "CHR ''/'' \<in> set rest")
  case True
  then show ?thesis by (simp add: upto_slash_def dropWhile_append1)
next
  case False
  then show ?thesis by (simp add: upto_slash_def dropWhile_append3)
qed

lemma slash_split:
  assumes "CHR ''/'' \<in> set rest"
  obtains seg rest' where "rest = seg @ CHR ''/'' # rest'" "CHR ''/'' \<notin> set seg"
    "seg = takeWhile (\<lambda>c. c \<noteq> CHR ''/'') rest"
    "rest' = tl (dropWhile (\<lambda>c. c \<noteq> CHR ''/'') rest)"
proof -
  obtain seg rest' where "rest = seg @ CHR ''/'' # rest'" "CHR ''/'' \<notin> set seg"
    using split_list_first [OF assms] by auto
  then show ?thesis using that by simp
qed

lemma mkdirs_loop_spec:
  assumes "faults w = []" and "closed_prefix pre" and "files w = add_dirs (path_key pre) fs"
    and "no_file_on (path_key (pre @ rest)) fs"
  shows "\<exists>w'. mkdirs_loop 0 pre rest w = (0, w') \<and> faults w' = [] \<and>
           files w' = add_dirs (path_key (pre @ upto_slash rest)) fs"
  using assms
proof (induction "length rest" arbitrary: pre rest w rule: less_induct)
  case less
  show ?case
  proof (cases "CHR ''/'' \<in> set rest")
    case False
    with less.prems show ?thesis
      by (subst mkdirs_loop.simps) (simp add: upto_slash_no_slash)
  next
    case True
    then obtain seg rest' where r: "rest = seg @ CHR ''/'' # rest'" and ns: "CHR ''/'' \<notin> set seg"
      and seg: "seg = takeWhile (\<lambda>c. c \<noteq> CHR ''/'') rest"
      and rest': "rest' = tl (dropWhile (\<lambda>c. c \<noteq> CHR ''/'') rest)"
      by (rule slash_split)
    have short: "length rest' < length rest" using r by simp
    have cl: "closed_prefix (pre @ seg @ ''/'')" by (simp add: closed_prefix_def)
    have key: "path_key (pre @ seg @ ''/'') = path_key pre @ path_key seg"
      using path_key_slash [of "pre @ seg" "[]"] path_key_closed [OF less.prems(2), of seg] by simp
    have nof: "no_file_on (path_key ((pre @ seg @ ''/'') @ rest')) fs"
      using less.prems(4) r by simp
    have step: "mkdirs_loop 0 pre rest w =
        (if seg = [] then mkdirs_loop 0 (pre @ ''/'') rest' w
         else case mkdir_internal (pre @ seg) w of
                (rc', w') \<Rightarrow> mkdirs_loop rc' (pre @ seg @ ''/'') rest' w')"
      using True by (subst mkdirs_loop.simps) (simp add: Let_def flip: seg rest')
    show ?thesis
    proof (cases "seg = []")
      case True
      with less.hyps [OF short less.prems(1) cl _ nof] less.prems(3) key step r show ?thesis
        by (simp add: upto_slash_slash [of "[]", simplified])
    next
      case False
      have segkey: "path_key seg = [seg] \<or> path_key seg = []"
        using ns False by (simp add: path_key_def split_slash_segment)
      have kseg: "path_key (pre @ seg) = path_key pre @ path_key seg"
        using path_key_closed [OF less.prems(2)] .
      have full: "path_key (pre @ rest) = path_key pre @ path_key seg @ path_key rest'"
        using path_key_slash [of "pre @ seg" rest'] kseg r by simp
      have nf: "no_file_on (path_key (pre @ seg)) (files w)"
        using no_file_on_add_dirs [OF no_file_on_prefix [OF less.prems(4)],
            of "path_key (pre @ seg)"] less.prems(3) kseg full by simp
      have "\<exists>w'. mkdir_internal (pre @ seg) w = (0, w') \<and> faults w' = [] \<and>
          files w' = add_dirs (path_key (pre @ seg)) fs"
        using segkey
      proof
        assume "path_key seg = [seg]"
        with kseg less.prems(3) show ?thesis
          by (intro mkdir_internal_spec [OF less.prems(1) nf]) simp
      next
        assume "path_key seg = []"
        with kseg less.prems(3) show ?thesis
          by (intro mkdir_internal_again [OF less.prems(1) nf]) simp
      qed
      then obtain w1 where w1: "mkdir_internal (pre @ seg) w = (0, w1)" "faults w1 = []"
        "files w1 = add_dirs (path_key (pre @ seg @ ''/'')) fs"
        using key kseg by auto
      from less.hyps [OF short w1(2) cl w1(3) nof] show ?thesis
        using False step w1(1) r by (simp add: upto_slash_slash)
    qed
  qed
qed

lemma path_key_upto_slash:
  "path_key (upto_slash p) = path_key p \<or> path_key (upto_slash p) = butlast (path_key p)"
proof (cases "CHR ''/'' \<in> set p")
  case False
  then show ?thesis by (simp add: upto_slash_no_slash path_key_def split_slash_segment)
next
  case True
  then obtain a b where p: "p = a @ CHR ''/'' # b" and nb: "CHR ''/'' \<notin> set b"
    using split_list_last by force
  then have "upto_slash p = a @ ''/''"
    by (simp add: upto_slash_slash upto_slash_no_slash)
  moreover have "path_key (a @ ''/'') = path_key a"
    using path_key_slash [of a "[]"] by simp
  moreover have "path_key b = [b] \<or> path_key b = []"
    using nb by (simp add: path_key_def split_slash_segment)
  ultimately show ?thesis
    using p by (auto simp: path_key_slash)
qed

lemma mkdirs_spec:
  assumes "faults w = []" and "length path < PATH_MAX"
    and "no_file_on (path_key path) (files w)"
  shows "\<exists>w'. mkdirs path w = (0, w') \<and> faults w' = [] \<and> files w' = add_dirs (path_key path) (files w) \<and>
           node_at w' (path_key path) = Some Dir"
proof -
  have t: "take (PATH_MAX - 1) path = path" using assms(2) by simp
  obtain w1 where w1: "mkdirs_loop 0 [] path w = (0, w1)" "faults w1 = []"
    "files w1 = add_dirs (path_key (upto_slash path)) (files w)"
    using mkdirs_loop_spec [of w "[]" "files w" path] assms(1,3)
    by (auto simp: closed_prefix_def)
  have nf: "no_file_on (path_key path) (files w1)"
    using w1(3) assms(3) by (simp add: no_file_on_add_dirs)
  have "\<exists>w'. mkdir_internal path w1 = (0, w') \<and> faults w' = [] \<and>
      files w' = add_dirs (path_key path) (files w)"
    using path_key_upto_slash [of path] w1(3)
    by (auto intro: mkdir_internal_spec [OF w1(2) nf] mkdir_internal_again [OF w1(2) nf])
  then show ?thesis
    using t w1(1) add_dirs_at [OF assms(3)] by (auto simp: mkdirs_def node_at_def)
qed




end
