(* ===== verification/Hive_OneDrive.thy ===== *)
theory Hive_OneDrive
  imports Hive_OAuth Hive_Mkdirs
begin

text \<open>
  The OneDrive backend (\<open>src/src/vendors/onedrive/onedrive.c\<close>).

  \<^item> \<open>OneDriveConnect\<close> is the structure without its method table: the OAuth token and the path of
    the key store.  The static functions \<open>__f\<close> of the source are \<open>od__f\<close>, its methods \<open>f\<close> are
    \<open>od_f\<close>.  An operation returns the C result, the connection and the world; the error exits
    that only differ in where the HTTP client is closed are spelled out as in the source.
  \<^item> The buffer and the length a caller passes are one list of bytes.
  \<^item> The URL of a request is written with \<open>sprintf\<close> into an array of \<open>MAX_URL_LEN\<close> bytes: a path
    that does not fit leaves the operation without a result.
\<close>

section \<open>Constants and state\<close>

definition URL_OAUTH :: string where
  "URL_OAUTH = ''https://login.microsoftonline.com/common/oauth2/v2.0/''"
definition APP_ROOT :: string where
  "APP_ROOT = ''https://graph.microsoft.com/v1.0/me/drive/special/approot''"
definition FILES_DIR :: string where "FILES_DIR = ''/Files''"
definition KEYS_DIR :: string where "KEYS_DIR = ''/KeyValues''"
definition HIVE_MAX_VALUE_LEN :: nat where [hive_const]: "HIVE_MAX_VALUE_LEN = 32 * 1024"

record ('j, 'r) OneDriveConnect =
  od_token :: "('j, 'r) oauth_token"
  keystore_path :: string

type_synonym ('j, 'r, 'a) od_op =
  "('j, 'r) OneDriveConnect \<Rightarrow> 'r world \<Rightarrow> ('a \<times> ('j, 'r) OneDriveConnect \<times> 'r world) option"

section \<open>The key store\<close>

definition load_keystore_in_json :: "('j, 'r) ext \<Rightarrow> string \<Rightarrow> 'r world \<Rightarrow> ('j option \<times> 'r world) option" where
  "load_keystore_in_json X path w =
     (case c_stat path w of
        (None, w1) \<Rightarrow> Some (None, w1)
      | (Some node, w1) \<Rightarrow>
          (let st_size = (case node of Dir \<Rightarrow> 4096 | File d \<Rightarrow> length d) in
           if st_size = 0 \<or> st_size > 4096 then Some (None, set_errno ERANGE w1)
           else (case c_open path RDONLY w1 of
             (None, w2) \<Rightarrow> Some (None, w2)
           | (Some fd, w2) \<Rightarrow>
              (let ((rc, d), w3) = c_read fd st_size w2; w4 = c_close fd w3 in
               if rc < 0 \<or> rc \<noteq> int st_size then Some (None, w4)
               else do {
                 json \<leftarrow> parse_block X (d @ replicate (4096 - length d) NUL);
                 Some (json, if json = None then set_errno ENOMEM w4 else w4)
               }))))"

definition oauth_writeback ::
  "('j, 'r) ext \<Rightarrow> string \<Rightarrow> 'j \<Rightarrow> 'r world \<Rightarrow> (int \<times> 'r world) option" where
  "oauth_writeback X path json w =
     (let s = cJSON_PrintUnformatted X json in
      if null_or_empty s then Some (int_of_error (HIVE_GENERAL_ERROR HIVEERR_OUT_OF_MEMORY), w)
      else (case c_open path TRUNC_CREAT w of
        (None, w1) \<Rightarrow> Some (int_of_error (HIVE_SYS_ERROR (errno w1)), w1)
      | (Some fd, w1) \<Rightarrow>
          (let (n, w2) = c_write fd (the s @ [NUL]) w1; w3 = c_close fd w2 in
           Some (if n \<noteq> int (length (the s) + 1) then int_of_error (HIVE_SYS_ERROR (errno w3)) else 0, w3))))"

definition expire_token :: "('j, 'r) OneDriveConnect \<Rightarrow> ('j, 'r) OneDriveConnect" where
  "expire_token cn = cn\<lparr>od_token := oauth_token_set_expired (od_token cn)\<rparr>"

section \<open>Requests\<close>

definition od_check_expire :: "('j, 'r) ext \<Rightarrow> ('j, 'r, int) od_op" where
  "od_check_expire X cn w = do {
     (rc, tok, w1) \<leftarrow> oauth_token_check_expire X (od_token cn) w;
     Some (rc, cn\<lparr>od_token := tok\<rparr>, w1)
   }"

text \<open>What every authorized request does once it is set up: perform it, read the response code,
  and expire the token when the server answers 401.  \<open>Inl\<close> carries the error to return, \<open>Inr\<close> the
  response code.\<close>

definition authorized_request ::
  "('j, 'r) ext \<Rightarrow> http_client \<Rightarrow> ('j, 'r) OneDriveConnect \<Rightarrow> 'r world
     \<Rightarrow> ((int + int) \<times> http_client \<times> ('j, 'r) OneDriveConnect \<times> 'r world) option" where
  "authorized_request X c cn w = do {
     (rc, c1, w1) \<leftarrow> http_client_request X c w;
     if rc \<noteq> 0 then Some (Inl (int_of_error (HIVE_CURL_ERROR rc)), c1, cn, w1)
     else (case http_client_get_response_code c1 of (rc, resp) \<Rightarrow>
       if rc \<noteq> 0 then Some (Inl (int_of_error (HIVE_CURL_ERROR rc)), c1, cn, w1)
       else if resp_code_of resp = HttpStatus_Unauthorized
       then Some (Inl (int_of_error (HIVE_GENERAL_ERROR HIVEERR_TRY_AGAIN)), c1, expire_token cn, w1)
       else Some (Inr (resp_code_of resp), c1, cn, w1))
   }"

definition set_header :: "string \<Rightarrow> string option \<Rightarrow> http_client \<times> 'r world \<Rightarrow> (http_client \<times> 'r world) option" where
  "set_header name value s = (case s of (c, w) \<Rightarrow> do {
     (_, c1, w1) \<leftarrow> http_client_set_header c name value w;
     Some (c1, w1)
   })"

text \<open>\<open>http_client_set_url\<close> and \<open>http_client_set_method\<close>, whose codes are ignored.\<close>

definition start_request :: "('j, 'r) ext \<Rightarrow> http_client \<Rightarrow> string \<Rightarrow> http_method \<Rightarrow> http_client option" where
  "start_request X c url method = do {
     (_, c1) \<leftarrow> http_client_set_url X c url;
     let (_, c2) = http_client_set_method X c1 method;
     Some c2
   }"

definition authorization :: "('j, 'r) OneDriveConnect \<Rightarrow> http_client \<times> 'r world \<Rightarrow> (http_client \<times> 'r world) option" where
  "authorization cn = set_header ''Authorization'' (get_bearer_token (od_token cn))"

definition build_create_folder_request_body ::
  "('j, 'r) ext \<Rightarrow> string \<Rightarrow> 'r world \<Rightarrow> string option \<times> 'r world" where
  "build_create_folder_request_body X fname w =
     (let (ok, w1) = c_alloc w in
      if \<not> ok then (None, w1)
      else (case cJSON_AddStringToObject X (cJSON_CreateObject X) ''name'' fname of
              None \<Rightarrow> (None, w1)
            | Some j \<Rightarrow> (case cJSON_AddObjectToObject X j ''folder'' of
                None \<Rightarrow> (None, w1) | Some j2 \<Rightarrow> (cJSON_PrintUnformatted X j2, w1))))"

definition od__create_folder ::
  "('j, 'r) ext \<Rightarrow> http_client \<Rightarrow> string \<Rightarrow> ('j, 'r, int \<times> http_client) od_op" where
  "od__create_folder X c path cn w = do {
     p \<leftarrow> c_strcpy PATH_MAX path;
     let dir = c_dirname p;
     url \<leftarrow> c_strcpy MAX_URL_LEN
            (if dir = ''/'' then APP_ROOT @ ''/children'' else APP_ROOT @ '':'' @ dir @ '':/children'');
     let (body, w1) = build_create_folder_request_body X (c_basename p) w;
     case body of
       None \<Rightarrow> Some ((int_of_error (HIVE_GENERAL_ERROR HIVEERR_OUT_OF_MEMORY), c), cn, w1)
     | Some b \<Rightarrow> do {
         c1 \<leftarrow> start_request X c url HTTP_METHOD_POST;
         (c2, w2) \<leftarrow> set_header ''Content-Type'' (Some ''application/json'') (c1, w1);
         (c3, w3) \<leftarrow> authorization cn (c2, w2);
         (r, c4, cn1, w4) \<leftarrow> authorized_request X
            (http_client_set_request_body_instant c3 (Some b) (length b)) cn w3;
         case r of
           Inl e \<Rightarrow> Some ((e, c4), cn1, w4)
         | Inr resp \<Rightarrow>
             Some ((if resp \<noteq> HttpStatus_Created \<and> resp \<noteq> HttpStatus_OK
                    then int_of_error (HIVE_HTTP_STATUS_ERROR resp) else 0, c4), cn1, w4)
       }
   }"

definition od__upload_file ::
  "('j, 'r) ext \<Rightarrow> http_client \<Rightarrow> string \<Rightarrow> bytes \<Rightarrow> ('j, 'r, int \<times> http_client) od_op" where
  "od__upload_file X c file_path from cn w = do {
     url \<leftarrow> c_strcpy MAX_URL_LEN (APP_ROOT @ '':'' @ file_path @ '':/content'');
     c1 \<leftarrow> start_request X c url HTTP_METHOD_PUT;
     (c2, w2) \<leftarrow> authorization cn (c1, w);
     (r, c3, cn1, w3) \<leftarrow> authorized_request X
        (http_client_set_request_body_instant c2 (if from \<noteq> [] then Some from else None) (length from)) cn w2;
     case r of
       Inl e \<Rightarrow> Some ((e, c3), cn1, w3)
     | Inr resp \<Rightarrow>
         Some ((if resp \<noteq> HttpStatus_Created \<and> resp \<noteq> HttpStatus_OK
                then int_of_error (HIVE_HTTP_STATUS_ERROR resp) else 0, c3), cn1, w3)
   }"

section \<open>Uploads\<close>

text \<open>On success the upload URL is what \<open>snprintf\<close> left in the \<open>len\<close> bytes at \<open>upload_url\<close>.\<close>

definition od__create_upload_session ::
  "('j, 'r) ext \<Rightarrow> http_client \<Rightarrow> string \<Rightarrow> nat \<Rightarrow> ('j, 'r, (int + string) \<times> http_client) od_op" where
  "od__create_upload_session X c file_path len cn w = do {
     url \<leftarrow> c_strcpy MAX_URL_LEN (APP_ROOT @ '':'' @ file_path @ '':/createUploadSession'');
     c1 \<leftarrow> start_request X c url HTTP_METHOD_POST;
     (c2, w2) \<leftarrow> authorization cn (c1, w);
     (r, c3, cn1, w3) \<leftarrow> authorized_request X
        (http_client_enable_response_body (http_client_set_request_body_instant c2 None 0)) cn w2;
     case r of
       Inl e \<Rightarrow> Some ((Inl e, c3), cn1, w3)
     | Inr resp \<Rightarrow>
         if resp \<noteq> HttpStatus_OK then Some ((Inl (int_of_error (HIVE_HTTP_STATUS_ERROR resp)), c3), cn1, w3)
         else do {
           (p, _, c4) \<leftarrow> http_client_move_response_body c3 False;
           case p of
             None \<Rightarrow> Some ((Inl (int_of_error (HIVE_GENERAL_ERROR HIVEERR_OUT_OF_MEMORY)), c4), cn1, w3)
           | Some b \<Rightarrow> do {
               json \<leftarrow> parse_block X b;
               case json of
                 None \<Rightarrow> Some ((Inl (int_of_error (HIVE_GENERAL_ERROR HIVEERR_OUT_OF_MEMORY)), c4), cn1, w3)
               | Some j \<Rightarrow>
                   (let item = cJSON_GetObjectItemCaseSensitive X j ''uploadUrl'' in
                    if \<not> IS_STRING_NODE X item
                    then Some ((Inl (int_of_error (HIVE_GENERAL_ERROR HIVEERR_BAD_JSON_FORMAT)), c4), cn1, w3)
                    else (let (n, s) = c_snprintf len (the (valuestring_of X item)) in
                      if n < 0 \<or> n \<ge> int len
                      then Some ((Inl (int_of_error (HIVE_GENERAL_ERROR HIVEERR_BUFFER_TOO_SMALL)), c4), cn1, w3)
                      else Some ((Inr s, c4), cn1, w3)))
             }
         }
   }"

definition od__upload_to_session ::
  "('j, 'r) ext \<Rightarrow> http_client \<Rightarrow> string \<Rightarrow> bytes \<Rightarrow> 'r world \<Rightarrow> (int \<times> http_client \<times> 'r world) option" where
  "od__upload_to_session X c upload_url buf w = do {
     c1 \<leftarrow> start_request X c upload_url HTTP_METHOD_PUT;
     (c2, w2) \<leftarrow> set_header ''Content-Length'' (Some (show_nat (length buf))) (c1, w);
     (c3, w3) \<leftarrow> set_header ''Content-Range''
        (Some (''bytes 0-'' @ show_nat (length buf - 1) @ ''/'' @ show_nat (length buf))) (c2, w2);
     (c4, w4) \<leftarrow> set_header ''Transfer-Encoding'' (Some '''') (c3, w3);
     (c5, w5) \<leftarrow> set_header ''Expect'' (Some '''') (c4, w4);
     (rc, c6, w6) \<leftarrow> http_client_request X (http_client_set_request_body_instant c5 (Some buf) (length buf)) w5;
     if rc \<noteq> 0 then Some (int_of_error (HIVE_CURL_ERROR rc), c6, w6)
     else (case http_client_get_response_code c6 of (rc, resp) \<Rightarrow>
       if rc \<noteq> 0 then Some (int_of_error (HIVE_CURL_ERROR rc), c6, w6)
       else if resp_code_of resp \<noteq> HttpStatus_Created \<and> resp_code_of resp \<noteq> HttpStatus_OK
       then Some (int_of_error (HIVE_HTTP_STATUS_ERROR (resp_code_of resp)), c6, w6)
       else Some (0, c6, w6))
   }"

definition od__put_file_from_buffer ::
  "('j, 'r) ext \<Rightarrow> bytes \<Rightarrow> string \<Rightarrow> ('j, 'r, int) od_op" where
  "od__put_file_from_buffer X from path cn w = do {
     (rc, cn1, w1) \<leftarrow> od_check_expire X cn w;
     if rc < 0 then Some (rc, cn1, w1)
     else (case http_client_new X w1 of
       (None, w2) \<Rightarrow> Some (int_of_error (HIVE_GENERAL_ERROR HIVEERR_OUT_OF_MEMORY), cn1, w2)
     | (Some c, w2) \<Rightarrow>
         if length from \<le> 4 * 1024 * 1024 then do {
           ((rc, _), cn3, w3) \<leftarrow> od__upload_file X c path from cn1 w2;
           Some (rc, cn3, http_client_close w3)
         }
         else do {
           p \<leftarrow> c_strcpy PATH_MAX path;
           ((rc, c3), cn3, w3) \<leftarrow> od__create_folder X c (c_dirname p) cn1 w2;
           if rc < 0 then Some (rc, cn3, http_client_close w3)
           else do {
             ((r, c4), cn4, w4) \<leftarrow> od__create_upload_session X (http_client_reset c3) path MAX_URL_LEN cn3 w3;
             case r of
               Inl e \<Rightarrow> Some (e, cn4, http_client_close w4)
             | Inr url \<Rightarrow> do {
                 (rc, c5, w5) \<leftarrow> od__upload_to_session X (http_client_reset c4) url from w4;
                 Some (if rc < 0 then rc else 0, cn4, http_client_close w5)
               }
           }
         })
   }"

text \<open>The length \<open>snprintf\<close> returns is not looked at: a path that does not fit is cut.\<close>

definition od_put_file_from_buffer ::
  "('j, 'r) ext \<Rightarrow> bytes \<Rightarrow> bool \<Rightarrow> string \<Rightarrow> ('j, 'r, int) od_op" where
  "od_put_file_from_buffer X from encrypt filename cn w =
     od__put_file_from_buffer X from (snd (c_snprintf PATH_MAX (FILES_DIR @ ''/'' @ filename))) cn w"

section \<open>File information and downloads\<close>

definition DOWNLOAD_URL :: string where
  "DOWNLOAD_URL = ''@microsoft.graph.downloadUrl''"

text \<open>The last test reads \<open>->string\<close>, the key of the item, where \<open>->valuestring\<close> is meant, and then
  dereferences \<open>->valuestring\<close>.\<close>

definition od__get_file_info ::
  "('j, 'r) ext \<Rightarrow> http_client \<Rightarrow> string \<Rightarrow> string \<Rightarrow> ('j, 'r, (int + 'j) \<times> http_client) od_op" where
  "od__get_file_info X c file_path query cn w = do {
     url \<leftarrow> c_strcpy MAX_URL_LEN (APP_ROOT @ '':'' @ file_path);
     (_, c0) \<leftarrow> http_client_set_url X c url;
     (_, c1) \<leftarrow> http_client_set_query X c0 ''select'' query;
     (c2, w2) \<leftarrow> authorization cn (snd (http_client_set_method X c1 HTTP_METHOD_GET), w);
     (r, c3, cn1, w3) \<leftarrow> authorized_request X (http_client_enable_response_body c2) cn w2;
     case r of
       Inl e \<Rightarrow> Some ((Inl e, c3), cn1, w3)
     | Inr resp \<Rightarrow>
         if resp \<noteq> HttpStatus_OK then Some ((Inl (int_of_error (HIVE_HTTP_STATUS_ERROR resp)), c3), cn1, w3)
         else do {
           (p, _, c4) \<leftarrow> http_client_move_response_body c3 False;
           case p of
             None \<Rightarrow> Some ((Inl (int_of_error (HIVE_GENERAL_ERROR HIVEERR_OUT_OF_MEMORY)), c4), cn1, w3)
           | Some b \<Rightarrow> do {
               json \<leftarrow> parse_block X b;
               case json of
                 None \<Rightarrow> Some ((Inl (int_of_error (HIVE_GENERAL_ERROR HIVEERR_OUT_OF_MEMORY)), c4), cn1, w3)
               | Some j \<Rightarrow>
                   (let bad = Some ((Inl (int_of_error (HIVE_GENERAL_ERROR HIVEERR_BAD_JSON_FORMAT)), c4), cn1, w3);
                        size = cJSON_GetObjectItemCaseSensitive X j ''size'';
                        durl = cJSON_GetObjectItemCaseSensitive X j DOWNLOAD_URL
                    in if c_strstr query ''size''
                          \<and> (\<not> is_number X size \<or> (case size of None \<Rightarrow> True | Some i \<Rightarrow> j_valuelong X i < 0))
                       then bad
                       else if c_strstr query DOWNLOAD_URL
                       then (if \<not> is_string X durl \<or> (case durl of None \<Rightarrow> True | Some i \<Rightarrow> j_string X i = None)
                             then bad
                             else do {
                               v \<leftarrow> valuestring_of X durl;
                               if v = [] then bad else Some ((Inr j, c4), cn1, w3)
                             })
                       else Some ((Inr j, c4), cn1, w3))
             }
         }
   }"

text \<open>\<open>size->valuedouble\<close> of the item found; a missing item would be a null dereference.\<close>

definition size_of :: "('j, 'r) ext \<Rightarrow> 'j \<Rightarrow> int option" where
  "size_of X j = (case cJSON_GetObjectItemCaseSensitive X j ''size'' of
     None \<Rightarrow> None | Some i \<Rightarrow> Some (j_valuelong X i))"

text \<open>These two return \<open>ssize_t\<close>: the errors of an \<open>int\<close> variable keep their sign, those of a macro
  returned directly become positive.\<close>

definition od__get_file_length :: "('j, 'r) ext \<Rightarrow> string \<Rightarrow> ('j, 'r, int) od_op" where
  "od__get_file_length X file_path cn w = do {
     (rc, cn1, w1) \<leftarrow> od_check_expire X cn w;
     if rc < 0 then Some (rc, cn1, w1)
     else (case http_client_new X w1 of
       (None, w2) \<Rightarrow> Some (ssize_of_error (HIVE_GENERAL_ERROR HIVEERR_OUT_OF_MEMORY), cn1, w2)
     | (Some c, w2) \<Rightarrow> do {
         ((r, _), cn3, w3) \<leftarrow> od__get_file_info X c file_path ''size'' cn1 w2;
         case r of
           Inl e \<Rightarrow> Some (e, cn3, http_client_close w3)
         | Inr j \<Rightarrow> do { n \<leftarrow> size_of X j; Some (n, cn3, http_client_close w3) }
       })
   }"

definition od_get_file_length :: "('j, 'r) ext \<Rightarrow> string \<Rightarrow> ('j, 'r, int) od_op" where
  "od_get_file_length X filename cn w =
     (let (n, file_path) = c_snprintf PATH_MAX (FILES_DIR @ ''/'' @ filename) in
      if n < 0 \<or> n \<ge> int PATH_MAX
      then Some (ssize_of_error (HIVE_GENERAL_ERROR HIVEERR_BUFFER_TOO_SMALL), cn, w)
      else od__get_file_length X file_path cn w)"

text \<open>The callback copies whatever it is given behind what it copied before; nothing compares it
  with the room in the caller's buffer.\<close>

definition download_file_response_body_callback :: "sink \<Rightarrow> bytes \<Rightarrow> (nat \<times> sink) option" where
  "download_file_response_body_callback k buffer =
     (if length (sk_data k) + length buffer \<le> sk_cap k
      then Some (length buffer, k\<lparr>sk_data := sk_data k @ buffer\<rparr>) else None)"

text \<open>The result carries what was stored in the \<open>room\<close> bytes at \<open>buf\<close>.\<close>

definition od__download_file ::
  "('j, 'r) ext \<Rightarrow> http_client \<Rightarrow> string \<Rightarrow> nat \<Rightarrow> 'r world \<Rightarrow> (int \<times> bytes \<times> http_client \<times> 'r world) option" where
  "od__download_file X c download_url room w = do {
     c1 \<leftarrow> start_request X c download_url HTTP_METHOD_GET;
     (rc, c2, w2) \<leftarrow> http_client_request X
        (http_client_set_response_body (http_client_enable_response_body c1)
           download_file_response_body_callback \<lparr>sk_cap = room, sk_data = []\<rparr>) w;
     let got = sk_data (hc_sink c2);
     if rc \<noteq> 0 then Some (int_of_error (HIVE_CURL_ERROR rc), got, c2, w2)
     else (case http_client_get_response_code c2 of (rc, resp) \<Rightarrow>
       if rc \<noteq> 0 then Some (int_of_error (HIVE_CURL_ERROR rc), got, c2, w2)
       else if resp_code_of resp \<noteq> HttpStatus_OK
       then Some (int_of_error (HIVE_HTTP_STATUS_ERROR (resp_code_of resp)), got, c2, w2)
       else Some (0, got, c2, w2))
   }"

text \<open>\<open>buflen\<close> is the length the function is told, \<open>room\<close> the size of the block behind \<open>to\<close>.\<close>

definition od__get_file_to_buffer ::
  "('j, 'r) ext \<Rightarrow> string \<Rightarrow> nat \<Rightarrow> nat \<Rightarrow> ('j, 'r, int \<times> bytes) od_op" where
  "od__get_file_to_buffer X file_path room buflen cn w = do {
     (rc, cn1, w1) \<leftarrow> od_check_expire X cn w;
     if rc < 0 then Some ((rc, []), cn1, w1)
     else (case http_client_new X w1 of
       (None, w2) \<Rightarrow> Some ((ssize_of_error (HIVE_GENERAL_ERROR HIVEERR_OUT_OF_MEMORY), []), cn1, w2)
     | (Some c, w2) \<Rightarrow> do {
         ((r, c3), cn3, w3) \<leftarrow> od__get_file_info X c file_path (''size,'' @ DOWNLOAD_URL) cn1 w2;
         case r of
           Inl e \<Rightarrow> Some ((e, []), cn3, http_client_close w3)
         | Inr j \<Rightarrow> do {
             fsize \<leftarrow> size_of X j;
             if 0 < buflen \<and> fsize > int buflen
             then Some ((ssize_of_error (HIVE_GENERAL_ERROR HIVEERR_BUFFER_TOO_SMALL), []), cn3, http_client_close w3)
             else if fsize = 0 then Some ((0, []), cn3, http_client_close w3)
             else do {
               url \<leftarrow> valuestring_of X (cJSON_GetObjectItemCaseSensitive X j DOWNLOAD_URL);
               (rc, got, _, w4) \<leftarrow> od__download_file X (http_client_reset c3) url room w3;
               Some ((if rc < 0 then rc else fsize, got), cn3, http_client_close w4)
             }
           }
       })
   }"

definition od_get_file_to_buffer ::
  "('j, 'r) ext \<Rightarrow> string \<Rightarrow> bool \<Rightarrow> nat \<Rightarrow> nat \<Rightarrow> ('j, 'r, int \<times> bytes) od_op" where
  "od_get_file_to_buffer X filename decrypt room buflen cn w =
     (let (n, file_path) = c_snprintf PATH_MAX (FILES_DIR @ ''/'' @ filename) in
      if n < 0 \<or> n \<ge> int PATH_MAX
      then Some ((ssize_of_error (HIVE_GENERAL_ERROR HIVEERR_BUFFER_TOO_SMALL), []), cn, w)
      else od__get_file_to_buffer X file_path room buflen cn w)"

section \<open>Deleting\<close>

definition od__delete_file :: "('j, 'r) ext \<Rightarrow> string \<Rightarrow> ('j, 'r, int) od_op" where
  "od__delete_file X file_path cn w = do {
     (rc, cn1, w1) \<leftarrow> od_check_expire X cn w;
     if rc < 0 then Some (rc, cn1, w1)
     else (case http_client_new X w1 of
       (None, w2) \<Rightarrow> Some (int_of_error (HIVE_GENERAL_ERROR HIVEERR_OUT_OF_MEMORY), cn1, w2)
     | (Some c, w2) \<Rightarrow> do {
         url \<leftarrow> c_strcpy MAX_URL_LEN (APP_ROOT @ '':'' @ file_path @ '':'');
         c1 \<leftarrow> start_request X c url HTTP_METHOD_DELETE;
         (c2, w3) \<leftarrow> authorization cn1 (c1, w2);
         (r, _, cn3, w4) \<leftarrow> authorized_request X c2 cn1 w3;
         Some ((case r of
                  Inl e \<Rightarrow> e
                | Inr resp \<Rightarrow> if resp \<noteq> HttpStatus_NoContent then int_of_error (HIVE_HTTP_STATUS_ERROR resp) else 0),
               cn3, http_client_close w4)
       })
   }"

definition od_delete_file :: "('j, 'r) ext \<Rightarrow> string \<Rightarrow> ('j, 'r, int) od_op" where
  "od_delete_file X filename cn w =
     (let (n, file_path) = c_snprintf PATH_MAX (FILES_DIR @ ''/'' @ filename) in
      if n < 0 \<or> n \<ge> int PATH_MAX
      then Some (int_of_error (HIVE_GENERAL_ERROR HIVEERR_BUFFER_TOO_SMALL), cn, w)
      else od__delete_file X file_path cn w)"

section \<open>Listing\<close>

text \<open>\<open>__merge_array\<close> moves the checked items of \<open>sub\<close> to the end of \<open>array\<close>.\<close>

fun merge_array :: "('j, 'r) ext \<Rightarrow> 'j list \<Rightarrow> 'j list \<Rightarrow> int \<times> 'j list" where
  "merge_array X [] array = (0, array)"
| "merge_array X (item # sub) array =
     (let bad = (int_of_error (HIVE_GENERAL_ERROR HIVEERR_BAD_JSON_FORMAT), array);
          file = cJSON_GetObjectItemCaseSensitive X item ''file'';
          folder = cJSON_GetObjectItemCaseSensitive X item ''folder''
      in if \<not> IS_STRING_NODE X (cJSON_GetObjectItemCaseSensitive X item ''name'') then bad
         else if (file \<noteq> None) = (folder \<noteq> None) then bad
         else if (case file of None \<Rightarrow> False | Some f \<Rightarrow> \<not> cJSON_IsObject X f) then bad
         else if (case folder of None \<Rightarrow> False | Some f \<Rightarrow> \<not> cJSON_IsObject X f) then bad
         else merge_array X sub (array @ [item]))"

text \<open>A callback of the application: its state \<open>'c\<close> stands for \<open>context\<close>, the result tells whether
  to go on.  The end of the list is announced with NULL.\<close>

fun notify_user_files ::
  "('j, 'r) ext \<Rightarrow> 'j list \<Rightarrow> (string option \<Rightarrow> 'c \<Rightarrow> bool \<times> 'c) \<Rightarrow> 'c \<Rightarrow> 'c option" where
  "notify_user_files X [] callback ctx = Some (snd (callback None ctx))"
| "notify_user_files X (item # items) callback ctx =
     (case cJSON_GetObjectItemCaseSensitive X item ''name'' of
        None \<Rightarrow> None
      | Some name \<Rightarrow>
          (case callback (j_valuestring X name) ctx of (resume, ctx') \<Rightarrow>
             if \<not> resume then Some ctx' else notify_user_files X items callback ctx'))"

text \<open>One round of the loop: \<open>Inl\<close> ends it with an error, \<open>Inr\<close> carries the longer array and the
  next link, if there is one.\<close>

definition list_page ::
  "('j, 'r) ext \<Rightarrow> string \<Rightarrow> 'j list \<Rightarrow> http_client \<Rightarrow> ('j, 'r, (int + 'j list \<times> string option) \<times> http_client) od_op" where
  "list_page X next_url array c cn w = do {
     c1 \<leftarrow> start_request X (http_client_reset c) next_url HTTP_METHOD_GET;
     (c2, w2) \<leftarrow> authorization cn (c1, w);
     (r, c3, cn1, w3) \<leftarrow> authorized_request X (http_client_enable_response_body c2) cn w2;
     case r of
       Inl e \<Rightarrow> Some ((Inl e, c3), cn1, w3)
     | Inr resp \<Rightarrow>
         if resp \<noteq> HttpStatus_OK then Some ((Inl (int_of_error (HIVE_HTTP_STATUS_ERROR resp)), c3), cn1, w3)
         else do {
           (p, _, c4) \<leftarrow> http_client_move_response_body c3 False;
           case p of
             None \<Rightarrow> Some ((Inl (int_of_error (HIVE_GENERAL_ERROR HIVEERR_OUT_OF_MEMORY)), c4), cn1, w3)
           | Some b \<Rightarrow> do {
               json \<leftarrow> parse_block X b;
               case json of
                 None \<Rightarrow> Some ((Inl (int_of_error (HIVE_GENERAL_ERROR HIVEERR_OUT_OF_MEMORY)), c4), cn1, w3)
               | Some j \<Rightarrow>
                   (let bad = (Inl (int_of_error (HIVE_GENERAL_ERROR HIVEERR_BAD_JSON_FORMAT)), c4);
                        link = cJSON_GetObjectItemCaseSensitive X j ''@odata.nextLink''
                    in case cJSON_GetObjectItemCaseSensitive X j ''value'' of
                         None \<Rightarrow> Some (bad, cn1, w3)
                       | Some sub \<Rightarrow>
                           if \<not> cJSON_IsArray X sub then Some (bad, cn1, w3)
                           else (case merge_array X (j_items X sub) array of (rc, array') \<Rightarrow>
                             if rc < 0 then Some ((Inl rc, c4), cn1, w3)
                             else if link \<noteq> None \<and> \<not> IS_STRING_NODE X link then Some (bad, cn1, w3)
                             else Some ((Inr (array', valuestring_of X link), c4), cn1, w3)))
             }
         }
   }"

text \<open>A server that always sends a next link keeps the loop going: no result.\<close>

partial_function (option) list_loop ::
  "('j, 'r) ext \<Rightarrow> (string option \<Rightarrow> 'c \<Rightarrow> bool \<times> 'c) \<Rightarrow> string \<Rightarrow> 'j list \<Rightarrow> http_client \<Rightarrow> 'c
     \<Rightarrow> ('j, 'r) OneDriveConnect \<Rightarrow> 'r world
     \<Rightarrow> ((int \<times> 'c) \<times> ('j, 'r) OneDriveConnect \<times> 'r world) option" where
  "list_loop X callback next_url array c ctx cn w = do {
     ((r, c1), cn1, w1) \<leftarrow> list_page X next_url array c cn w;
     case r of
       Inl e \<Rightarrow> Some ((e, ctx), cn1, w1)
     | Inr (array', Some url) \<Rightarrow> list_loop X callback url array' c1 ctx cn1 w1
     | Inr (array', None) \<Rightarrow> do {
         ctx' \<leftarrow> notify_user_files X array' callback ctx;
         Some ((0, ctx'), cn1, w1)
       }
   }"

definition od_list_files ::
  "('j, 'r) ext \<Rightarrow> (string option \<Rightarrow> 'c \<Rightarrow> bool \<times> 'c) \<Rightarrow> 'c \<Rightarrow> ('j, 'r, int \<times> 'c) od_op" where
  "od_list_files X callback ctx cn w = do {
     (rc, cn1, w1) \<leftarrow> od_check_expire X cn w;
     if rc < 0 then Some ((rc, ctx), cn1, w1)
     else (case http_client_new X w1 of
       (None, w2) \<Rightarrow> Some ((int_of_error (HIVE_GENERAL_ERROR HIVEERR_OUT_OF_MEMORY), ctx), cn1, w2)
     | (Some c, w2) \<Rightarrow> do {
         url \<leftarrow> c_strcpy MAX_URL_LEN (APP_ROOT @ '':'' @ FILES_DIR @ '':/children'');
         let (ok, w3) = c_alloc w2;
         if \<not> ok then Some ((int_of_error (HIVE_GENERAL_ERROR HIVEERR_OUT_OF_MEMORY), ctx), cn1, http_client_close w3)
         else do {
           (r, cn4, w4) \<leftarrow> list_loop X callback url [] c ctx cn1 w3;
           Some (r, cn4, http_client_close w4)
         }
       })
   }"

section \<open>Values of a key\<close>

text \<open>A key file is a sequence of \<open>KVEntry\<close>: the length in network byte order, then the bytes.\<close>

definition htonl_bytes :: "u32 \<Rightarrow> bytes" where
  "htonl_bytes n = map (\<lambda>k. char_of (unat (drop_bit k n))) [24, 16, 8, 0]"

definition ntohl_bytes :: "bytes \<Rightarrow> u32" where
  "ntohl_bytes b = foldl (\<lambda>n c. or (push_bit 8 n) (of_nat (of_char c))) 0 (take 4 b)"

definition kv_entry :: "bytes \<Rightarrow> bytes" where
  "kv_entry value = htonl_bytes (of_nat (length value)) @ value"

definition key_path :: "string \<Rightarrow> string" where
  "key_path key = snd (c_snprintf PATH_MAX (KEYS_DIR @ ''/'' @ key))"

definition not_found :: int where
  "not_found = int_of_error (HIVE_HTTP_STATUS_ERROR HttpStatus_NotFound)"

text \<open>The block of \<open>n\<close> zero bytes \<open>calloc\<close> returned, after \<open>got\<close> was stored at its start.\<close>

definition zero_padded :: "bytes \<Rightarrow> nat \<Rightarrow> bytes" where
  "zero_padded got n = got @ replicate (n - length got) NUL"

definition od_put_value ::
  "('j, 'r) ext \<Rightarrow> string \<Rightarrow> bytes \<Rightarrow> bool \<Rightarrow> ('j, 'r, int) od_op" where
  "od_put_value X key val encrypt cn w = do {
     (size0, cn1, w1) \<leftarrow> od__get_file_length X (key_path key) cn w;
     if int_of_ssize size0 \<noteq> not_found \<and> size0 < 0 then Some (int_of_ssize size0, cn1, w1)
     else (let size = (if int_of_ssize size0 = not_found then 0 else size0);
               size_new = nat size + 4 + length val;
               (ok, w2) = c_alloc w1
           in if \<not> ok then Some (int_of_error (HIVE_GENERAL_ERROR HIVEERR_OUT_OF_MEMORY), cn1, w2)
              else do {
                ((rc, got), cn3, w3) \<leftarrow>
                  (if size > 0
                   then do {
                     ((n, got), cn3, w3) \<leftarrow> od__get_file_to_buffer X (key_path key) size_new (nat size) cn1 w2;
                     Some ((int_of_ssize n, got), cn3, w3)
                   }
                   else Some ((0, []), cn1, w2));
                if size > 0 \<and> rc < 0 then Some (rc, cn3, w3)
                else if size > 0 \<and> rc \<noteq> int_of_ssize size
                then Some (int_of_error (HIVE_GENERAL_ERROR HIVEERR_INVALID_PERSISTENCE_FILE), cn3, w3)
                else od__put_file_from_buffer X
                       (take (nat size) (zero_padded got size_new) @ kv_entry val) (key_path key) cn3 w3
              })
   }"

definition od_set_value ::
  "('j, 'r) ext \<Rightarrow> string \<Rightarrow> bytes \<Rightarrow> bool \<Rightarrow> ('j, 'r, int) od_op" where
  "od_set_value X key val encrypt cn w =
     (let (ok, w1) = c_alloc w in
      if \<not> ok then Some (int_of_error (HIVE_GENERAL_ERROR HIVEERR_OUT_OF_MEMORY), cn, w1)
      else od__put_file_from_buffer X (kv_entry val) (key_path key) cn w1)"

text \<open>The loop of \<open>get_values\<close> on the rest of the block, of which \<open>kv\<close> is the start: its length is
  \<open>data_len\<close>.  Reading the length field of an entry and passing its bytes on must stay inside.\<close>

function values_loop ::
  "string \<Rightarrow> (string \<Rightarrow> bytes \<Rightarrow> 'c \<Rightarrow> bool \<times> 'c) \<Rightarrow> bytes \<Rightarrow> 'c \<Rightarrow> (int \<times> 'c) option" where
  "values_loop key callback blk ctx =
     (if length blk < 4 then None
      else (let val_len = unat (ntohl_bytes blk);
                bad = int_of_error (HIVE_GENERAL_ERROR HIVEERR_BAD_PERSISTENT_DATA) in
        if val_len > HIVE_MAX_VALUE_LEN then Some (bad, ctx)
        else (let entry_len = 4 + val_len; data_len = int (length blk) - int entry_len in
          if data_len < 0 \<or> 0 < data_len \<and> data_len \<le> 4 then Some (bad, ctx)
          else (case callback key (take val_len (drop 4 blk)) ctx of (proceed, ctx') \<Rightarrow>
            if data_len = 0 \<or> \<not> proceed then Some (0, ctx')
            else values_loop key callback (drop entry_len blk) ctx'))))"
  by pat_completeness auto

termination
  by (relation "measure (\<lambda>(key, callback, blk, ctx). length blk)") auto

declare values_loop.simps [simp del]

definition od_get_values ::
  "('j, 'r) ext \<Rightarrow> string \<Rightarrow> bool \<Rightarrow> (string \<Rightarrow> bytes \<Rightarrow> 'c \<Rightarrow> bool \<times> 'c) \<Rightarrow> 'c \<Rightarrow> ('j, 'r, int \<times> 'c) od_op" where
  "od_get_values X key decrypt callback ctx cn w = do {
     (len0, cn1, w1) \<leftarrow> od__get_file_length X (key_path key) cn w;
     if int_of_ssize len0 \<noteq> not_found \<and> len0 < 0 then Some ((int_of_ssize len0, ctx), cn1, w1)
     else (let data_len = (if int_of_ssize len0 = not_found then 0 else len0) in
       if 0 < data_len \<and> data_len \<le> 4
       then Some ((int_of_error (HIVE_GENERAL_ERROR HIVEERR_BAD_PERSISTENT_DATA), ctx), cn1, w1)
       else if data_len = 0 then Some ((0, ctx), cn1, w1)
       else (let (ok, w2) = c_alloc w1 in
         if \<not> ok then Some ((int_of_error (HIVE_GENERAL_ERROR HIVEERR_OUT_OF_MEMORY), ctx), cn1, w2)
         else do {
           ((rc, got), cn3, w3) \<leftarrow> od__get_file_to_buffer X (key_path key) (nat data_len) (nat data_len) cn1 w2;
           if rc < 0 then Some ((int_of_ssize rc, ctx), cn3, w3)
           else if rc \<noteq> data_len
           then Some ((int_of_error (HIVE_GENERAL_ERROR HIVEERR_INVALID_PERSISTENCE_FILE), ctx), cn3, w3)
           else do {
             r \<leftarrow> values_loop key callback (zero_padded got (nat data_len)) ctx;
             Some (r, cn3, w3)
           }
         }))
   }"

definition od_delete_key :: "('j, 'r) ext \<Rightarrow> string \<Rightarrow> ('j, 'r, int) od_op" where
  "od_delete_key X key cn w = do {
     (rc, cn1, w1) \<leftarrow> od__delete_file X (key_path key) cn w;
     Some (if rc < 0 \<and> rc \<noteq> not_found then rc else 0, cn1, w1)
   }"

section \<open>Connecting\<close>

definition HiveBackendType_OneDrive :: int where [hive_const]: "HiveBackendType_OneDrive = 0x10"

record 'r OneDriveConnectOptions =
  odo_backendType :: int
  odo_client_id :: "string option"
  odo_scope :: "string option"
  odo_redirect_url :: "string option"
  odo_callback :: "'r auth_env option"

definition onedrive_client_connect ::
  "('j, 'r) ext \<Rightarrow> string \<Rightarrow> 'r OneDriveConnectOptions \<Rightarrow> 'r world
     \<Rightarrow> (('j, 'r) OneDriveConnect option \<times> 'r world) option" where
  "onedrive_client_connect X data_location options w =
     (case (odo_client_id options, odo_redirect_url options, odo_scope options, odo_callback options) of
       (Some cid, Some redirect, Some scp, Some auth) \<Rightarrow>
         (if cid = [] \<or> redirect = [] \<or> scp = [] \<or> \<not> c_strstr scp ''Files.ReadWrite.AppFolder''
             \<or> odo_backendType options \<noteq> HiveBackendType_OneDrive
          then Some (None, hive_set_error (int_of_error (HIVE_GENERAL_ERROR HIVEERR_INVALID_ARGS)) w)
          else (let (ok, w1) = c_alloc w in
            if \<not> ok then Some (None, hive_set_error (int_of_error (HIVE_GENERAL_ERROR HIVEERR_OUT_OF_MEMORY)) w1)
            else (let (n, path) = c_snprintf PATH_MAX (data_location @ ''/.data/onedrive.json'') in
              if n < 0 \<or> n \<ge> int PATH_MAX
              then Some (None, hive_set_error (int_of_error (HIVE_GENERAL_ERROR HIVEERR_INVALID_ARGS)) w1)
              else (let (rc, w2) = mkdirs (c_dirname path) w1 in
                if rc < 0 \<and> errno w2 \<noteq> EEXIST
                then Some (None, hive_set_error (int_of_error (HIVE_SYS_ERROR (errno w2))) w2)
                else (let (there, w3) = c_access path w2 in do {
                  (keystore, w4) \<leftarrow> (if there then load_keystore_in_json X path w3 else Some (None, w3));
                  if there \<and> keystore = None
                  then Some (None, hive_set_error (int_of_error (HIVE_SYS_ERROR (errno w4))) w4)
                  else do {
                    (token, w5) \<leftarrow> oauth_token_new X
                       \<lparr>opt_authorize_url = URL_OAUTH @ ''authorize'', opt_token_url = URL_OAUTH @ ''token'',
                        opt_client_id = cid, opt_scope = scp, opt_redirect_url = redirect,
                        opt_store = keystore\<rparr> (oauth_writeback X path) w4;
                    case token of
                      None \<Rightarrow> Some (None, w5)
                    | Some tok \<Rightarrow> do {
                        (rc, tok2, w6) \<leftarrow> oauth_token_request X auth tok w5;
                        Some (if rc < 0 then None else Some \<lparr>od_token = tok2, keystore_path = path\<rparr>, w6)
                      }
                  }
                })))))
     | _ \<Rightarrow> Some (None, hive_set_error (int_of_error (HIVE_GENERAL_ERROR HIVEERR_INVALID_ARGS)) w))"

section \<open>The value format\<close>

lemma length_htonl_bytes [simp]: "length (htonl_bytes n) = 4"
  by (simp add: htonl_bytes_def)

lemma length_kv_entry [simp]: "length (kv_entry v) = 4 + length v"
  by (simp add: kv_entry_def)

lemma ntohl_htonl: "ntohl_bytes (htonl_bytes n @ rest) = n"
proof (rule bit_word_eqI)
  fix i assume "i < LENGTH(32)"
  then have i: "i < 32" by simp
  have byte: "(of_nat (unat m mod 256) :: u32) = take_bit 8 m" for m :: u32
  proof -
    have "unat m mod 256 = take_bit 8 (unat m)" by (simp add: take_bit_eq_mod)
    then show ?thesis by (simp flip: take_bit_of_nat)
  qed
  show "bit (ntohl_bytes (htonl_bytes n @ rest)) i = bit n i"
    using i by (cases "i < 8"; cases "i < 16"; cases "i < 24")
      (auto simp: ntohl_bytes_def htonl_bytes_def byte bit_simps)
qed

text \<open>What the application sees of a key that holds the values \<open>vs\<close>.\<close>

fun deliver :: "string \<Rightarrow> (string \<Rightarrow> bytes \<Rightarrow> 'c \<Rightarrow> bool \<times> 'c) \<Rightarrow> bytes list \<Rightarrow> 'c \<Rightarrow> 'c" where
  "deliver key callback [] ctx = ctx"
| "deliver key callback (v # vs) ctx =
     (case callback key v ctx of (proceed, ctx') \<Rightarrow> if proceed then deliver key callback vs ctx' else ctx')"

definition storable :: "bytes \<Rightarrow> bool" where
  "storable v \<longleftrightarrow> v \<noteq> [] \<and> length v \<le> HIVE_MAX_VALUE_LEN"

lemma storable_length:
  assumes "storable v"
  shows "unat (of_nat (length v) :: u32) = length v"
proof -
  have "length v < 2 ^ 32" using assms by (simp add: storable_def hive_const)
  then show ?thesis by (simp add: unat_of_nat take_bit_nat_eq_self)
qed

lemma values_loop_entry:
  assumes "storable v"
  shows "values_loop key callback (kv_entry v @ rest) ctx =
     (if rest \<noteq> [] \<and> length rest \<le> 4
      then Some (int_of_error (HIVE_GENERAL_ERROR HIVEERR_BAD_PERSISTENT_DATA), ctx)
      else (case callback key v ctx of (proceed, ctx') \<Rightarrow>
        if rest = [] \<or> \<not> proceed then Some (0, ctx') else values_loop key callback rest ctx'))"
proof -
  have n: "ntohl_bytes (kv_entry v @ rest) = of_nat (length v)"
    by (simp add: kv_entry_def ntohl_htonl)
  have v: "drop 4 (kv_entry v) = v" "drop (4 + length v) (kv_entry v @ rest) = rest"
    by (simp_all add: kv_entry_def)
  have le: "\<not> length v > HIVE_MAX_VALUE_LEN" using assms by (simp add: storable_def)
  show ?thesis
    using storable_length [OF assms] le
    by (subst values_loop.simps) (auto simp: n v Let_def split: prod.splits)
qed

lemma concat_entries_long:
  "vs \<noteq> [] \<Longrightarrow> list_all storable vs \<Longrightarrow> 4 < length (concat (map kv_entry vs))"
  by (cases vs) (auto simp: storable_def)

lemma values_loop_entries:
  "vs \<noteq> [] \<Longrightarrow> list_all storable vs \<Longrightarrow>
     values_loop key callback (concat (map kv_entry vs)) ctx = Some (0, deliver key callback vs ctx)"
proof (induction vs arbitrary: ctx)
  case (Cons v vs)
  show ?case
  proof (cases "vs = []")
    case True
    with Cons.prems values_loop_entry [of v key callback "[]" ctx] show ?thesis
      by (auto split: prod.splits)
  next
    case False
    define blk where "blk = concat (map kv_entry vs)"
    have "4 < length blk" using concat_entries_long [OF False] Cons.prems by (simp add: blk_def)
    then have "blk \<noteq> []" "\<not> length blk \<le> 4" by auto
    with False Cons values_loop_entry [of v key callback blk ctx] show ?thesis
      by (simp add: split_beta flip: blk_def)
  qed
qed simp

text \<open>C4: The key-value file format round-trips: scanning the concatenation of the entries that
  \<open>put_value\<close> writes (a 32-bit big-endian length followed by the value) delivers
  exactly the values stored, in order, to the callback until the callback asks to stop, and reports
  success, for every non-empty list of non-empty values of at most \<open>HIVE_MAX_VALUE_LEN\<close>
  bytes.\<close>

theorem values_roundtrip:
  assumes "vs \<noteq> []" and "\<forall>v \<in> set vs. v \<noteq> [] \<and> length v \<le> HIVE_MAX_VALUE_LEN"
  shows "values_loop key callback (concat (map kv_entry vs)) ctx = Some (0, deliver key callback vs ctx)"
  using assms by (intro values_loop_entries) (auto simp: list_all_iff storable_def)

lemma values_roundtrip_witness:
  "values_loop ''k'' (\<lambda>_ v seen. (True, seen @ [v])) (concat (map kv_entry [''a'', ''bc''])) [] = Some (0, [''a'', ''bc''])"
  using values_roundtrip [of "[''a'', ''bc'']" "''k''" "\<lambda>_ v seen. (True, seen @ [v])" "[]"]
  by (simp add: hive_const)

text \<open>C5: The scan of a key's file that \<open>get_values\<close> runs over the downloaded block stays
  inside the block and terminates whatever the bytes are: on every block longer than one entry
  header it returns, and with success or \<open>HIVEERR_BAD_PERSISTENT_DATA\<close> only.\<close>

theorem values_loop_in_bounds:
  assumes "4 < length blk"
  shows "\<exists>rc ctx'. values_loop key callback blk ctx = Some (rc, ctx') \<and>
     (rc = 0 \<or> rc = int_of_error (HIVE_GENERAL_ERROR HIVEERR_BAD_PERSISTENT_DATA))"
  using assms
proof (induction blk arbitrary: ctx rule: measure_induct_rule [where f = length])
  case (less blk)
  define n where "n = unat (ntohl_bytes blk)"
  obtain proceed ctx' where cb: "callback key (take n (drop 4 blk)) ctx = (proceed, ctx')" by fastforce
  have more_to_come: "4 < int (length blk) - int (4 + n) \<Longrightarrow> \<exists>rc c. values_loop key callback (drop (4 + n) blk) ctx' = Some (rc, c) \<and>
     (rc = 0 \<or> rc = int_of_error (HIVE_GENERAL_ERROR HIVEERR_BAD_PERSISTENT_DATA))"
    by (rule less.IH) (use less.prems in auto)
  have "values_loop key callback blk ctx =
     (if n > HIVE_MAX_VALUE_LEN \<or> int (length blk) - int (4 + n) < 0 \<or>
        0 < int (length blk) - int (4 + n) \<and> int (length blk) - int (4 + n) \<le> 4
      then Some (int_of_error (HIVE_GENERAL_ERROR HIVEERR_BAD_PERSISTENT_DATA), ctx)
      else if int (length blk) - int (4 + n) = 0 \<or> \<not> proceed then Some (0, ctx')
      else values_loop key callback (drop (4 + n) blk) ctx')"
    using less.prems cb by (subst values_loop.simps) (simp add: Let_def del: take_all flip: n_def)
  with more_to_come show ?case by (auto split: if_splits)
qed

lemma values_loop_in_bounds_witness:
  "\<exists>rc ctx'. values_loop ''k'' (\<lambda>_ v n. (True, n + length v)) ''abcdefgh'' 0 = Some (rc, ctx') \<and>
     (rc = 0 \<or> rc = int_of_error (HIVE_GENERAL_ERROR HIVEERR_BAD_PERSISTENT_DATA))"
  using values_loop_in_bounds [of "''abcdefgh''"] by simp

section \<open>What every operation keeps\<close>

text \<open>From a connection to one after it: the configuration stays, a well-formed token stays
  well-formed, and no HTTP client is left behind.\<close>

definition keeps ::
  "('j, 'r) OneDriveConnect \<Rightarrow> 'r world \<Rightarrow> ('j, 'r) OneDriveConnect \<Rightarrow> 'r world \<Rightarrow> bool" where
  "keeps cn w cn' w' \<longleftrightarrow> keystore_path cn' = keystore_path cn \<and> same_config (od_token cn) (od_token cn')
     \<and> (token_ok (od_token cn) \<longrightarrow> token_ok (od_token cn')) \<and> held w' = held w"

definition quiet :: "('j, 'r) OneDriveConnect \<Rightarrow> bool" where
  "quiet cn \<longleftrightarrow> quiet_writeback (od_token cn)"

lemma keeps_refl [simp]: "keeps cn w cn w"
  by (simp add: keeps_def)

lemma keeps_trans: "keeps a w b v \<Longrightarrow> keeps b v c u \<Longrightarrow> keeps a w c u"
  by (auto simp: keeps_def intro: same_config_trans)

lemma keeps_live: "held v = held w \<Longrightarrow> keeps cn w cn v"
  by (simp add: keeps_def)

lemma keeps_quiet: "keeps cn w cn' w' \<Longrightarrow> quiet cn \<Longrightarrow> quiet cn'"
  using quiet_writeback_config by (auto simp: keeps_def quiet_def)

lemma keeps_from:
  "held w' = held w \<Longrightarrow> keeps cn w cn' v \<Longrightarrow> keeps cn w' cn' v"
  "held v' = held v \<Longrightarrow> keeps cn w cn' v \<Longrightarrow> keeps cn w cn' v'"
  by (simp_all add: keeps_def)

text \<open>A request between the creation and the closing of its client.\<close>

lemma keeps_client:
  "http_client_new X w = (Some c, w1) \<Longrightarrow> keeps cn w1 cn' v \<Longrightarrow> keeps cn w cn' (http_client_close v)"
  using live_http_new(1) [of X w c w1] by (simp add: keeps_def)

lemma keeps_no_client: "http_client_new X w = (None, w1) \<Longrightarrow> keeps cn w cn w1"
  using live_http_new(2) [of X w w1] by (simp add: keeps_def)

lemma expire_keeps: "keeps cn w (expire_token cn) w"
  by (simp add: keeps_def expire_token_def oauth_token_set_expired_def same_config_def token_ok_def)

lemma check_expire_keeps:
  assumes "quiet cn"
  shows "post (od_check_expire X cn w) (\<lambda>(rc, cn', w'). keeps cn w cn' w')"
  unfolding od_check_expire_def
  by (intro hive_post | rule post_call [OF check_expire_post]
      | (use assms renewed_props in \<open>fastforce simp: keeps_def quiet_def split: if_splits\<close>))+

lemma set_header_post: "post (set_header name value s) (\<lambda>s'. held (snd s') = held (snd s))"
  unfolding set_header_def http_client_set_header_def
  by (intro hive_post | rule postI | (fastforce simp: c_alloc_live split: if_splits option.splits prod.splits))+

lemma authorized_request_keeps:
  "post (authorized_request X c cn w) (\<lambda>(r, c', cn', w'). keeps cn w cn' w')"
  unfolding authorized_request_def
  by (intro hive_post | (rule post_call, rule request_post)
      | (use expire_keeps in \<open>fastforce simp: keeps_def\<close>))+

lemma build_body_live:
  "build_create_folder_request_body X fname w = (b, w1) \<Longrightarrow> held w1 = held w"
  by (auto simp: build_create_folder_request_body_def c_alloc_live Let_def split: prod.splits if_splits option.splits)

lemmas request_posts = set_header_post request_post authorized_request_keeps

lemma create_folder_keeps:
  "post (od__create_folder X c path cn w) (\<lambda>(r, cn', w'). keeps cn w cn' w')"
  unfolding od__create_folder_def authorization_def
  by (intro hive_post | rule post_call, rule request_posts | rule postI
      | (fastforce simp: keeps_def dest!: build_body_live))+

lemma upload_file_keeps:
  "post (od__upload_file X c path from cn w) (\<lambda>(r, cn', w'). keeps cn w cn' w')"
  unfolding od__upload_file_def authorization_def
  by (intro hive_post | rule post_call, rule request_posts | rule postI | (fastforce simp: keeps_def))+

lemma create_upload_session_keeps:
  "post (od__create_upload_session X c path len cn w) (\<lambda>(r, cn', w'). keeps cn w cn' w')"
  unfolding od__create_upload_session_def authorization_def
  by (intro hive_post | rule post_call, rule request_posts | rule postI | (fastforce simp: keeps_def))+

lemma upload_to_session_live:
  "post (od__upload_to_session X c url buf w) (\<lambda>(r, c', w'). held w' = held w)"
  unfolding od__upload_to_session_def
  by (intro hive_post | rule post_call, rule set_header_post request_post | rule postI | (fastforce))+

lemma get_file_info_keeps:
  "post (od__get_file_info X c path query cn w) (\<lambda>(r, cn', w'). keeps cn w cn' w')"
  unfolding od__get_file_info_def authorization_def
  by (intro hive_post | rule post_call, rule request_posts | rule postI | (fastforce simp: keeps_def))+

lemma list_page_keeps:
  "post (list_page X url array c cn w) (\<lambda>(r, cn', w'). keeps cn w cn' w')"
  unfolding list_page_def authorization_def
  by (intro hive_post | rule post_call, rule request_posts | rule postI | (fastforce simp: keeps_def))+

lemma download_file_live:
  "post (od__download_file X c url room w) (\<lambda>(rc, got, c', w'). held w' = held w)"
  unfolding od__download_file_def
  by (intro hive_post | rule post_call, rule request_post | rule postI | fastforce)+

lemma put_file_keeps:
  assumes "quiet cn"
  shows "post (od__put_file_from_buffer X from path cn w) (\<lambda>(r, cn', w'). keeps cn w cn' w')"
  unfolding od__put_file_from_buffer_def
  by (intro hive_post
      | rule post_call, rule upload_file_keeps create_folder_keeps create_upload_session_keeps upload_to_session_live
      | rule post_call [OF check_expire_keeps] | rule postI
      | ((use assms in \<open>auto simp: keeps_def same_config_def dest!: live_http_new\<close>)[1]; fail))+

lemma get_file_length_keeps:
  assumes "quiet cn"
  shows "post (od__get_file_length X path cn w) (\<lambda>(r, cn', w'). keeps cn w cn' w')"
  unfolding od__get_file_length_def
  by (intro hive_post | rule post_call, rule get_file_info_keeps
      | rule post_call [OF check_expire_keeps] | rule postI
      | ((use assms in \<open>auto simp: keeps_def same_config_def dest!: live_http_new\<close>)[1]; fail))+

lemma get_file_to_buffer_keeps:
  assumes "quiet cn"
  shows "post (od__get_file_to_buffer X path room buflen cn w) (\<lambda>(r, cn', w'). keeps cn w cn' w')"
  unfolding od__get_file_to_buffer_def
  by (intro hive_post | rule post_call, rule get_file_info_keeps download_file_live
      | rule post_call [OF check_expire_keeps] | rule postI
      | ((use assms in \<open>auto simp: keeps_def same_config_def dest!: live_http_new\<close>)[1]; fail))+

lemma delete_file_keeps:
  assumes "quiet cn"
  shows "post (od__delete_file X path cn w) (\<lambda>(r, cn', w'). keeps cn w cn' w')"
  unfolding od__delete_file_def authorization_def
  by (intro hive_post | rule post_call, rule request_posts
      | rule post_call [OF check_expire_keeps] | rule postI
      | ((use assms in \<open>auto simp: keeps_def same_config_def dest!: live_http_new\<close>)[1]; fail))+

lemma list_loop_keeps:
  "post (list_loop X callback url array c ctx cn w) (\<lambda>(r, cn', w'). keeps cn w cn' w')"
proof (rule postI)
  fix y
  assume run: "list_loop X callback url array c ctx cn w = Some y"
  show "case y of (r, cn', w') \<Rightarrow> keeps cn w cn' w'"
  proof (rule list_loop.raw_induct
      [where P = "\<lambda>X callback url array c ctx cn w y. case y of (r, cn', w') \<Rightarrow> keeps cn w cn' w'", OF _ run],
      goal_cases)
    case (1 loop X callback url array c ctx cn w y)
    obtain r c1 cn1 w1 where p: "list_page X url array c cn w = Some ((r, c1), cn1, w1)"
      using 1(2) by (auto simp: bind_eq_Some_iff)
    have k: "keeps cn w cn1 w1" using postD [OF list_page_keeps p] by simp
    show ?case
    proof (cases "\<exists>a u. r = Inr (a, Some u)")
      case True
      then obtain a u where "r = Inr (a, Some u)" by blast
      with 1(2) p have "loop X callback u a c1 ctx cn1 w1 = Some y" by simp
      from 1(1) [OF this] k show ?thesis by (auto intro: keeps_trans)
    next
      case False
      with 1(2) p k show ?thesis
        by (auto simp: bind_eq_Some_iff split: sum.splits option.splits prod.splits)
    qed
  qed
qed

lemma list_files_keeps:
  assumes "quiet cn"
  shows "post (od_list_files X callback ctx cn w) (\<lambda>(r, cn', w'). keeps cn w cn' w')"
  unfolding od_list_files_def
  by (intro hive_post | rule post_call, rule list_loop_keeps
      | rule post_call [OF check_expire_keeps] | rule postI
      | ((use assms in \<open>auto simp: keeps_def same_config_def dest!: live_http_new c_alloc_held\<close>)[1]; fail))+

lemma put_value_keeps:
  assumes "quiet cn"
  shows "post (od_put_value X key val enc cn w) (\<lambda>(r, cn', w'). keeps cn w cn' w')"
proof -
  note q = keeps_quiet [OF _ assms]
  show ?thesis
    unfolding od_put_value_def
    by (intro hive_post
        | rule post_call [OF get_file_length_keeps [OF assms]]
        | rule post_call [OF get_file_to_buffer_keeps] | rule post_call [OF put_file_keeps] | rule postI
        | ((auto simp: keeps_def same_config_def quiet_def quiet_writeback_def dest!: c_alloc_held)[1]; fail)
        | ((use assms in \<open>auto simp: keeps_def same_config_def quiet_def quiet_writeback_def dest!: c_alloc_held\<close>)[1]; fail))+
qed

lemma set_value_keeps:
  assumes "quiet cn"
  shows "post (od_set_value X key val enc cn w) (\<lambda>(r, cn', w'). keeps cn w cn' w')"
  unfolding od_set_value_def
  by (intro hive_post | rule post_call [OF put_file_keeps [OF assms]] | rule postI
      | ((auto simp: keeps_def same_config_def dest!: c_alloc_held)[1]; fail))+

lemma get_values_keeps:
  assumes "quiet cn"
  shows "post (od_get_values X key dec callback ctx cn w) (\<lambda>(r, cn', w'). keeps cn w cn' w')"
  unfolding od_get_values_def
  by (intro hive_post
      | rule post_call [OF get_file_length_keeps [OF assms]]
      | rule post_call [OF get_file_to_buffer_keeps] | rule postI
      | ((use assms in \<open>auto simp: keeps_def same_config_def quiet_def quiet_writeback_def dest!: c_alloc_held\<close>)[1]; fail))+

lemma delete_key_keeps:
  assumes "quiet cn"
  shows "post (od_delete_key X key cn w) (\<lambda>(r, cn', w'). keeps cn w cn' w')"
  unfolding od_delete_key_def
  by (intro hive_post | rule post_call [OF delete_file_keeps [OF assms]] | fastforce)+

lemma oauth_writeback_live: "oauth_writeback X path j w = Some (rc, w') \<Longrightarrow> held w' = held w"
  by (auto simp: oauth_writeback_def Let_def fs_live open_live split: if_splits option.splits prod.splits)

lemma load_keystore_live: "load_keystore_in_json X path w = Some (j, w') \<Longrightarrow> held w' = held w"
  by (auto simp: load_keystore_in_json_def Let_def fs_live open_live bind_eq_Some_iff
      split: if_splits option.splits prod.splits)

lemma token_new_quiet:
  assumes "oauth_token_new X opts cb w = Some (Some tok, w')"
    and "\<And>j w rc w'. cb j w = Some (rc, w') \<Longrightarrow> held w' = held w"
  shows "quiet_writeback tok \<and> token_ok tok \<and> held w' = held w"
  using postD [OF token_new_ok assms(1)] assms(2) by (auto simp: quiet_writeback_def)

lemma token_new_none: "oauth_token_new X opts cb w = Some (None, w') \<Longrightarrow> held w' = held w"
  using postD [OF token_new_ok, of X opts cb w "(None, w')"] by simp

lemma connect_keeps:
  "post (onedrive_client_connect X loc options w) (\<lambda>(cn, w'). held w' = held w \<and>
     (case cn of None \<Rightarrow> True | Some cn \<Rightarrow> quiet cn \<and> token_ok (od_token cn)))"
  unfolding onedrive_client_connect_def
  by (intro hive_post | rule post_call [OF token_request_post] | rule postI
      | ((auto simp: quiet_def dest!: c_access_held mkdirs_live load_keystore_live token_new_none
            token_new_quiet [OF _ oauth_writeback_live] c_alloc_held
          intro: renewed_props quiet_writeback_config [THEN iffD2] split: if_splits)[1]; fail))+

section \<open>The life of a connection\<close>

text \<open>The method calls an application makes on a connection, with its own state \<open>'c\<close>.\<close>

inductive od_step ::
  "('j, 'r) ext \<Rightarrow> 'c \<times> ('j, 'r) OneDriveConnect \<times> 'r world \<Rightarrow> 'c \<times> ('j, 'r) OneDriveConnect \<times> 'r world \<Rightarrow> bool"
  for X where
  put_file: "od_put_file_from_buffer X from enc name cn w = Some (rc, cn', w') \<Longrightarrow> od_step X (a, cn, w) (a, cn', w')"
| file_length: "od_get_file_length X name cn w = Some (n, cn', w') \<Longrightarrow> od_step X (a, cn, w) (a, cn', w')"
| get_file: "od_get_file_to_buffer X name dec room len cn w = Some (r, cn', w') \<Longrightarrow> od_step X (a, cn, w) (a, cn', w')"
| list_files: "od_list_files X cb a cn w = Some ((rc, a'), cn', w') \<Longrightarrow> od_step X (a, cn, w) (a', cn', w')"
| delete_file: "od_delete_file X name cn w = Some (rc, cn', w') \<Longrightarrow> od_step X (a, cn, w) (a, cn', w')"
| put_value: "od_put_value X key v enc cn w = Some (rc, cn', w') \<Longrightarrow> od_step X (a, cn, w) (a, cn', w')"
| set_value: "od_set_value X key v enc cn w = Some (rc, cn', w') \<Longrightarrow> od_step X (a, cn, w) (a, cn', w')"
| get_values: "od_get_values X key dec vcb a cn w = Some ((rc, a'), cn', w') \<Longrightarrow> od_step X (a, cn, w) (a', cn', w')"
| delete_key: "od_delete_key X key cn w = Some (rc, cn', w') \<Longrightarrow> od_step X (a, cn, w) (a, cn', w')"
| expire: "od_step X (a, cn, w) (a, expire_token cn, w)"

inductive od_run ::
  "('j, 'r) ext \<Rightarrow> 'c \<times> ('j, 'r) OneDriveConnect \<times> 'r world \<Rightarrow> 'c \<times> ('j, 'r) OneDriveConnect \<times> 'r world \<Rightarrow> bool"
  for X where
  start: "od_run X s s"
| step: "od_run X s t \<Longrightarrow> od_step X t u \<Longrightarrow> od_run X s u"

lemma methods_keep:
  assumes "quiet cn"
  shows "post (od_put_file_from_buffer X from enc name cn w) (\<lambda>(r, cn', w'). keeps cn w cn' w')"
    and "post (od_get_file_length X name cn w) (\<lambda>(r, cn', w'). keeps cn w cn' w')"
    and "post (od_get_file_to_buffer X name dec room len cn w) (\<lambda>(r, cn', w'). keeps cn w cn' w')"
    and "post (od_delete_file X name cn w) (\<lambda>(r, cn', w'). keeps cn w cn' w')"
  using put_file_keeps [OF assms] get_file_length_keeps [OF assms] get_file_to_buffer_keeps [OF assms]
    delete_file_keeps [OF assms]
  by (auto simp: od_put_file_from_buffer_def od_get_file_length_def od_get_file_to_buffer_def od_delete_file_def
      Let_def split: prod.splits intro: post_Some)

lemma od_step_keeps:
  assumes "od_step X (a, cn, w) (a', cn', w')" "quiet cn"
  shows "keeps cn w cn' w'"
  using assms(1)
proof (cases rule: od_step.cases)
  case expire
  then show ?thesis using expire_keeps by auto
qed (use postD [OF methods_keep(1) [OF assms(2)]] postD [OF methods_keep(2) [OF assms(2)]]
    postD [OF methods_keep(3) [OF assms(2)]] postD [OF methods_keep(4) [OF assms(2)]]
    postD [OF list_files_keeps [OF assms(2)]] postD [OF put_value_keeps [OF assms(2)]]
    postD [OF set_value_keeps [OF assms(2)]] postD [OF get_values_keeps [OF assms(2)]]
    postD [OF delete_key_keeps [OF assms(2)]] in fastforce)+

lemma od_run_keeps:
  assumes "od_run X (a, cn, w) s" "quiet cn"
  shows "keeps cn w (fst (snd s)) (snd (snd s))"
  using assms
proof (induction "(a, cn, w)" s rule: od_run.induct)
  case (step t u)
  obtain b m v where t: "t = (b, m, v)" by (cases t)
  obtain b' m' v' where u: "u = (b', m', v')" by (cases u)
  have k: "keeps cn w m v" using step t by simp
  with step.prems keeps_quiet have "quiet m" by blast
  with od_step_keeps [OF step.hyps(3) [unfolded t u]] have "keeps m v m' v'" by blast
  with k u show ?case by (auto intro: keeps_trans)
qed simp

text \<open>Whatever sequence of file and key operations is run on a connection that
  \<open>onedrive_client_connect\<close> returned, in whatever order and with whatever answers of
  the server, the connection keeps its invariant: the three token strings are all set or all unset,
  the client id and the key store path are the ones of the connect call, and every HTTP client and
  every descriptor an operation opens has been closed again when it returns, error exits included.\<close>

theorem onedrive_reachable_ok:
  assumes "onedrive_client_connect X loc options w = Some (Some cn, w0)"
    and "od_run X (a, cn, w0) (a', cn', w')"
  shows "token_ok (od_token cn') \<and> keystore_path cn' = keystore_path cn
     \<and> client_id (od_token cn') = client_id (od_token cn) \<and> held w' = held w"
  using postD [OF connect_keeps assms(1)] od_run_keeps [OF assms(2)]
  by (auto simp: keeps_def same_config_def)

section \<open>Downloading\<close>

interpretation download: byte_sink download_file_response_body_callback sk_data "\<lambda>k. length (sk_data k) \<le> sk_cap k"
  by unfold_locales (auto simp: download_file_response_body_callback_def split: if_splits)

lemma download_feed_cap:
  "feed download_file_response_body_callback chs k = Some (ok, k') \<Longrightarrow> sk_cap k' = sk_cap k"
  by (induction chs arbitrary: k)
    (auto simp: download_file_response_body_callback_def split: if_splits option.splits)

lemma download_feed_ok:
  "length (sk_data k) \<le> sk_cap k \<Longrightarrow> feed download_file_response_body_callback chs k =
     (if length (sk_data k @ concat chs) \<le> sk_cap k then Some (True, k\<lparr>sk_data := sk_data k @ concat chs\<rparr>) else None)"
  by (induction chs arbitrary: k) (auto simp: download_file_response_body_callback_def)

definition download_client :: "('j, 'r) ext \<Rightarrow> http_client \<Rightarrow> string \<Rightarrow> nat \<Rightarrow> http_client option" where
  "download_client X c url room = do {
     c1 \<leftarrow> start_request X c url HTTP_METHOD_GET;
     Some (prepare_request (http_client_set_response_body (http_client_enable_response_body c1)
       download_file_response_body_callback \<lparr>sk_cap = room, sk_data = []\<rparr>))
   }"

lemma download_result:
  assumes "download_client X c url room = Some d"
    and "curl_perform X (hc_opts d) (hc_url d) (remote w) = (t, r)"
    and "t_code t = 0" and "t_info t = 0"
  shows "\<exists>c'. od__download_file X c url room w =
     (if length (concat (t_chunks t)) \<le> room
      then Some (if t_status t = HttpStatus_OK then 0 else int_of_error (HIVE_HTTP_STATUS_ERROR (t_status t)),
        concat (t_chunks t), c', w\<lparr>remote := r\<rparr>)
      else None)"
proof -
  obtain c1 where c1: "start_request X c url HTTP_METHOD_GET = Some c1"
    and d: "d = prepare_request (http_client_set_response_body (http_client_enable_response_body c1)
       download_file_response_body_callback \<lparr>sk_cap = room, sk_data = []\<rparr>)"
    using assms(1) by (auto simp: download_client_def bind_eq_Some_iff)
  let ?b = "http_client_set_response_body (http_client_enable_response_body c1)
       download_file_response_body_callback \<lparr>sk_cap = room, sk_data = []\<rparr>"
  have wf: "write_fn_of (hc_opts ?b) = Caller_cb download_file_response_body_callback"
    by (simp add: http_client_set_response_body_def setopt_def write_fn_of_def)
  have sk: "hc_sink ?b = \<lparr>sk_cap = room, sk_data = []\<rparr>"
    by (simp add: http_client_set_response_body_def setopt_def)
  have p: "curl_perform X (hc_opts (prepare_request ?b)) (hc_url ?b) (remote w) = (t, r)"
    using assms(2) d by simp
  show ?thesis
    using c1 p assms(3,4)
    by (simp add: od__download_file_def http_client_request_def Let_def wf sk feed_caller_cb download_feed_ok
        http_client_get_response_code_def resp_code_of_def hive_const)
qed

text \<open>C11: A download either stores exactly the bytes the server sent and reports the HTTP status, or,
  when they are more than the caller's buffer holds, writes past it: the callback that copies them
  compares nothing with the size of the buffer, so the code is safe exactly when the server sends no
  more than the room there is.\<close>

theorem download_file_outcome:
  assumes "download_client X c url room = Some d"
    and "curl_perform X (hc_opts d) (hc_url d) (remote w) = (t, r)"
    and "t_code t = 0" and "t_info t = 0"
  shows "(case od__download_file X c url room w of
      None \<Rightarrow> room < length (concat (t_chunks t))
    | Some (rc, got, _) \<Rightarrow> got = concat (t_chunks t) \<and> length got \<le> room \<and>
        rc = (if t_status t = HttpStatus_OK then 0 else int_of_error (HIVE_HTTP_STATUS_ERROR (t_status t))))"
proof -
  obtain c' where "od__download_file X c url room w =
     (if length (concat (t_chunks t)) \<le> room
      then Some (if t_status t = HttpStatus_OK then 0 else int_of_error (HIVE_HTTP_STATUS_ERROR (t_status t)),
        concat (t_chunks t), c', w\<lparr>remote := r\<rparr>)
      else None)"
    using download_result [OF assms] by blast
  then show ?thesis by (simp split: if_splits)
qed

section \<open>Appending a value\<close>

text \<open>\<open>put_value\<close> appends: when the file of the key can be read and holds the entries
  of some values, the file is written back with the same entries followed by the entry of the new
  value, and the result of the upload is the result of the call.\<close>

theorem put_value_appends:
  assumes "od__get_file_length X (key_path key) cn w = Some (int (length old), cn1, w1)"
    and "old \<noteq> []" and "length old < 2 ^ 31" and "faults w1 = []"
    and "od__get_file_to_buffer X (key_path key) (length old + 4 + length val) (length old) cn1 w1
           = Some ((int (length old), old), cn2, w2)"
    and "old = concat (map kv_entry vs)"
  shows "od_put_value X key val encrypt cn w =
     od__put_file_from_buffer X (concat (map kv_entry (vs @ [val]))) (key_path key) cn2 w2"
proof -
  have "int_of_ssize (int (length old)) = int (length old)"
    using assms(3) by (intro int_of_ssize_small) simp_all
  moreover have "not_found < 0" by (simp add: not_found_def)
  moreover have "c_alloc w1 = (True, w1)" using assms(4) by (simp add: c_alloc_def take_fault_def)
  moreover have "0 < length old" using assms(2) by simp
  ultimately show ?thesis
    using assms(1,5) unfolding assms(6)[symmetric]
    by (simp add: od_put_value_def zero_padded_def assms(6)[symmetric])
qed

section \<open>The key store on disk\<close>

text \<open>C9: The key store file round-trips: what \<open>oauth_writeback\<close> writes (the printed JSON
  with its terminating NUL) is what \<open>load_keystore_in_json\<close> parses back, when the
  directory exists and the text is shorter than the reader's buffer of 4096 bytes; every descriptor
  opened on the way is closed.\<close>

theorem keystore_roundtrip:
  assumes "cJSON_PrintUnformatted X j = Some s" and "cJSON_Parse X s = Some j'"
    and "s \<noteq> []" and "NUL \<notin> set s" and "length s < 4096" and "faults w = []"
    and "parent_dir w (path_key path)" and "node_at w (path_key path) \<noteq> Some Dir"
  shows "\<exists>w1 w2. oauth_writeback X path j w = Some (0, w1) \<and>
     load_keystore_in_json X path w1 = Some (Some j', w2) \<and> open_fds w2 = open_fds w"
proof -
  let ?k = "path_key path"
  have k: "?k \<noteq> []" using assms(7) by (simp add: parent_dir_def)
  define w1 where "w1 = w\<lparr>files := (files w)(?k := Some (File (s @ [NUL])))\<rparr>"
  have wb: "oauth_writeback X path j w = Some (0, w1)"
    using assms(1,3,6,7,8) k
    by (simp add: oauth_writeback_def libc_defs Let_def node_at_def w1_def)
  have "c_string_in ((s @ [NUL]) @ replicate (4096 - length (s @ [NUL])) NUL) = Some s"
    using c_string_in_append_NUL [OF assms(4)] by simp
  then have "parse_block X ((s @ [NUL]) @ replicate (4096 - length (s @ [NUL])) NUL) = Some (Some j')"
    using assms(2) by (simp add: parse_block_def)
  then have "load_keystore_in_json X path w1 = Some (Some j', w1)"
    using assms(5,6) k
    by (simp add: load_keystore_in_json_def libc_defs Let_def node_at_def w1_def)
  with wb show ?thesis by (auto simp: w1_def)
qed

section \<open>Listings\<close>

definition valid_item :: "('j, 'r) ext \<Rightarrow> 'j \<Rightarrow> bool" where
  "valid_item X item \<longleftrightarrow>
     (let file = cJSON_GetObjectItemCaseSensitive X item ''file'';
          folder = cJSON_GetObjectItemCaseSensitive X item ''folder''
      in IS_STRING_NODE X (cJSON_GetObjectItemCaseSensitive X item ''name'') \<and>
         (file \<noteq> None) \<noteq> (folder \<noteq> None) \<and>
         (\<forall>f. file = Some f \<longrightarrow> cJSON_IsObject X f) \<and> (\<forall>f. folder = Some f \<longrightarrow> cJSON_IsObject X f))"

lemma merge_array_spec:
  "merge_array X sub array =
     (if list_all (valid_item X) sub then (0, array @ sub)
      else (int_of_error (HIVE_GENERAL_ERROR HIVEERR_BAD_JSON_FORMAT), array @ takeWhile (valid_item X) sub))"
proof (induction sub arbitrary: array)
  case (Cons item sub)
  have "merge_array X (item # sub) array =
      (if valid_item X item then merge_array X sub (array @ [item])
       else (int_of_error (HIVE_GENERAL_ERROR HIVEERR_BAD_JSON_FORMAT), array))"
    by (auto simp: valid_item_def Let_def split: option.splits)
  then show ?case using Cons by simp
qed simp

definition name_of :: "('j, 'r) ext \<Rightarrow> 'j \<Rightarrow> string option" where
  "name_of X item = valuestring_of X (cJSON_GetObjectItemCaseSensitive X item ''name'')"

text \<open>What the application is told: the names in order until it asks to stop, then NULL.\<close>

fun tell_names :: "(string option \<Rightarrow> 'c \<Rightarrow> bool \<times> 'c) \<Rightarrow> string option list \<Rightarrow> 'c \<Rightarrow> 'c" where
  "tell_names callback [] ctx = snd (callback None ctx)"
| "tell_names callback (n # ns) ctx =
     (case callback n ctx of (resume, ctx') \<Rightarrow> if resume then tell_names callback ns ctx' else ctx')"

lemma notify_names:
  "list_all (valid_item X) items \<Longrightarrow>
     notify_user_files X items callback ctx = Some (tell_names callback (map (name_of X) items) ctx)"
  by (induction items arbitrary: ctx)
    (auto simp: valid_item_def name_of_def Let_def IS_STRING_NODE_def is_string_def valuestring_of_def
      split: option.splits prod.splits)

text \<open>A listing whose pages end: from the request for \<open>url\<close> with the items \<open>array\<close> collected so
  far to all the items, the connection and the world after the last page.\<close>

inductive pages ::
  "('j, 'r) ext \<Rightarrow> string \<Rightarrow> 'j list \<Rightarrow> http_client \<Rightarrow> ('j, 'r) OneDriveConnect \<Rightarrow> 'r world
     \<Rightarrow> 'j list \<Rightarrow> ('j, 'r) OneDriveConnect \<Rightarrow> 'r world \<Rightarrow> bool"
  for X where
  last_page: "list_page X url array c cn w = Some ((Inr (array', None), c'), cn', w') \<Longrightarrow>
     pages X url array c cn w array' cn' w'"
| next_page: "list_page X url array c cn w = Some ((Inr (array', Some url'), c'), cn', w') \<Longrightarrow>
     pages X url' array' c' cn' w' items cn2 w2 \<Longrightarrow> pages X url array c cn w items cn2 w2"

lemma list_page_valid:
  "list_page X url array c cn w = Some ((Inr (array', link), c'), cn', w') \<Longrightarrow>
     list_all (valid_item X) array \<Longrightarrow> list_all (valid_item X) array'"
proof -
  have "post (list_page X url array c cn w) (\<lambda>((r, _), _, _). \<forall>array' link. r = Inr (array', link) \<longrightarrow>
      list_all (valid_item X) array \<longrightarrow> list_all (valid_item X) array')"
    unfolding list_page_def
    by (intro hive_post | rule postI | (fastforce simp: merge_array_spec split: if_splits))+
  then show "list_page X url array c cn w = Some ((Inr (array', link), c'), cn', w') \<Longrightarrow>
      list_all (valid_item X) array \<Longrightarrow> list_all (valid_item X) array'"
    by (auto dest: postD)
qed

lemma pages_valid:
  "pages X url array c cn w items cn' w' \<Longrightarrow> list_all (valid_item X) array \<Longrightarrow> list_all (valid_item X) items"
  by (induction rule: pages.induct) (auto dest: list_page_valid)

lemma pages_loop:
  "pages X url array c cn w items cn' w' \<Longrightarrow> list_all (valid_item X) array \<Longrightarrow>
     list_loop X callback url array c ctx cn w
       = Some ((0, tell_names callback (map (name_of X) items) ctx), cn', w')"
proof (induction rule: pages.induct)
  case (last_page url array c cn w array' c' cn' w')
  then show ?case
    using notify_names [OF list_page_valid [OF last_page], of callback ctx] by (subst list_loop.simps) simp
next
  case (next_page url array c cn w array' url' c' cn' w' items cn2 w2)
  then show ?case
    using list_page_valid [OF next_page.hyps(1)] by (subst list_loop.simps) simp
qed


text \<open>C27: The listing does not guard against a server that repeats itself: as long as every page links
  to another one, the loop that collects the pages never returns.\<close>

theorem list_loop_endless:
  assumes "\<And>url array c cn w. linked url c cn w \<Longrightarrow> \<exists>array' url' c' cn' w'.
      list_page X url array c cn w = Some ((Inr (array', Some url'), c'), cn', w') \<and> linked url' c' cn' w'"
    and "linked url c cn w"
  shows "list_loop X callback url array c ctx cn w = None"
proof (rule ccontr)
  assume "list_loop X callback url array c ctx cn w \<noteq> None"
  then obtain y where run: "list_loop X callback url array c ctx cn w = Some y" by auto
  have "X = X \<longrightarrow> \<not> linked url c cn w"
  proof (rule list_loop.raw_induct
      [where P = "\<lambda>X' callback url array c ctx cn w y. X' = X \<longrightarrow> \<not> linked url c cn w", OF _ run], goal_cases)
    case (1 loop X' callback url array c ctx cn w y)
    show ?case
    proof (intro impI notI)
      assume X: "X' = X" and "linked url c cn w"
      then obtain a u c1 cn1 w1 where p: "list_page X url array c cn w = Some ((Inr (a, Some u), c1), cn1, w1)"
        and l: "linked u c1 cn1 w1"
        using assms(1) by blast
      with 1(2) X have "loop X callback u a c1 ctx cn1 w1 = Some y" by simp
      from 1(1) [OF this] l show False by simp
    qed
  qed
  with assms(2) show False by simp
qed

section \<open>Requests the server refuses\<close>

text \<open>A token that is in force, and enough memory for one request.\<close>

definition ready :: "('j, 'r) OneDriveConnect \<Rightarrow> 'r world \<Rightarrow> bool" where
  "ready cn w \<longleftrightarrow> \<not> timer_gt (clock w (tick w)) (expires_at (od_token cn)) \<and> faults w = []
     \<and> curl_initialized w \<and> access_token (od_token cn) \<noteq> None"

definition answers :: "('j, 'r) ext \<Rightarrow> int \<Rightarrow> bool" where
  "answers X status \<longleftrightarrow> (\<forall>os us r. \<exists>r'. curl_perform X os us r =
     (\<lparr>t_code = 0, t_chunks = [], t_status = status, t_info = 0\<rparr>, r'))"

lemma ready_check: "ready cn w \<Longrightarrow> od_check_expire X cn w = Some (0, cn, w\<lparr>tick := Suc (tick w)\<rparr>)"
  by (simp add: ready_def od_check_expire_def oauth_token_check_expire_def oauth_token_is_expired_def
      c_gettimeofday_def)

lemma new_ok:
  "faults w = [] \<Longrightarrow> curl_initialized w \<Longrightarrow>
     http_client_new X w = (Some fresh_client, w\<lparr>live_http := live_http w + 1\<rparr>)"
  by (cases w) (simp add: http_client_new_def c_alloc_def take_fault_def)

lemma set_header_ok:
  "faults w = [] \<Longrightarrow> name \<noteq> [] \<Longrightarrow> \<exists>c'. set_header name (Some v) (c, w) = Some (c', w)"
  by (simp add: set_header_def http_client_set_header_def c_alloc_def take_fault_def)

lemma authorization_ok:
  "faults w = [] \<Longrightarrow> access_token (od_token cn) \<noteq> None \<Longrightarrow> \<exists>c'. authorization cn (c, w) = Some (c', w)"
  using set_header_ok [of w "''Authorization''"] by (auto simp: authorization_def get_bearer_token_def)

lemma start_request_ok: "url \<noteq> [] \<Longrightarrow> \<exists>c'. start_request X c url m = Some c'"
  by (simp add: start_request_def http_client_set_url_def split: prod.splits)

definition try_again :: int where
  "try_again = int_of_error (HIVE_GENERAL_ERROR HIVEERR_TRY_AGAIN)"

lemma refused:
  "answers X HttpStatus_Unauthorized \<Longrightarrow>
     \<exists>c' w'. authorized_request X c cn w = Some (Inl try_again, c', expire_token cn, w')"
proof -
  assume "answers X HttpStatus_Unauthorized"
  then obtain r where "curl_perform X (hc_opts (prepare_request c)) (hc_url c) (remote w) =
      (\<lparr>t_code = 0, t_chunks = [], t_status = HttpStatus_Unauthorized, t_info = 0\<rparr>, r)"
    unfolding answers_def by blast
  then show ?thesis
    by (simp add: authorized_request_def http_client_request_def http_client_get_response_code_def
        resp_code_of_def try_again_def hive_const)
qed

lemma APP_ROOT_facts [simp]: "length APP_ROOT = 57" "APP_ROOT \<noteq> []"
  by (simp_all add: APP_ROOT_def)

lemma FILES_DIR_facts [simp]: "length FILES_DIR = 6" "FILES_DIR \<noteq> []"
  by (simp_all add: FILES_DIR_def)

lemma short_name:
  assumes "length name < 4089"
  shows "od_delete_file X name cn w = od__delete_file X (FILES_DIR @ ''/'' @ name) cn w"
    and "od_put_file_from_buffer X from enc name cn w = od__put_file_from_buffer X from (FILES_DIR @ ''/'' @ name) cn w"
    and "od_get_file_length X name cn w = od__get_file_length X (FILES_DIR @ ''/'' @ name) cn w"
  using assms
  by (simp_all add: od_delete_file_def od_put_file_from_buffer_def od_get_file_length_def c_snprintf_def hive_const)

lemma refused_delete:
  assumes "answers X HttpStatus_Unauthorized" "ready cn w" "length path < 965"
  shows "\<exists>w'. od__delete_file X path cn w = Some (try_again, expire_token cn, w')"
proof -
  let ?w1 = "w\<lparr>tick := Suc (tick w)\<rparr>" and ?url = "APP_ROOT @ '':'' @ path @ '':''"
  let ?w2 = "?w1\<lparr>live_http := live_http ?w1 + 1\<rparr>"
  have f: "faults ?w1 = []" "curl_initialized ?w1" "faults ?w2 = []" "access_token (od_token cn) \<noteq> None"
    using assms(2) by (auto simp: ready_def)
  obtain c1 where c1: "start_request X fresh_client ?url HTTP_METHOD_DELETE = Some c1"
    using start_request_ok [of ?url X fresh_client] by auto
  obtain c2 where c2: "authorization cn (c1, ?w2) = Some (c2, ?w2)"
    using authorization_ok [OF f(3,4)] by blast
  obtain c3 w3 where "authorized_request X c2 cn ?w2 = Some (Inl try_again, c3, expire_token cn, w3)"
    using refused [OF assms(1)] by blast
  with c1 c2 assms(3) new_ok [OF f(1,2), of X] show ?thesis
    by (simp add: od__delete_file_def ready_check [OF assms(2)] hive_const)
qed

lemma refused_upload:
  assumes "answers X HttpStatus_Unauthorized" "ready cn w" "length path < 957" "length from \<le> 4 * 1024 * 1024"
  shows "\<exists>w'. od__put_file_from_buffer X from path cn w = Some (try_again, expire_token cn, w')"
proof -
  let ?w1 = "w\<lparr>tick := Suc (tick w)\<rparr>" and ?url = "APP_ROOT @ '':'' @ path @ '':/content''"
  let ?w2 = "?w1\<lparr>live_http := live_http ?w1 + 1\<rparr>"
  have f: "faults ?w1 = []" "curl_initialized ?w1" "faults ?w2 = []" "access_token (od_token cn) \<noteq> None"
    using assms(2) by (auto simp: ready_def)
  obtain c1 where c1: "start_request X fresh_client ?url HTTP_METHOD_PUT = Some c1"
    using start_request_ok [of ?url X fresh_client] by auto
  obtain c2 where c2: "authorization cn (c1, ?w2) = Some (c2, ?w2)"
    using authorization_ok [OF f(3,4)] by blast
  obtain c3 w3 where "authorized_request X (http_client_set_request_body_instant c2
      (if from \<noteq> [] then Some from else None) (length from)) cn ?w2 = Some (Inl try_again, c3, expire_token cn, w3)"
    using refused [OF assms(1)] by blast
  with c1 c2 assms(3,4) new_ok [OF f(1,2), of X] show ?thesis
    by (simp add: od__put_file_from_buffer_def od__upload_file_def ready_check [OF assms(2)] hive_const)
qed

lemma refused_length:
  assumes "answers X HttpStatus_Unauthorized" "ready cn w" "length path < 966"
  shows "\<exists>w'. od__get_file_length X path cn w = Some (try_again, expire_token cn, w')"
proof -
  let ?w1 = "w\<lparr>tick := Suc (tick w)\<rparr>" and ?url = "APP_ROOT @ '':'' @ path"
  let ?w2 = "?w1\<lparr>live_http := live_http ?w1 + 1\<rparr>"
  have f: "faults ?w1 = []" "curl_initialized ?w1" "faults ?w2 = []" "access_token (od_token cn) \<noteq> None"
    using assms(2) by (auto simp: ready_def)
  obtain rc0 c0 where c0: "http_client_set_url X fresh_client ?url = Some (rc0, c0)"
    by (simp add: http_client_set_url_def curl_url_set_def)
  obtain rc1 c1 where c1: "http_client_set_query X c0 ''select'' ''size'' = Some (rc1, c1)"
    by (simp add: http_client_set_query_def curl_url_set_def)
  obtain c2 where c2: "authorization cn (snd (http_client_set_method X c1 HTTP_METHOD_GET), ?w2) = Some (c2, ?w2)"
    using authorization_ok [OF f(3,4)] by blast
  obtain c3 w3 where "authorized_request X (http_client_enable_response_body c2) cn ?w2
      = Some (Inl try_again, c3, expire_token cn, w3)"
    using refused [OF assms(1)] by blast
  with c0 c1 c2 assms(3) new_ok [OF f(1,2), of X] show ?thesis
    by (simp add: od__get_file_length_def od__get_file_info_def ready_check [OF assms(2)] hive_const)
qed


text \<open>C13: A remote name of 959 to 4088 characters passes the length check of the OneDrive methods
  (\<open>PATH_MAX\<close>) and then overflows the array of 1024 bytes the request URL is printed
  into with \<open>sprintf\<close>: deleting, asking the length and uploading have no defined
  result.\<close>

theorem long_name_overflows_url:
  assumes "ready cn w" and "959 \<le> length name" and "length name < 4089"
  shows "od_delete_file X name cn w = None \<and> od_get_file_length X name cn w = None
     \<and> (length from \<le> 4 * 1024 * 1024 \<longrightarrow> od_put_file_from_buffer X from enc name cn w = None)"
proof -
  let ?w1 = "w\<lparr>tick := Suc (tick w)\<rparr>"
  have f: "faults ?w1 = []" "curl_initialized ?w1"
    using assms(1) by (auto simp: ready_def)
  have "c_strcpy MAX_URL_LEN (APP_ROOT @ '':'' @ (FILES_DIR @ ''/'' @ name) @ t) = None"
    for t using assms(2) by (simp add: hive_const)
  from this [of "'':''"] this [of "''''"] this [of "'':/content''"] show ?thesis
    unfolding short_name [OF assms(3)]
    by (simp add: od__delete_file_def od__get_file_length_def od__get_file_info_def od__put_file_from_buffer_def
        od__upload_file_def ready_check [OF assms(1)] new_ok [OF f])
qed

section \<open>Examples\<close>

definition sample_conn :: "(json, 'r) OneDriveConnect" where
  "sample_conn = \<lparr>od_token = sample_token, keystore_path = ''/d/.data/onedrive.json''\<rparr>"

text \<open>A world with a key store, and an application that finds its tokens in it.\<close>

definition stored_world :: "unit world" where
  "stored_world = (calm_world ())\<lparr>files := (\<lambda>k. if k = [''d''] \<or> k = [''d'', ''.data''] then Some Dir
     else if k = [''d'', ''.data'', ''onedrive.json''] then Some (File (''{}'' @ [NUL])) else None)\<rparr>"

definition stored_json :: json where
  "stored_json = JObj [(''client_id'', JStr ''id''), (''token_type'', JStr ''bearer''), (''access_token'', JStr ''A''),
     (''refresh_token'', JStr ''R''), (''expires_at'', JNum 2000)]"

definition fixed_status :: "int \<Rightarrow> (json, unit) ext" where
  "fixed_status status = json_ext (\<lambda>_ _ r. (\<lparr>t_code = 0, t_chunks = [], t_status = status, t_info = 0\<rparr>, r))
     (\<lambda>_. Some stored_json) (\<lambda>_. Some ''{}'')"

definition sample_options :: "unit OneDriveConnectOptions" where
  "sample_options = \<lparr>odo_backendType = HiveBackendType_OneDrive, odo_client_id = Some ''id'',
     odo_scope = Some ''offline Files.ReadWrite.AppFolder'', odo_redirect_url = Some ''http://localhost/cb'',
     odo_callback = Some (sample_auth True)\<rparr>"

lemma sample_connects:
  "case onedrive_client_connect (fixed_status 200) ''/d'' sample_options stored_world of
     Some (Some cn, _) \<Rightarrow> access_token (od_token cn) = Some ''A'' | _ \<Rightarrow> False"
  by code_simp

lemma onedrive_reachable_ok_witness:
  "\<exists>cn w0. onedrive_client_connect (fixed_status 200) ''/d'' sample_options stored_world = Some (Some cn, w0) \<and>
     od_run (fixed_status 200) ((), cn, w0) ((), expire_token cn, w0) \<and>
     token_ok (od_token (expire_token cn)) \<and> live_http w0 = 0"
proof -
  obtain cn w0 where c: "onedrive_client_connect (fixed_status 200) ''/d'' sample_options stored_world = Some (Some cn, w0)"
    using sample_connects by (auto split: option.splits prod.splits)
  have run: "od_run (fixed_status 200) ((), cn, w0) ((), expire_token cn, w0)"
    by (rule od_run.step [OF od_run.start od_step.expire])
  from onedrive_reachable_ok [OF c run] c run show ?thesis by (auto simp: stored_world_def)
qed

definition send_chunks :: "bytes list \<Rightarrow> (json, unit) ext" where
  "send_chunks chs = json_ext (\<lambda>_ _ r. (\<lparr>t_code = 0, t_chunks = chs, t_status = 200, t_info = 0\<rparr>, r))
     (\<lambda>_. None) (\<lambda>_. None)"

lemma download_file_outcome_witness:
  "od__download_file (send_chunks [''ab'', ''cd'']) fresh_client ''u'' 3 (calm_world ()) = None \<and>
   (\<exists>d w'. od__download_file (send_chunks [''ab'', ''cd'']) fresh_client ''u'' 4 (calm_world ()) = Some (0, ''abcd'', d, w'))"
proof -
  have d: "\<exists>d. download_client (send_chunks [''ab'', ''cd'']) fresh_client ''u'' n = Some d" for n
    by (simp add: download_client_def start_request_def http_client_set_url_def split: prod.splits)
  let ?t = "\<lparr>t_code = 0, t_chunks = [''ab'', ''cd''], t_status = 200, t_info = 0\<rparr>"
  have p: "curl_perform (send_chunks [''ab'', ''cd'']) os us (remote (calm_world ())) = (?t, ())" for os us
    by (simp add: send_chunks_def json_ext_def)
  from d [of 3] obtain d3 where d3: "download_client (send_chunks [''ab'', ''cd'']) fresh_client ''u'' 3 = Some d3" by blast
  from d [of 4] obtain d4 where d4: "download_client (send_chunks [''ab'', ''cd'']) fresh_client ''u'' 4 = Some d4" by blast
  from download_file_outcome [OF d3 p] download_file_outcome [OF d4 p] show ?thesis
    by (auto simp: hive_const split: option.splits prod.splits)
qed

lemma keystore_roundtrip_witness:
  "\<exists>w1 w2. oauth_writeback (fixed_status 200) ''/d/new.json'' stored_json stored_world = Some (0, w1) \<and>
     load_keystore_in_json (fixed_status 200) ''/d/new.json'' w1 = Some (Some stored_json, w2) \<and> open_fds w2 = 0"
  using keystore_roundtrip [of "fixed_status 200" stored_json "''{}''" stored_json stored_world "''/d/new.json''"]
  by (simp add: fixed_status_def json_ext_def stored_world_def parent_dir_def node_at_def path_key_def)

lemma sample_ready: "ready sample_conn (calm_world ())"
  by (simp add: ready_def sample_conn_def sample_token_def timer_gt_def)


lemma long_name_overflows_url_witness:
  "od_delete_file (fixed_status 200) (replicate 1000 (CHR ''a'')) sample_conn (calm_world ()) = None"
  using long_name_overflows_url [OF sample_ready, of "replicate 1000 (CHR ''a'')"] by simp

text \<open>A server that answers every request with status 200 and one body.\<close>

definition serve :: "string \<Rightarrow> json \<Rightarrow> (json, unit) ext" where
  "serve body j = json_ext (\<lambda>_ _ r. (\<lparr>t_code = 0, t_chunks = [body], t_status = 200, t_info = 0\<rparr>, r))
     (\<lambda>_. Some j) (\<lambda>_. None)"

definition clean :: "http_client \<Rightarrow> ('j, 'r) OneDriveConnect \<Rightarrow> 'r world \<Rightarrow> bool" where
  "clean c cn w \<longleftrightarrow> faults w = [] \<and> (\<forall>t i. heap_junk w t i = NUL) \<and> hc_body c = empty_body
     \<and> access_token (od_token cn) \<noteq> None"

lemma clean_preserved:
  "http_client_reset c = c' \<Longrightarrow> hc_body c = empty_body \<Longrightarrow> hc_body c' = empty_body"
  "start_request X c url m = Some c' \<Longrightarrow> hc_body c' = hc_body c"
  "authorization cn (c, w) = Some (c', w') \<Longrightarrow> hc_body c' = hc_body c"
  by (auto simp: http_client_reset_def empty_body_def start_request_def http_client_set_url_def curl_url_set_def
      http_client_set_method_def setopt_def authorization_def set_header_def http_client_set_header_def
      Let_def bind_eq_Some_iff split: if_splits option.splits prod.splits)

lemma served_request:
  assumes "hc_body c = empty_body" "faults w = []" "\<forall>t i. heap_junk w t i = NUL"
    "body \<noteq> []" "length body < 512"
  shows "\<exists>c' b. authorized_request (serve body j) (http_client_enable_response_body c) cn w
      = Some (Inr 200, c', cn, w\<lparr>tick := Suc (tick w)\<rparr>)
    \<and> hc_body c' = b \<and> rb_used b \<noteq> 0 \<and> parse_block (serve body j) (rb_data b) = Some (Some j)"
proof -
  let ?c = "http_client_enable_response_body c"
  have wf: "write_fn_of (hc_opts ?c) = Response_body" and e: "hc_body ?c = empty_body"
    using assms(1) by (simp_all add: http_client_enable_response_body_def setopt_def write_fn_of_def)
  have r: "w\<lparr>remote := ()\<rparr> = w" by simp
  obtain b where "http_response_body_write_callback body empty_body w = Some (length body, b, w\<lparr>tick := Suc (tick w)\<rparr>)"
    "rb_used b \<noteq> 0" "c_string_in (rb_data b) = Some (takeWhile (\<lambda>c. c \<noteq> NUL) body)"
    using callback_once [OF assms(2-4)] assms(5) by fastforce
  then show ?thesis
    using wf e
    by (simp add: parse_block_def authorized_request_def http_client_request_def serve_def json_ext_def Let_def write_cb_def
        r http_client_get_response_code_def resp_code_of_def hive_const)
qed

lemma served_page:
  assumes "clean c cn w" "url \<noteq> []" "body \<noteq> []" "length body < 512"
  shows "\<exists>c' w'. list_page (serve body j) url array c cn w =
      (case cJSON_GetObjectItemCaseSensitive (serve body j) j ''value'' of
         None \<Rightarrow> Some ((Inl (int_of_error (HIVE_GENERAL_ERROR HIVEERR_BAD_JSON_FORMAT)), c'), cn, w')
       | Some sub \<Rightarrow>
           let link = cJSON_GetObjectItemCaseSensitive (serve body j) j ''@odata.nextLink'' in
           if \<not> cJSON_IsArray (serve body j) sub
             \<or> \<not> list_all (valid_item (serve body j)) (j_items (serve body j) sub)
             \<or> link \<noteq> None \<and> \<not> IS_STRING_NODE (serve body j) link
           then Some ((Inl (int_of_error (HIVE_GENERAL_ERROR HIVEERR_BAD_JSON_FORMAT)), c'), cn, w')
           else Some ((Inr (array @ j_items (serve body j) sub, valuestring_of (serve body j) link), c'), cn, w'))
      \<and> clean c' cn w' \<and> held w' = held w"
proof -
  have f: "faults w = []" "\<forall>t i. heap_junk w t i = NUL" "hc_body c = empty_body" "access_token (od_token cn) \<noteq> None"
    using assms(1) by (auto simp: clean_def)
  obtain c1 where c1: "start_request (serve body j) (http_client_reset c) url HTTP_METHOD_GET = Some c1"
    using start_request_ok [OF assms(2)] by blast
  obtain c2 where c2: "authorization cn (c1, w) = Some (c2, w)"
    using authorization_ok [OF f(1,4)] by blast
  have e: "hc_body c2 = empty_body"
    using clean_preserved(1) [OF refl f(3)] clean_preserved(2) [OF c1] clean_preserved(3) [OF c2] by simp
  obtain c3 b where c3: "authorized_request (serve body j) (http_client_enable_response_body c2) cn w
      = Some (Inr 200, c3, cn, w\<lparr>tick := Suc (tick w)\<rparr>)"
    and b: "hc_body c3 = b" "rb_used b \<noteq> 0" and p: "parse_block (serve body j) (rb_data b) = Some (Some j)"
    using served_request [OF e f(1,2) assms(3,4)] by blast
  have cl: "clean (c3\<lparr>hc_body := empty_body\<rparr>) cn (w\<lparr>tick := Suc (tick w)\<rparr>)"
    using f by (simp add: clean_def)
  show ?thesis
    by (intro exI [of _ "c3\<lparr>hc_body := empty_body\<rparr>"] exI [of _ "w\<lparr>tick := Suc (tick w)\<rparr>"] conjI cl)
      (auto simp: list_page_def c1 c2 c3 http_client_move_response_body_def b(1,2) p merge_array_spec Let_def
        HttpStatus_OK_def split: option.splits)
qed

lemma list_loop_endless_witness:
  "list_loop (serve ''{}'' (JObj [(''value'', JArr []), (''@odata.nextLink'', JStr ''u'')]))
     (\<lambda>n ctx. (True, n # ctx)) ''u'' [] fresh_client [] sample_conn (calm_world ()) = None"
proof -
  let ?X = "serve ''{}'' (JObj [(''value'', JArr []), (''@odata.nextLink'', JStr ''u'')])"
  let ?I = "\<lambda>url c (cn :: (json, unit) OneDriveConnect) (w :: unit world). url \<noteq> [] \<and> clean c cn w"
  have "\<exists>array' url' c' cn' w'. list_page ?X url array c cn w = Some ((Inr (array', Some url'), c'), cn', w')
      \<and> ?I url' c' cn' w'" if "?I url c cn w" for url array c cn w
    using served_page [of c cn w url "''{}''"
        "JObj [(''value'', JArr []), (''@odata.nextLink'', JStr ''u'')]" array] that
    by (auto simp: serve_def json_ext_def json_item_def IS_STRING_NODE_def is_string_def valuestring_of_def)
  moreover have "?I ''u'' fresh_client sample_conn (calm_world ())"
    by (simp add: clean_def fresh_client_def sample_conn_def sample_token_def)
  ultimately show ?thesis
    by (rule list_loop_endless [where linked = ?I])
qed


text \<open>A drive with one file of one entry: every request is answered with that entry, and every text
  parses as the description of the file.\<close>

definition one_file :: "bytes \<Rightarrow> (json, unit) ext" where
  "one_file content = serve content (JObj [(''size'', JNum (int (length content))), (DOWNLOAD_URL, JStr ''u'')])"

lemma one_file_sel [simp]:
  "cJSON_GetObjectItemCaseSensitive (one_file content) j k = json_item ((=) k) j"
  "cJSON_IsNumber (one_file content) j = (case j of JNum _ \<Rightarrow> True | _ \<Rightarrow> False)"
  "cJSON_IsString (one_file content) j = (case j of JStr _ \<Rightarrow> True | _ \<Rightarrow> False)"
  "j_valuelong (one_file content) j = (case j of JNum n \<Rightarrow> n | _ \<Rightarrow> 0)"
  "j_string (one_file content) j = Some ''key''"
  "j_valuestring (one_file content) j = (case j of JStr s \<Rightarrow> Some s | _ \<Rightarrow> None)"
  by (simp_all add: one_file_def serve_def json_ext_def)

lemma served_info:
  assumes "clean c cn w" "content \<noteq> []" "length content < 512" "length path < 900"
    and q: "q = ''size'' \<or> q = ''size,'' @ DOWNLOAD_URL"
  shows "\<exists>c' w'. od__get_file_info (one_file content) c path q cn w
      = Some ((Inr (JObj [(''size'', JNum (int (length content))), (DOWNLOAD_URL, JStr ''u'')]), c'), cn, w')
    \<and> clean c' cn w' \<and> w' = w\<lparr>tick := Suc (tick w)\<rparr>"
proof -
  let ?X = "one_file content" and ?j = "JObj [(''size'', JNum (int (length content))), (DOWNLOAD_URL, JStr ''u'')]"
  let ?w = "w\<lparr>tick := Suc (tick w)\<rparr>"
  have f: "faults w = []" "\<forall>t i. heap_junk w t i = NUL" "hc_body c = empty_body" "access_token (od_token cn) \<noteq> None"
    using assms(1) by (auto simp: clean_def)
  obtain rc0 c0 where c0: "http_client_set_url ?X c (APP_ROOT @ '':'' @ path) = Some (rc0, c0)" "hc_body c0 = empty_body"
    using f(3) by (auto simp: http_client_set_url_def curl_url_set_def)
  obtain rc1 c1 where c1: "http_client_set_query ?X c0 ''select'' q = Some (rc1, c1)" "hc_body c1 = empty_body"
    using c0(2) q by (auto simp: http_client_set_query_def curl_url_set_def)
  obtain c2 where c2: "authorization cn (snd (http_client_set_method ?X c1 HTTP_METHOD_GET), w) = Some (c2, w)"
    using authorization_ok [OF f(1,4)] by blast
  have e: "hc_body c2 = empty_body"
    using clean_preserved(3) [OF c2] c1(2) by (simp add: http_client_set_method_def setopt_def Let_def)
  obtain c3 b where c3: "authorized_request ?X (http_client_enable_response_body c2) cn w = Some (Inr 200, c3, cn, ?w)"
    and b: "hc_body c3 = b" "rb_used b \<noteq> 0" and p: "parse_block ?X (rb_data b) = Some (Some ?j)"
    using served_request [OF e f(1,2) assms(2,3)] unfolding one_file_def by blast
  have cl: "clean (c3\<lparr>hc_body := empty_body\<rparr>) cn ?w" using f by (simp add: clean_def)
  have u: "c_strcpy MAX_URL_LEN (APP_ROOT @ '':'' @ path) = Some (APP_ROOT @ '':'' @ path)"
    using assms(4) by (simp add: hive_const)
  show ?thesis
    by (intro exI [of _ "c3\<lparr>hc_body := empty_body\<rparr>"] exI [of _ ?w] conjI cl refl)
      (simp add: od__get_file_info_def u c0 c1 c2 c3 http_client_move_response_body_def b p HttpStatus_OK_def
         json_item_def is_number_def is_string_def valuestring_of_def DOWNLOAD_URL_def Let_def del: append.simps append_assoc)
qed

lemma served_download:
  assumes "length content \<le> room"
  shows "\<exists>c'. od__download_file (one_file content) c ''u'' room w = Some (0, content, c', w)"
proof -
  let ?X = "one_file content"
  obtain c1 where c1: "start_request ?X c ''u'' HTTP_METHOD_GET = Some c1"
    using start_request_ok [of "''u''" ?X c HTTP_METHOD_GET] by auto
  let ?d = "http_client_set_response_body (http_client_enable_response_body c1)
      download_file_response_body_callback \<lparr>sk_cap = room, sk_data = []\<rparr>"
  have wf: "write_fn_of (hc_opts ?d) = Caller_cb download_file_response_body_callback"
    "hc_sink ?d = \<lparr>sk_cap = room, sk_data = []\<rparr>"
    by (simp_all add: http_client_set_response_body_def prepare_request_def setopt_def write_fn_of_def Let_def
        split: option.splits)
  have p: "curl_perform ?X os us r = (\<lparr>t_code = 0, t_chunks = [content], t_status = 200, t_info = 0\<rparr>, r)" for os us r
    by (simp add: one_file_def serve_def json_ext_def)
  have r: "w\<lparr>remote := ()\<rparr> = w" by simp
  show ?thesis
    using assms
    by (simp add: od__download_file_def c1 http_client_request_def Let_def p wf write_cb_def r
        download_file_response_body_callback_def http_client_get_response_code_def resp_code_of_def HttpStatus_OK_def CURLE_OK_def)
qed

text \<open>A world in which the sample connection can work.\<close>

definition serene :: "unit world \<Rightarrow> bool" where
  "serene w \<longleftrightarrow> (\<forall>t. \<not> timer_gt (clock w t) (expires_at (od_token (sample_conn :: (json, unit) OneDriveConnect)))) \<and> faults w = []
     \<and> curl_initialized w \<and> (\<forall>t i. heap_junk w t i = NUL)"

lemma serene_start:
  fixes X :: "(json, unit) ext"
  assumes "serene w"
  defines "w1 \<equiv> w\<lparr>tick := Suc (tick w)\<rparr>"
  shows "od_check_expire X sample_conn w = Some (0, sample_conn, w1)"
    and "http_client_new X w1 = (Some fresh_client, w1\<lparr>live_http := live_http w1 + 1\<rparr>)"
    and "clean fresh_client sample_conn (w1\<lparr>live_http := live_http w1 + 1\<rparr>)"
  using assms ready_check [of sample_conn w X] new_ok [of w1 X]
  by (auto simp: serene_def ready_def clean_def fresh_client_def sample_conn_def sample_token_def)

lemma calm_serene: "serene (calm_world ())"
  by (simp add: serene_def timer_gt_def sample_conn_def sample_token_def)

lemma one_file_length:
  assumes "serene w" "content \<noteq> []" "length content < 512" "length path < 900"
  shows "\<exists>w'. od__get_file_length (one_file content) path sample_conn w = Some (int (length content), sample_conn, w')
    \<and> serene w' \<and> files w' = files w"
proof -
  let ?w = "w\<lparr>tick := Suc (tick w)\<rparr>"
  note s = serene_start [OF assms(1)]
  obtain c1 where i: "od__get_file_info (one_file content) fresh_client path ''size'' sample_conn (?w\<lparr>live_http := live_http ?w + 1\<rparr>)
      = Some ((Inr (JObj [(''size'', JNum (int (length content))), (DOWNLOAD_URL, JStr ''u'')]), c1), sample_conn,
          ?w\<lparr>live_http := live_http ?w + 1, tick := tick ?w + 1\<rparr>)"
    using served_info [OF s(3) assms(2-4)] by auto
  show ?thesis
    using s i assms(1)
    by (simp add: od__get_file_length_def size_of_def json_item_def http_client_close_def serene_def)
qed

lemma one_file_download:
  assumes "serene w" "content \<noteq> []" "length content < 512" "length path < 900"
    and "length content \<le> buflen" "buflen \<le> room"
  shows "\<exists>w'. od__get_file_to_buffer (one_file content) path room buflen sample_conn w
      = Some ((int (length content), content), sample_conn, w') \<and> serene w' \<and> files w' = files w"
proof -
  let ?w = "w\<lparr>tick := Suc (tick w)\<rparr>" and ?X = "one_file content"
  let ?j = "JObj [(''size'', JNum (int (length content))), (DOWNLOAD_URL, JStr ''u'')]"
  let ?v = "?w\<lparr>live_http := live_http ?w + 1, tick := tick ?w + 1\<rparr>"
  note s = serene_start [OF assms(1)]
  obtain c1 where i: "od__get_file_info ?X fresh_client path (''size,'' @ DOWNLOAD_URL) sample_conn
      (?w\<lparr>live_http := live_http ?w + 1\<rparr>) = Some ((Inr ?j, c1), sample_conn, ?v)"
    using served_info [OF s(3) assms(2-4)] by auto
  obtain c2 where d: "od__download_file ?X (http_client_reset c1) ''u'' room ?v = Some (0, content, c2, ?v)"
    using served_download [of content room "http_client_reset c1" ?v] assms(5,6) by auto
  have v: "size_of ?X ?j = Some (int (length content))"
    "valuestring_of ?X (cJSON_GetObjectItemCaseSensitive ?X ?j DOWNLOAD_URL) = Some ''u''"
    by (simp_all add: json_item_def size_of_def valuestring_of_def DOWNLOAD_URL_def)
  have "od__get_file_to_buffer ?X path room buflen sample_conn w
      = Some ((int (length content), content), sample_conn, http_client_close ?v)"
    unfolding od__get_file_to_buffer_def using assms(2,5) s(1,2) [of ?X] i d v
    by (simp del: append.simps append_assoc one_file_sel)
  then show ?thesis using assms(1) by (simp add: serene_def http_client_close_def)
qed

lemma put_value_appends_witness:
  "\<exists>cn2 w2. od_put_value (one_file (kv_entry ''a'')) ''k'' ''bc'' False sample_conn (calm_world ())
     = od__put_file_from_buffer (one_file (kv_entry ''a'')) (concat (map kv_entry [''a'', ''bc''])) (key_path ''k'') cn2 w2"
proof -
  let ?X = "one_file (kv_entry ''a'')"
  have e: "kv_entry ''a'' \<noteq> []" "length (kv_entry ''a'') = 5" by (auto simp: kv_entry_def)
  have k: "length (key_path ''k'') < 900" by (simp add: key_path_def KEYS_DIR_def c_snprintf_def hive_const)
  obtain w1 where l: "od__get_file_length ?X (key_path ''k'') sample_conn (calm_world ())
      = Some (int (length (kv_entry ''a'')), sample_conn, w1)" "serene w1"
    using one_file_length [OF calm_serene e(1) _ k] e(2) by auto
  obtain w2 where g: "od__get_file_to_buffer ?X (key_path ''k'') (length (kv_entry ''a'') + 4 + length ''bc'') (length (kv_entry ''a''))
        sample_conn w1 = Some ((int (length (kv_entry ''a'')), kv_entry ''a''), sample_conn, w2)"
    using one_file_download [OF l(2) e(1) _ k le_refl, of "length (kv_entry ''a'') + 4 + length ''bc''"] e(2) by auto
  have "od_put_value ?X ''k'' ''bc'' False sample_conn (calm_world ()) = od__put_file_from_buffer ?X
      (concat (map kv_entry ([''a''] @ [''bc'']))) (key_path ''k'') sample_conn w2"
    by (rule put_value_appends [OF l(1) _ _ _ g]) (use l(2) e in \<open>simp_all add: serene_def\<close>)
  then show ?thesis by (intro exI) simp
qed

end
