(* ===== verification/Hive_Ipfs_Rpc.thy ===== *)
theory Hive_Ipfs_Rpc
  imports Hive_Json
begin

text \<open>
  The choice of an IPFS node (\<open>src/src/vendors/ipfs/ipfs_rpc.c\<close>): the configured nodes are tried
  from a random one on, round the list once, IPv4 address before IPv6 address, and the first
  that answers is remembered until an operation marks it unreachable.

  The array \<open>rpc_nodes\<close> with its count is a list, a port a \<open>16 word\<close>.  The loop is
  parameterised over the test of one address, so that what it computes can be stated for
  any such test; the code's test is \<open>test_reachable X\<close>.
\<close>

definition MAXPATHLEN :: nat where [hive_const]: "MAXPATHLEN = 4096"
definition HIVE_MAX_IPV4_ADDRESS_LEN :: nat where [hive_const]: "HIVE_MAX_IPV4_ADDRESS_LEN = 15"
definition HIVE_MAX_IPV6_ADDRESS_LEN :: nat where [hive_const]: "HIVE_MAX_IPV6_ADDRESS_LEN = 47"

record rpc_node =
  node_ipv4 :: string
  node_ipv6 :: string
  node_port :: "16 word"

record ipfs_rpc =
  current_node_ip :: string
  current_node_port :: "16 word"
  rpc_nodes :: "rpc_node list"

section \<open>Testing one address\<close>

definition node_url :: "string \<Rightarrow> 16 word \<Rightarrow> string \<Rightarrow> string" where
  "node_url ip port path = ''http://'' @ ip @ '':'' @ show_nat (unat port) @ path"

definition test_reachable :: "('j, 'r) ext \<Rightarrow> string \<Rightarrow> 16 word \<Rightarrow> 'r world \<Rightarrow> (int \<times> 'r world) option" where
  "test_reachable X ipaddr port w =
     (let (n, url) = c_snprintf (MAXPATHLEN + 1) (node_url ipaddr port ''/version'') in
      if n < 0 \<or> int (MAXPATHLEN + 1) \<le> n
      then Some (int_of_error (HIVE_GENERAL_ERROR HIVEERR_BUFFER_TOO_SMALL), w)
      else (case http_client_new X w of
        (None, w1) \<Rightarrow> Some (int_of_error (HIVE_GENERAL_ERROR HIVEERR_OUT_OF_MEMORY), w1)
      | (Some c, w1) \<Rightarrow> do {
          (_, c1) \<leftarrow> http_client_set_url X c url;
          let (_, c2) = http_client_set_method X c1 HTTP_METHOD_POST;
          (_, c3) \<leftarrow> http_client_set_timeout X (http_client_set_request_body_instant c2 None 0) 5;
          (rc, c4, w2) \<leftarrow> http_client_request X c3 w1;
          if rc \<noteq> 0 then Some (int_of_error (HIVE_CURL_ERROR rc), http_client_close w2)
          else (case http_client_get_response_code c4 of (rc, resp) \<Rightarrow>
            let w3 = http_client_close w2 in
            if rc \<noteq> 0 then Some (int_of_error (HIVE_CURL_ERROR rc), w3)
            else if resp_code_of resp \<noteq> HttpStatus_OK
            then Some (int_of_error (HIVE_HTTP_STATUS_ERROR (resp_code_of resp)), w3)
            else Some (0, w3))
        }))"

section \<open>Choosing a node\<close>

definition try_address ::
  "(string \<Rightarrow> 16 word \<Rightarrow> 'w \<Rightarrow> (int \<times> 'w) option) \<Rightarrow> string \<Rightarrow> 16 word \<Rightarrow> 'w
     \<Rightarrow> ((string \<times> 16 word) option \<times> 'w) option" where
  "try_address probe ip port w =
     (if ip = [] then Some (None, w)
      else do {
        (rc, w1) \<leftarrow> probe ip port w;
        Some (if rc = 0 then Some (ip, port) else None, w1)
      })"

definition try_node ::
  "(string \<Rightarrow> 16 word \<Rightarrow> 'w \<Rightarrow> (int \<times> 'w) option) \<Rightarrow> rpc_node \<Rightarrow> 'w
     \<Rightarrow> ((string \<times> 16 word) option \<times> 'w) option" where
  "try_node probe node w = do {
     (r, w1) \<leftarrow> try_address probe (node_ipv4 node) (node_port node) w;
     if r \<noteq> None then Some (r, w1)
     else try_address probe (node_ipv6 node) (node_port node) w1
   }"

text \<open>An index outside the array has no defined result; a start outside it would never be met again.\<close>

function select_loop ::
  "(string \<Rightarrow> 16 word \<Rightarrow> 'w \<Rightarrow> (int \<times> 'w) option) \<Rightarrow> rpc_node list \<Rightarrow> nat \<Rightarrow> nat \<Rightarrow> 'w
     \<Rightarrow> ((string \<times> 16 word) option \<times> 'w) option" where
  "select_loop probe nodes base i w =
     (if length nodes \<le> i \<or> length nodes \<le> base then None
      else (case try_node probe (nodes ! i) w of
        None \<Rightarrow> None
      | Some (Some sel, w1) \<Rightarrow> Some (Some sel, w1)
      | Some (None, w1) \<Rightarrow>
          (let i' = (i + 1) mod length nodes in
           if i' = base then Some (None, w1) else select_loop probe nodes base i' w1)))"
  by pat_completeness auto

termination
  by (relation "measure (\<lambda>(probe, nodes, base, i, w). if base \<le> i then length nodes - i + base else base - i)")
    (auto simp: mod_Suc)

declare select_loop.simps [simp del]

text \<open>\<open>strcpy\<close> into \<open>selected_ip\<close>, which holds \<open>HIVE_MAX_IPV6_ADDRESS_LEN + 1\<close> bytes.\<close>

definition select_bootstrap ::
  "('j, 'r) ext \<Rightarrow> rpc_node list \<Rightarrow> 'r world \<Rightarrow> ((int \<times> (string \<times> 16 word) option) \<times> 'r world) option" where
  "select_bootstrap X nodes w =
     (if nodes = [] then None
      else (let (r, w1) = c_rand w; base = r mod length nodes in do {
        (sel, w2) \<leftarrow> select_loop (test_reachable X) nodes base base w1;
        case sel of
          None \<Rightarrow> Some ((int_of_error (HIVE_GENERAL_ERROR HIVEERR_BAD_BOOTSTRAP_HOST), None), w2)
        | Some (ip, port) \<Rightarrow> do {
            selected_ip \<leftarrow> c_strcpy (HIVE_MAX_IPV6_ADDRESS_LEN + 1) ip;
            Some ((0, Some (selected_ip, port)), w2)
          }
      }))"

definition ipfs_rpc_check_reachable ::
  "('j, 'r) ext \<Rightarrow> ipfs_rpc \<Rightarrow> 'r world \<Rightarrow> (int \<times> ipfs_rpc \<times> 'r world) option" where
  "ipfs_rpc_check_reachable X rpc w =
     (if current_node_ip rpc \<noteq> [] then Some (0, rpc, w)
      else do {
        ((rc, sel), w1) \<leftarrow> select_bootstrap X (rpc_nodes rpc) w;
        Some (rc, (case sel of None \<Rightarrow> rpc
                   | Some (ip, port) \<Rightarrow> rpc\<lparr>current_node_ip := ip, current_node_port := port\<rparr>), w1)
      })"

definition ipfs_rpc_mark_node_unreachable :: "ipfs_rpc \<Rightarrow> ipfs_rpc" where
  "ipfs_rpc_mark_node_unreachable rpc = rpc\<lparr>current_node_ip := []\<rparr>"

definition ipfs_rpc_get_current_node_ip :: "ipfs_rpc \<Rightarrow> string" where
  "ipfs_rpc_get_current_node_ip rpc = current_node_ip rpc"

definition ipfs_rpc_get_current_node_port :: "ipfs_rpc \<Rightarrow> 16 word" where
  "ipfs_rpc_get_current_node_port rpc = current_node_port rpc"

definition ipfs_rpc_new :: "('j, 'r) ext \<Rightarrow> rpc_node list \<Rightarrow> 'r world \<Rightarrow> (ipfs_rpc option \<times> 'r world) option" where
  "ipfs_rpc_new X nodes w =
     (let (ok, w1) = c_alloc w in
      if \<not> ok then Some (None, hive_set_error (int_of_error (HIVE_GENERAL_ERROR HIVEERR_OUT_OF_MEMORY)) w1)
      else do {
        ((rc, sel), w2) \<leftarrow> select_bootstrap X nodes w1;
        if rc < 0 then Some (None, hive_set_error rc w2)
        else (let (ip, port) = (case sel of None \<Rightarrow> ([], 0) | Some s \<Rightarrow> s) in
          Some (Some \<lparr>current_node_ip = ip, current_node_port = port, rpc_nodes = nodes\<rparr>, w2))
      })"

section \<open>The loop is a scan of the rotated list\<close>

fun scan ::
  "(string \<Rightarrow> 16 word \<Rightarrow> 'w \<Rightarrow> (int \<times> 'w) option) \<Rightarrow> rpc_node list \<Rightarrow> 'w
     \<Rightarrow> ((string \<times> 16 word) option \<times> 'w) option" where
  "scan probe [] w = Some (None, w)"
| "scan probe (node # nodes) w =
     (case try_node probe node w of
        None \<Rightarrow> None
      | Some (Some sel, w1) \<Rightarrow> Some (Some sel, w1)
      | Some (None, w1) \<Rightarrow> scan probe nodes w1)"

text \<open>The indices still to visit.\<close>

definition ahead :: "nat \<Rightarrow> nat \<Rightarrow> nat \<Rightarrow> nat list" where
  "ahead n base i = (if base \<le> i then [i..<n] @ [0..<base] else [i..<base])"

lemma ahead_step:
  assumes "i < n" "base < n"
  shows "ahead n base i = i # (if (i + 1) mod n = base then [] else ahead n base ((i + 1) mod n))"
proof (cases "i + 1 = n")
  case True
  then show ?thesis using assms by (auto simp: ahead_def upt_conv_Cons)
next
  case False
  then show ?thesis using assms by (auto simp: ahead_def upt_conv_Cons)
qed

lemma select_loop_scan:
  assumes "i < length nodes" "base < length nodes"
  shows "select_loop probe nodes base i w = scan probe (map ((!) nodes) (ahead (length nodes) base i)) w"
  using assms
proof (induction probe nodes base i w rule: select_loop.induct)
  case (1 probe nodes base i w)
  let ?i = "(i + 1) mod length nodes"
  have lt: "?i < length nodes" using "1.prems" by (auto intro: mod_less_divisor)
  note step = ahead_step [OF "1.prems"]
  have IH: "select_loop probe nodes base ?i w1 = scan probe (map ((!) nodes) (ahead (length nodes) base ?i)) w1"
    if "try_node probe (nodes ! i) w = Some (None, w1)" "?i \<noteq> base" for w1
    using "1.IH" [OF _ that(1) refl refl refl that(2)] "1.prems" lt by auto
  show ?case
    using "1.prems" IH
    by (subst select_loop.simps, subst step) (auto simp: Let_def split: option.splits)
qed

lemma ahead_rotate: "base < length nodes \<Longrightarrow> map ((!) nodes) (ahead (length nodes) base base) = rotate base nodes"
  by (simp add: ahead_def rotate_drop_take) (auto intro!: nth_equalityI)

section \<open>The first node that answers\<close>

definition node_reached :: "(string \<Rightarrow> 16 word \<Rightarrow> bool) \<Rightarrow> rpc_node \<Rightarrow> (string \<times> 16 word) option" where
  "node_reached reach node =
     (if node_ipv4 node \<noteq> [] \<and> reach (node_ipv4 node) (node_port node) then Some (node_ipv4 node, node_port node)
      else if node_ipv6 node \<noteq> [] \<and> reach (node_ipv6 node) (node_port node) then Some (node_ipv6 node, node_port node)
      else None)"

definition first_reached :: "(string \<Rightarrow> 16 word \<Rightarrow> bool) \<Rightarrow> rpc_node list \<Rightarrow> (string \<times> 16 word) option" where
  "first_reached reach nodes =
     (case List.map_filter (node_reached reach) nodes of [] \<Rightarrow> None | s # _ \<Rightarrow> Some s)"

lemma first_reached_simps [simp]:
  "first_reached reach [] = None"
  "first_reached reach (node # nodes) =
     (case node_reached reach node of None \<Rightarrow> first_reached reach nodes | Some s \<Rightarrow> Some s)"
  by (simp_all add: first_reached_def map_filter_simps split: option.splits)

text \<open>A test of addresses whose answer depends on the address alone.\<close>

locale reachability =
  fixes probe :: "string \<Rightarrow> 16 word \<Rightarrow> 'w \<Rightarrow> (int \<times> 'w) option"
    and reach :: "string \<Rightarrow> 16 word \<Rightarrow> bool"
    and usable :: "'w \<Rightarrow> bool"
  assumes answers: "usable w \<Longrightarrow> \<exists>rc w'. probe ip port w = Some (rc, w') \<and> usable w' \<and> (rc = 0 \<longleftrightarrow> reach ip port)"
begin

lemma address_answer:
  assumes "usable w"
  shows "\<exists>w'. try_address probe ip port w = Some (if ip \<noteq> [] \<and> reach ip port then Some (ip, port) else None, w')
    \<and> usable w'"
  using answers [OF assms, of ip port] assms by (auto simp: try_address_def)

lemma node_answer:
  assumes "usable w"
  shows "\<exists>w'. try_node probe node w = Some (node_reached reach node, w') \<and> usable w'"
proof -
  obtain w1 where "try_address probe (node_ipv4 node) (node_port node) w
      = Some (if node_ipv4 node \<noteq> [] \<and> reach (node_ipv4 node) (node_port node)
              then Some (node_ipv4 node, node_port node) else None, w1)" "usable w1"
    using address_answer [OF assms] by blast
  with address_answer [of w1 "node_ipv6 node" "node_port node"] show ?thesis
    by (auto simp: try_node_def node_reached_def)
qed

lemma scan_answer: "usable w \<Longrightarrow> \<exists>w'. scan probe nodes w = Some (first_reached reach nodes, w') \<and> usable w'"
proof (induction nodes arbitrary: w)
  case (Cons node nodes)
  obtain w1 where "try_node probe node w = Some (node_reached reach node, w1)" "usable w1"
    using node_answer [OF Cons.prems] by blast
  with Cons.IH [of w1] show ?case by (auto split: option.splits)
qed simp

lemma loop_answer:
  assumes "usable w" "base < length nodes"
  shows "\<exists>w'. select_loop probe nodes base base w = Some (first_reached reach (rotate base nodes), w') \<and> usable w'"
  using scan_answer [OF assms(1), of "rotate base nodes"]
  by (simp add: select_loop_scan [OF assms(2,2)] ahead_rotate [OF assms(2)])

end

text \<open>The servers of an environment in which a node is up or down; the code's test of an address.\<close>

definition url_of :: "url_op list \<Rightarrow> string" where
  "url_of us = (case us of Url_set CURLUPART_URL (Some u) _ _ # _ \<Rightarrow> u | _ \<Rightarrow> [])"

definition node_server :: "(string \<Rightarrow> bool) \<Rightarrow> (json, 'r) ext" where
  "node_server up = json_ext (\<lambda>os us r.
     (\<lparr>t_code = (if up (url_of us) then 0 else CURLE_COULDNT_CONNECT), t_chunks = [], t_status = 200, t_info = 0\<rparr>, r))
     (\<lambda>_. None) (\<lambda>_. None)"

definition network_up :: "'r world \<Rightarrow> bool" where
  "network_up w \<longleftrightarrow> faults w = [] \<and> curl_initialized w"

lemma node_server_sel [simp]:
  "curl_perform (node_server up) os us r = (\<lparr>t_code = (if up (url_of us) then 0 else CURLE_COULDNT_CONNECT),
     t_chunks = [], t_status = 200, t_info = 0\<rparr>, r)"
  by (simp add: node_server_def json_ext_def)

lemma length_node_url: "length (node_url ip port path) \<le> 13 + length ip + length path"
proof -
  have "unat port < 2 ^ 16" using unsigned_less [of port] by simp
  then have "unat port < 10 ^ 5" by simp
  then have "length (show_nat (unat port)) \<le> 5" by (rule show_nat_length) simp
  then show ?thesis by (simp add: node_url_def)
qed

interpretation served: reachability "test_reachable (node_server up)"
  "\<lambda>ip port. length (node_url ip port ''/version'') \<le> MAXPATHLEN \<and> up (node_url ip port ''/version'')" network_up for up
proof unfold_locales
  fix w :: "'r world" and ip and port :: "16 word"
  let ?url = "node_url ip port ''/version''" and ?X = "node_server up :: (json, 'r) ext"
  assume w: "network_up w"
  then have new: "http_client_new ?X w = (Some fresh_client, w\<lparr>live_http := live_http w + 1\<rparr>)"
    by (cases w) (simp add: network_up_def http_client_new_def c_alloc_def take_fault_def)
  have url: "?url \<noteq> []" by (simp add: node_url_def)
  show "\<exists>rc w'. test_reachable ?X ip port w = Some (rc, w') \<and> network_up w'
      \<and> (rc = 0 \<longleftrightarrow> length ?url \<le> MAXPATHLEN \<and> up ?url)"
  proof (cases "length ?url \<le> MAXPATHLEN")
    case False
    then show ?thesis using w by (auto simp: test_reachable_def c_snprintf_def Let_def)
  next
    case True
    then show ?thesis
      using w url
      by (auto simp: test_reachable_def c_snprintf_def Let_def new http_client_set_url_def curl_url_set_def fresh_client_def
          http_client_set_method_def http_client_set_timeout_def http_client_set_request_body_instant_def setopt_def
          http_client_request_def prepare_request_def http_client_get_response_code_def resp_code_of_def url_of_def
          network_up_def http_client_close_def hive_const)
  qed
qed

lemma select_first_answer:
  assumes "\<And>ip port w. usable w \<Longrightarrow>
      \<exists>rc w'. test_reachable X ip port w = Some (rc, w') \<and> usable w' \<and> (rc = 0 \<longleftrightarrow> reach ip port)"
    and "\<And>w. usable w \<Longrightarrow> usable (snd (c_rand w))" and "usable w"
    and "nodes \<noteq> []" and "\<forall>n \<in> set nodes. length (node_ipv4 n) \<le> 47 \<and> length (node_ipv6 n) \<le> 47"
  shows "\<exists>w'. usable w' \<and> select_bootstrap X nodes w =
     Some ((case first_reached reach (rotate (fst (c_rand w)) nodes) of
              None \<Rightarrow> (int_of_error (HIVE_GENERAL_ERROR HIVEERR_BAD_BOOTSTRAP_HOST), None)
            | Some sel \<Rightarrow> (0, Some sel)), w')"
proof -
  let ?base = "fst (c_rand w) mod length nodes"
  have b: "?base < length nodes" using assms(4) by simp
  have R: "reachability (test_reachable X) reach usable"
    by (rule reachability.intro) (rule assms(1))
  have short: "length (fst s) \<le> 47" if "first_reached reach ns = Some s" "set ns \<subseteq> set nodes" for ns s
    using that assms(5) by (induction ns) (auto simp: node_reached_def split: if_splits option.splits)
  obtain w' where "select_loop (test_reachable X) nodes ?base ?base (snd (c_rand w))
      = Some (first_reached reach (rotate ?base nodes), w')" "usable w'"
    using reachability.loop_answer [OF R assms(2) [OF assms(3)] b] by blast
  then show ?thesis
    using assms(4) short [of "rotate ?base nodes"]
    by (auto simp: select_bootstrap_def Let_def HIVE_MAX_IPV6_ADDRESS_LEN_def rotate_conv_mod [of "fst (c_rand w)"]
        split: prod.splits option.splits)
qed

lemma select_served:
  assumes "network_up w" "nodes \<noteq> []" "\<forall>n \<in> set nodes. length (node_ipv4 n) \<le> 47 \<and> length (node_ipv6 n) \<le> 47"
  shows "\<exists>w'. network_up w' \<and> select_bootstrap (node_server up) nodes w =
     Some ((case first_reached (\<lambda>ip port. length (node_url ip port ''/version'') \<le> MAXPATHLEN
                \<and> up (node_url ip port ''/version'')) (rotate (fst (c_rand w)) nodes) of
              None \<Rightarrow> (int_of_error (HIVE_GENERAL_ERROR HIVEERR_BAD_BOOTSTRAP_HOST), None)
            | Some sel \<Rightarrow> (0, Some sel)), w')"
proof (rule select_first_answer)
  show "\<exists>rc w'. test_reachable (node_server up) ip port w = Some (rc, w') \<and> network_up w'
      \<and> (rc = 0 \<longleftrightarrow> length (node_url ip port ''/version'') \<le> MAXPATHLEN \<and> up (node_url ip port ''/version''))"
    if "network_up w" for ip port and w :: "'a world" using served.answers [OF that] .
qed (use assms in \<open>simp_all add: network_up_def c_rand_def\<close>)

text \<open>C28: The choice of a node tries the nodes in a ring from a random start, the IPv4 address of a
  node before its IPv6 address, and takes the first one that answers; when none does, it fails with
  \<open>HIVEERR_BAD_BOOTSTRAP_HOST\<close>. It always returns.\<close>

theorem select_first_reachable:
  assumes "\<And>ip port w. usable w \<Longrightarrow>
      \<exists>rc w'. test_reachable X ip port w = Some (rc, w') \<and> usable w' \<and> (rc = 0 \<longleftrightarrow> reach ip port)"
    and "\<And>w. usable w \<Longrightarrow> usable (snd (c_rand w))" and "usable w"
    and "nodes \<noteq> []" and "\<forall>n \<in> set nodes. length (node_ipv4 n) \<le> 47 \<and> length (node_ipv6 n) \<le> 47"
  shows "\<exists>w'. usable w' \<and> select_bootstrap X nodes w =
     Some ((case first_reached reach (rotate (fst (c_rand w)) nodes) of
              None \<Rightarrow> (int_of_error (HIVE_GENERAL_ERROR HIVEERR_BAD_BOOTSTRAP_HOST), None)
            | Some sel \<Rightarrow> (0, Some sel)), w')"
  using assms by (rule select_first_answer)

definition sample_nodes :: "rpc_node list" where
  "sample_nodes = [\<lparr>node_ipv4 = ''10.0.0.1'', node_ipv6 = [], node_port = 80\<rparr>,
     \<lparr>node_ipv4 = ''10.0.0.2'', node_ipv6 = ''fe80::2'', node_port = 8080\<rparr>]"

lemma select_first_reachable_witness:
  "\<exists>w'. network_up w' \<and> select_bootstrap (node_server (\<lambda>u. u = ''http://10.0.0.2:8080/version'')) sample_nodes
     (calm_world ()) = Some ((0, Some (''10.0.0.2'', 8080)), w')"
proof -
  let ?up = "\<lambda>u. u = ''http://10.0.0.2:8080/version''"
  let ?reach = "\<lambda>ip port. length (node_url ip port ''/version'') \<le> MAXPATHLEN \<and> ?up (node_url ip port ''/version'')"
  have "show_nat 8080 = ''8080''" "show_nat 80 = ''80''"
    by (simp_all add: show_nat.simps digit_char_def char_of_eq_iff)
  then have "first_reached ?reach sample_nodes = Some (''10.0.0.2'', 8080)"
    by (simp add: sample_nodes_def node_reached_def node_url_def hive_const)
  moreover have "\<exists>w'. network_up w' \<and> select_bootstrap (node_server ?up) sample_nodes (calm_world ()) =
     Some ((case first_reached ?reach (rotate (fst (c_rand (calm_world ()))) sample_nodes) of
              None \<Rightarrow> (int_of_error (HIVE_GENERAL_ERROR HIVEERR_BAD_BOOTSTRAP_HOST), None)
            | Some sel \<Rightarrow> (0, Some sel)), w')"
  proof (rule select_first_reachable [where usable = network_up and reach = ?reach])
    show "\<exists>rc w'. test_reachable (node_server ?up) ip port w = Some (rc, w') \<and> network_up w' \<and> (rc = 0 \<longleftrightarrow> ?reach ip port)"
      if "network_up w" for ip port and w :: "unit world" using served.answers [OF that] .
  qed (simp_all add: network_up_def c_rand_def calm_world_def sample_nodes_def)
  moreover have "fst (c_rand (calm_world ())) = 0" by (simp add: c_rand_def calm_world_def)
  ultimately show ?thesis by simp
qed

section \<open>What the choice leaves alone\<close>

definition addresses :: "rpc_node list \<Rightarrow> (string \<times> 16 word) set" where
  "addresses nodes = {(ip, node_port n) | ip n. n \<in> set nodes \<and> ip \<noteq> [] \<and> (ip = node_ipv4 n \<or> ip = node_ipv6 n)}"

lemma c_rand_held: "c_rand w = (r, w1) \<Longrightarrow> held w1 = held w"
  by (auto simp: c_rand_def)

lemma test_reachable_post: "post (test_reachable X ip port w) (\<lambda>(rc, w'). held w' = held w \<and> rc \<le> 0)"
  unfolding test_reachable_def
  by (intro hive_post | (rule post_call, rule request_post) | rule postI
      | ((auto dest!: live_http_new intro: less_imp_le)[1]; fail))+

lemma try_address_post:
  "post (try_address (test_reachable X) ip port w)
     (\<lambda>(sel, w'). held w' = held w \<and> (\<forall>s. sel = Some s \<longrightarrow> ip \<noteq> [] \<and> s = (ip, port)))"
  unfolding try_address_def
  by (intro hive_post | (rule post_call, rule test_reachable_post) | ((auto)[1]; fail))+

lemma try_node_post:
  "post (try_node (test_reachable X) node w)
     (\<lambda>(sel, w'). held w' = held w \<and> (\<forall>s. sel = Some s \<longrightarrow> s \<in> addresses [node]))"
  unfolding try_node_def
  by (intro hive_post | (rule post_call, rule try_address_post) | ((auto simp: addresses_def)[1]; fail))+

lemma scan_post:
  "post (scan (test_reachable X) nodes w)
     (\<lambda>(sel, w'). held w' = held w \<and> (\<forall>s. sel = Some s \<longrightarrow> s \<in> addresses nodes))"
proof (induction nodes arbitrary: w)
  case (Cons node nodes)
  have sub: "addresses [node] \<subseteq> addresses (node # nodes)" "addresses nodes \<subseteq> addresses (node # nodes)"
    by (auto simp: addresses_def)
  show ?case
  proof (cases "try_node (test_reachable X) node w")
    case (Some r)
    with postD [OF try_node_post Some] postD [OF Cons.IH [of "snd r"]] sub show ?thesis
      by (cases r) (auto simp: post_def split: option.splits)
  qed (simp add: post_def)
qed (simp add: post_def)

lemma select_loop_post:
  "post (select_loop (test_reachable X) nodes base i w)
     (\<lambda>(sel, w'). held w' = held w \<and> (\<forall>s. sel = Some s \<longrightarrow> s \<in> addresses nodes))"
proof (cases "i < length nodes \<and> base < length nodes")
  case True
  let ?ns = "map ((!) nodes) (ahead (length nodes) base i)"
  have "set ?ns \<subseteq> set nodes" using True by (auto simp: ahead_def)
  then have "addresses ?ns \<subseteq> addresses nodes" by (auto simp: addresses_def)
  then have "post (scan (test_reachable X) ?ns w)
      (\<lambda>(sel, w'). held w' = held w \<and> (\<forall>s. sel = Some s \<longrightarrow> s \<in> addresses nodes))"
    by (intro post_call [OF scan_post]) auto
  with True show ?thesis by (simp add: select_loop_scan)
qed (subst select_loop.simps, auto simp: post_def)

lemma select_bootstrap_post:
  "post (select_bootstrap X nodes w) (\<lambda>((rc, sel), w'). held w' = held w \<and>
     (rc < 0 \<and> sel = None \<or> rc = 0 \<and> (\<exists>s \<in> addresses nodes. sel = Some s \<and> length (fst s) \<le> 47)))"
  unfolding select_bootstrap_def
  by (intro hive_post | (rule post_call, rule select_loop_post) | rule postI
      | ((auto simp: HIVE_MAX_IPV6_ADDRESS_LEN_def dest!: c_rand_held)[1]; fail))+

text \<open>The current node is none or one of the configured addresses.\<close>

definition rpc_ok :: "ipfs_rpc \<Rightarrow> bool" where
  "rpc_ok rpc \<longleftrightarrow> current_node_ip rpc = []
     \<or> (current_node_ip rpc, current_node_port rpc) \<in> addresses (rpc_nodes rpc) \<and> length (current_node_ip rpc) \<le> 47"

lemma check_reachable_post:
  "rpc_ok rpc \<Longrightarrow> post (ipfs_rpc_check_reachable X rpc w) (\<lambda>(rc, rpc', w'). held w' = held w \<and> rpc_ok rpc'
     \<and> rpc_nodes rpc' = rpc_nodes rpc \<and> (rc < 0 \<and> rpc' = rpc \<or> rc = 0 \<and> current_node_ip rpc' \<noteq> []))"
  unfolding ipfs_rpc_check_reachable_def
  by (intro hive_post | (rule post_call, rule select_bootstrap_post) | rule postI
      | ((auto simp: rpc_ok_def addresses_def)[1]; fail))+

lemma mark_unreachable_ok: "rpc_ok (ipfs_rpc_mark_node_unreachable rpc)"
  "rpc_nodes (ipfs_rpc_mark_node_unreachable rpc) = rpc_nodes rpc"
  by (simp_all add: rpc_ok_def ipfs_rpc_mark_node_unreachable_def)

lemma rpc_new_post:
  "post (ipfs_rpc_new X nodes w) (\<lambda>(rpc, w'). held w' = held w \<and>
     (\<forall>r. rpc = Some r \<longrightarrow> rpc_ok r \<and> rpc_nodes r = nodes \<and> current_node_ip r \<noteq> []))"
  unfolding ipfs_rpc_new_def
  by (intro hive_post | (rule post_call, rule select_bootstrap_post) | rule postI
      | ((auto simp: rpc_ok_def addresses_def dest!: c_alloc_held)[1]; fail))+

end
