(* ===== verification/Hive_Ipfs.thy ===== *)
theory Hive_Ipfs
  imports Hive_Ipfs_Rpc
begin

text \<open>
  The IPFS backend (\<open>src/src/vendors/ipfs/ipfs.c\<close>): the three methods of the connection, each of
  which first makes sure that a node is chosen, and the connect call with its check of the
  options.

  A method returns the C result, the connection and the world.  A \<open>IPFSCid\<close> is its string
  \<open>content\<close>; \<open>put\<close> returns the one it stored.  \<open>inet_pton\<close> is an argument of the connect call
  (\<open>False\<close> stands for \<open>AF_INET\<close>, \<open>True\<close> for \<open>AF_INET6\<close>).
\<close>

definition HIVE_MAX_IPFS_CID_LEN :: nat where [hive_const]: "HIVE_MAX_IPFS_CID_LEN = 64"

record IPFSConnect =
  ic_rpc :: ipfs_rpc

type_synonym ('r, 'a) ipfs_op = "IPFSConnect \<Rightarrow> 'r world \<Rightarrow> ('a \<times> IPFSConnect \<times> 'r world) option"

section \<open>Requests to the node\<close>

definition RC_NODE_UNREACHABLE :: "int \<Rightarrow> bool" where
  "RC_NODE_UNREACHABLE rc \<longleftrightarrow>
     rc = CURLE_COULDNT_CONNECT \<or> rc = CURLE_REMOTE_ACCESS_DENIED \<or> rc = CURLE_OPERATION_TIMEDOUT"

text \<open>Perform the request; \<open>Some e\<close> is the error of a request that failed.\<close>

definition node_request ::
  "('j, 'r) ext \<Rightarrow> http_client \<Rightarrow> ('r, int option \<times> http_client) ipfs_op" where
  "node_request X c cn w = do {
     (rc, c1, w1) \<leftarrow> http_client_request X c w;
     Some (if rc = 0 then ((None, c1), cn, w1)
           else if RC_NODE_UNREACHABLE rc
           then ((Some (int_of_error (HIVE_GENERAL_ERROR HIVEERR_TRY_AGAIN)), c1),
                 cn\<lparr>ic_rpc := ipfs_rpc_mark_node_unreachable (ic_rpc cn)\<rparr>, w1)
           else ((Some (int_of_error (HIVE_CURL_ERROR rc)), c1), cn, w1))
   }"

text \<open>The error number when the response code cannot be had or is not 200.\<close>

definition reply_error :: "http_client \<Rightarrow> u32 option" where
  "reply_error c = (case http_client_get_response_code c of (rc, resp) \<Rightarrow>
     if rc \<noteq> 0 then Some (HIVE_CURL_ERROR rc)
     else if resp_code_of resp \<noteq> HttpStatus_OK then Some (HIVE_HTTP_STATUS_ERROR (resp_code_of resp))
     else None)"

text \<open>The body of the answer, parsed; \<open>Some None\<close> is a missing body or one that does not parse.\<close>

definition reply_json :: "('j, 'r) ext \<Rightarrow> http_client \<Rightarrow> 'j option option" where
  "reply_json X c = do {
     (p, _, _) \<leftarrow> http_client_move_response_body c False;
     case p of None \<Rightarrow> Some None | Some b \<Rightarrow> parse_block X b
   }"

definition check_reachable :: "('j, 'r) ext \<Rightarrow> ('r, int) ipfs_op" where
  "check_reachable X cn w = do {
     (rc, rpc, w1) \<leftarrow> ipfs_rpc_check_reachable X (ic_rpc cn) w;
     Some (rc, cn\<lparr>ic_rpc := rpc\<rparr>, w1)
   }"

definition api_url :: "IPFSConnect \<Rightarrow> string \<Rightarrow> string option" where
  "api_url cn path = c_strcpy MAX_URL_LEN
     (node_url (ipfs_rpc_get_current_node_ip (ic_rpc cn)) (ipfs_rpc_get_current_node_port (ic_rpc cn)) path)"

section \<open>The methods\<close>

definition ipfs_put_file_from_buffer ::
  "('j, 'r) ext \<Rightarrow> bytes \<Rightarrow> bool \<Rightarrow> ('r, int \<times> string option) ipfs_op" where
  "ipfs_put_file_from_buffer X from encrypt cn w = do {
     (rc, cn1, w1) \<leftarrow> check_reachable X cn w;
     if rc < 0 then Some ((rc, None), cn1, w1)
     else do {
       url \<leftarrow> api_url cn1 ''/api/v0/add'';
       let oom = int_of_error (HIVE_GENERAL_ERROR HIVEERR_OUT_OF_MEMORY);
       (case http_client_new X w1 of
         (None, w2) \<Rightarrow> Some ((oom, None), cn1, w2)
       | (Some c, w2) \<Rightarrow> do {
           (_, c1) \<leftarrow> http_client_set_url X c url;
           let (_, c2) = http_client_set_method X
             (http_client_set_mime_instant c1 (Some ''file'') None None from) HTTP_METHOD_POST;
           ((e, c3), cn3, w3) \<leftarrow> node_request X (http_client_enable_response_body c2) cn1 w2;
           let w4 = http_client_close w3;
           case (case e of None \<Rightarrow> map_option int_of_error (reply_error c3) | Some e \<Rightarrow> Some e) of
             Some e \<Rightarrow> Some ((e, None), cn3, w4)
           | None \<Rightarrow> do {
               resp \<leftarrow> reply_json X c3;
               case resp of
                 None \<Rightarrow> Some ((oom, None), cn3, w4)
               | Some j \<Rightarrow>
                   (let cid_json = cJSON_GetObjectItemCaseSensitive X j ''Hash'';
                        bad = Some ((int_of_error (HIVE_GENERAL_ERROR HIVEERR_BAD_JSON_FORMAT), None), cn3, w4)
                    in if \<not> is_string X cid_json \<or> (case cid_json of None \<Rightarrow> True | Some i \<Rightarrow> j_string X i = None)
                       then bad
                       else do {
                         v \<leftarrow> valuestring_of X cid_json;
                         if v = [] \<or> HIVE_MAX_IPFS_CID_LEN + 1 \<le> length v then bad
                         else do {
                           content \<leftarrow> c_strcpy (HIVE_MAX_IPFS_CID_LEN + 1) v;
                           Some ((0, Some content), cn3, w4)
                         }
                       })
             }
         })
     }
   }"

definition is_object :: "('j, 'r) ext \<Rightarrow> 'j option \<Rightarrow> bool" where
  "is_object X j = (case j of None \<Rightarrow> False | Some i \<Rightarrow> cJSON_IsObject X i)"

text \<open>\<open>Objects.<cid>.Size\<close> of the answer of \<open>file/ls\<close>, when it is there and not negative.\<close>

definition object_size :: "('j, 'r) ext \<Rightarrow> 'j \<Rightarrow> string \<Rightarrow> int option" where
  "object_size X resp cid =
     (case cJSON_GetObjectItemCaseSensitive X resp ''Objects'' of
        None \<Rightarrow> None
      | Some objects \<Rightarrow>
          if \<not> cJSON_IsObject X objects then None
          else (case cJSON_GetObjectItemCaseSensitive X objects cid of
            None \<Rightarrow> None
          | Some cid_json \<Rightarrow>
              if \<not> cJSON_IsObject X cid_json then None
              else (case cJSON_GetObjectItemCaseSensitive X cid_json ''Size'' of
                None \<Rightarrow> None
              | Some sz \<Rightarrow>
                  if \<not> cJSON_IsNumber X sz \<or> j_valuelong X sz < 0 then None
                  else Some (j_valuelong X sz))))"

definition ipfs_get_file_length :: "('j, 'r) ext \<Rightarrow> string \<Rightarrow> ('r, int) ipfs_op" where
  "ipfs_get_file_length X cid cn w = do {
     (rc, cn1, w1) \<leftarrow> check_reachable X cn w;
     if rc < 0 then Some (rc, cn1, w1)
     else do {
       url \<leftarrow> api_url cn1 ''/api/v0/file/ls'';
       let oom = ssize_of_error (HIVE_GENERAL_ERROR HIVEERR_OUT_OF_MEMORY);
       (case http_client_new X w1 of
         (None, w2) \<Rightarrow> Some (oom, cn1, w2)
       | (Some c, w2) \<Rightarrow> do {
           (_, c1) \<leftarrow> http_client_set_url X c url;
           (_, c2) \<leftarrow> http_client_set_query X c1 ''arg'' cid;
           let (_, c3) = http_client_set_method X c2 HTTP_METHOD_POST;
           ((e, c4), cn3, w3) \<leftarrow> node_request X (http_client_enable_response_body c3) cn1 w2;
           let w4 = http_client_close w3;
           case (case e of None \<Rightarrow> map_option int_of_error (reply_error c4) | Some e \<Rightarrow> Some e) of
             Some e \<Rightarrow> Some (e, cn3, w4)
           | None \<Rightarrow> do {
               resp \<leftarrow> reply_json X c4;
               Some (case resp of
                 None \<Rightarrow> (oom, cn3, w4)
               | Some j \<Rightarrow> (case object_size X j cid of
                   None \<Rightarrow> (ssize_of_error (HIVE_GENERAL_ERROR HIVEERR_BAD_JSON_FORMAT), cn3, w4)
                 | Some fsize \<Rightarrow> (fsize, cn3, w4)))
             }
         })
     }
   }"

text \<open>The callback that fills the caller's block of \<open>room\<close> bytes; \<open>sk_cap\<close> is the size it was
  told.\<close>

definition get_response_body_cb :: "nat \<Rightarrow> sink \<Rightarrow> bytes \<Rightarrow> (nat \<times> sink) option" where
  "get_response_body_cb room k buffer =
     (if sk_cap k < length (sk_data k) + length buffer then Some (0, k)
      else if room < length (sk_data k) + length buffer then None
      else Some (length buffer, k\<lparr>sk_data := sk_data k @ buffer\<rparr>))"

definition ipfs_get_file_to_buffer ::
  "('j, 'r) ext \<Rightarrow> string \<Rightarrow> bool \<Rightarrow> nat \<Rightarrow> nat \<Rightarrow> ('r, int \<times> bytes) ipfs_op" where
  "ipfs_get_file_to_buffer X cid decrypt room buflen cn w = do {
     (fsize, cn0, w0) \<leftarrow> ipfs_get_file_length X cid cn w;
     if fsize \<le> 0 then Some ((fsize, []), cn0, w0)
     else if 0 < buflen \<and> int buflen < fsize
     then Some ((ssize_of_error (HIVE_GENERAL_ERROR HIVEERR_BUFFER_TOO_SMALL), []), cn0, w0)
     else do {
       (rc, cn1, w1) \<leftarrow> check_reachable X cn0 w0;
       if rc < 0 then Some ((rc, []), cn1, w1)
       else do {
         url \<leftarrow> api_url cn1 ''/api/v0/cat'';
         (case http_client_new X w1 of
           (None, w2) \<Rightarrow> Some ((ssize_of_error (HIVE_GENERAL_ERROR HIVEERR_OUT_OF_MEMORY), []), cn1, w2)
         | (Some c, w2) \<Rightarrow> do {
             (_, c1) \<leftarrow> http_client_set_url X c url;
             (_, c2) \<leftarrow> http_client_set_query X c1 ''arg'' cid;
             let (_, c3) = http_client_set_method X c2 HTTP_METHOD_POST;
             ((e, c4), cn3, w3) \<leftarrow> node_request X
               (http_client_set_response_body (http_client_set_request_body_instant c3 None 0)
                  (get_response_body_cb room) \<lparr>sk_cap = buflen, sk_data = []\<rparr>) cn1 w2;
             let w4 = http_client_close w3;
             let got = sk_data (hc_sink c4);
             Some (case (case e of None \<Rightarrow> map_option ssize_of_error (reply_error c4) | Some e \<Rightarrow> Some e) of
               Some e \<Rightarrow> ((e, got), cn3, w4)
             | None \<Rightarrow>
                 if fsize \<noteq> int (length got)
                 then ((ssize_of_error (HIVE_GENERAL_ERROR HIVEERR_BAD_PERSISTENT_DATA), got), cn3, w4)
                 else ((fsize, got), cn3, w4))
           })
       }
     }
   }"

section \<open>Connecting\<close>

record IPFSNode =
  in_ipv4 :: "string option"
  in_ipv6 :: "string option"
  in_port :: "string option"

record IPFSConnectOptions =
  ico_backendType :: int
  rpcNodes :: "IPFSNode list"

text \<open>\<open>strtol(s, &endptr, 10)\<close>: the value, within the range of a \<open>long\<close>, and what follows it.\<close>

definition c_isspace :: "char \<Rightarrow> bool" where
  "c_isspace c \<longleftrightarrow> c \<in> {CHR '' '', CHR 0x09, CHR 0x0A, CHR 0x0B, CHR 0x0C, CHR 0x0D}"

definition c_strtol :: "string \<Rightarrow> int \<times> string" where
  "c_strtol s =
     (let t = dropWhile c_isspace s;
          (neg, d) = (case t of [] \<Rightarrow> (False, t)
            | c # r \<Rightarrow> if c = CHR ''-'' then (True, r) else if c = CHR ''+'' then (False, r) else (False, t));
          ds = takeWhile is_digit d; n = int (read_nat ds)
      in if ds = [] then (0, s)
         else (max (- (2 ^ 63)) (min (2 ^ 63 - 1) (if neg then - n else n)), dropWhile is_digit d))"

definition length_or_0 :: "string option \<Rightarrow> nat" where
  "length_or_0 s = (case s of None \<Rightarrow> 0 | Some t \<Rightarrow> length t)"

text \<open>An address of the options: no address, an address that fits and is valid, or a rejection.\<close>

definition check_address :: "(string \<Rightarrow> bool) \<Rightarrow> nat \<Rightarrow> string option \<Rightarrow> string option" where
  "check_address valid sz ip =
     (if length_or_0 ip = 0 then Some []
      else if sz \<le> length_or_0 ip \<or> \<not> valid (the ip) then None
      else c_strcpy sz (the ip))"

definition check_node :: "(bool \<Rightarrow> string \<Rightarrow> bool) \<Rightarrow> IPFSNode \<Rightarrow> rpc_node option" where
  "check_node inet_pton node =
     (if length_or_0 (in_ipv4 node) = 0 \<and> length_or_0 (in_ipv6 node) = 0 then None
      else do {
        ip4 \<leftarrow> check_address (inet_pton False) (HIVE_MAX_IPV4_ADDRESS_LEN + 1) (in_ipv4 node);
        ip6 \<leftarrow> check_address (inet_pton True) (HIVE_MAX_IPV6_ADDRESS_LEN + 1) (in_ipv6 node);
        if null_or_empty (in_port node) then None
        else (let (port, endptr) = c_strtol (the (in_port node)) in
          if endptr \<noteq> [] then None
          else if port < 1 \<or> 65535 < port then None
          else Some \<lparr>node_ipv4 = ip4, node_ipv6 = ip6, node_port = word_of_int port\<rparr>)
      })"

definition ipfs_client_connect ::
  "('j, 'r) ext \<Rightarrow> (bool \<Rightarrow> string \<Rightarrow> bool) \<Rightarrow> IPFSConnectOptions \<Rightarrow> 'r world
     \<Rightarrow> (IPFSConnect option \<times> 'r world) option" where
  "ipfs_client_connect X inet_pton options w =
     (if rpcNodes options = [] then Some (None, w)
      else (case those (map (check_node inet_pton) (rpcNodes options)) of
        None \<Rightarrow> Some (None, w)
      | Some nodes \<Rightarrow>
          (let (ok, w1) = c_alloc w in
           if \<not> ok then Some (None, w1)
           else do {
             (rpc, w2) \<leftarrow> ipfs_rpc_new X nodes w1;
             Some (map_option (\<lambda>r. \<lparr>ic_rpc = r\<rparr>) rpc, w2)
           })))"

section \<open>What the methods keep\<close>

text \<open>From a connection to one after it: the configured nodes stay, the current node is one of
  them or none, and nothing is left open.\<close>

definition ipfs_keeps :: "IPFSConnect \<Rightarrow> 'r world \<Rightarrow> IPFSConnect \<Rightarrow> 'r world \<Rightarrow> bool" where
  "ipfs_keeps cn w cn' w' \<longleftrightarrow> rpc_ok (ic_rpc cn') \<and> rpc_nodes (ic_rpc cn') = rpc_nodes (ic_rpc cn) \<and> held w' = held w"

lemma check_reachable_keeps:
  assumes "rpc_ok (ic_rpc cn)"
  shows "post (check_reachable X cn w) (\<lambda>(rc, cn', w'). ipfs_keeps cn w cn' w')"
  unfolding check_reachable_def
  by (intro hive_post | rule post_call [OF check_reachable_post [OF assms]] | ((auto simp: ipfs_keeps_def)[1]; fail))+

lemma node_request_keeps:
  assumes "rpc_ok (ic_rpc cn)"
  shows "post (node_request X c cn w) (\<lambda>((e, c'), cn', w'). ipfs_keeps cn w cn' w')"
  unfolding node_request_def
  by (intro hive_post | (rule post_call, rule request_post)
      | ((use assms in \<open>auto simp: ipfs_keeps_def mark_unreachable_ok\<close>)[1]; fail))+

lemma put_keeps:
  assumes "rpc_ok (ic_rpc cn)"
  shows "post (ipfs_put_file_from_buffer X from encrypt cn w) (\<lambda>(r, cn', w'). ipfs_keeps cn w cn' w')"
  unfolding ipfs_put_file_from_buffer_def
  by (intro hive_post | rule post_call [OF check_reachable_keeps [OF assms]] | rule post_call [OF node_request_keeps]
      | rule postI | ((auto simp: ipfs_keeps_def dest!: live_http_new)[1]; fail))+

lemma length_keeps:
  assumes "rpc_ok (ic_rpc cn)"
  shows "post (ipfs_get_file_length X cid cn w) (\<lambda>(r, cn', w'). ipfs_keeps cn w cn' w')"
  unfolding ipfs_get_file_length_def
  by (intro hive_post | rule post_call [OF check_reachable_keeps [OF assms]] | rule post_call [OF node_request_keeps]
      | rule postI | ((auto simp: ipfs_keeps_def dest!: live_http_new split: option.splits)[1]; fail))+

lemma get_keeps:
  assumes "rpc_ok (ic_rpc cn)"
  shows "post (ipfs_get_file_to_buffer X cid dec room len cn w) (\<lambda>(r, cn', w'). ipfs_keeps cn w cn' w')"
  unfolding ipfs_get_file_to_buffer_def
  by (intro hive_post | rule post_call [OF length_keeps [OF assms]] | rule post_call [OF check_reachable_keeps]
      | rule post_call [OF node_request_keeps]
      | rule postI | ((auto simp: ipfs_keeps_def dest!: live_http_new split: option.splits)[1]; fail))+

section \<open>The life of a connection\<close>

inductive ip_step :: "('j, 'r) ext \<Rightarrow> IPFSConnect \<times> 'r world \<Rightarrow> IPFSConnect \<times> 'r world \<Rightarrow> bool" for X where
  put: "ipfs_put_file_from_buffer X from enc cn w = Some (r, cn', w') \<Longrightarrow> ip_step X (cn, w) (cn', w')"
| file_length: "ipfs_get_file_length X cid cn w = Some (n, cn', w') \<Longrightarrow> ip_step X (cn, w) (cn', w')"
| get: "ipfs_get_file_to_buffer X cid dec room len cn w = Some (r, cn', w') \<Longrightarrow> ip_step X (cn, w) (cn', w')"

inductive ip_run :: "('j, 'r) ext \<Rightarrow> IPFSConnect \<times> 'r world \<Rightarrow> IPFSConnect \<times> 'r world \<Rightarrow> bool" for X where
  start: "ip_run X s s"
| step: "ip_run X s t \<Longrightarrow> ip_step X t u \<Longrightarrow> ip_run X s u"

inductive_cases ip_stepE: "ip_step X (cn, w) (cn', w')"

lemma ip_step_keeps: "ip_step X (cn, w) (cn', w') \<Longrightarrow> rpc_ok (ic_rpc cn) \<Longrightarrow> ipfs_keeps cn w cn' w'"
  by (erule ip_stepE) (auto dest: postD [OF put_keeps] postD [OF length_keeps] postD [OF get_keeps])

lemma ip_run_keeps:
  assumes "ip_run X (cn, w) s" "rpc_ok (ic_rpc cn)"
  shows "ipfs_keeps cn w (fst s) (snd s)"
  using assms
proof (induction "(cn, w)" s rule: ip_run.induct)
  case start
  then show ?case by (simp add: ipfs_keeps_def)
next
  case (step t u)
  then have t: "ipfs_keeps cn w (fst t) (snd t)" by simp
  with ip_step_keeps [of X "fst t" "snd t" "fst u" "snd u"] step(3) show ?case
    by (simp add: ipfs_keeps_def)
qed

lemma connect_post:
  "post (ipfs_client_connect X inet_pton options w) (\<lambda>(cn, w'). held w' = held w \<and>
     (\<forall>c. cn = Some c \<longrightarrow> rpc_ok (ic_rpc c) \<and> current_node_ip (ic_rpc c) \<noteq> []
        \<and> those (map (check_node inet_pton) (rpcNodes options)) = Some (rpc_nodes (ic_rpc c))))"
  unfolding ipfs_client_connect_def
  by (intro hive_post | (rule post_call, rule rpc_new_post) | rule postI
      | ((auto dest!: c_alloc_held)[1]; fail))+

text \<open>Whatever sequence of uploads, length queries and downloads is run on a connection that
  \<open>ipfs_client_connect\<close> returned, and whatever the nodes answer, the list of nodes
  never changes, the current node is either unset or an address of one of them with that node's
  port, and every HTTP client and every descriptor opened on the way is closed again.\<close>

theorem ipfs_reachable_ok:
  assumes "ipfs_client_connect X inet_pton options w = Some (Some cn, w0)"
    and "ip_run X (cn, w0) (cn', w')"
  shows "rpc_nodes (ic_rpc cn') = rpc_nodes (ic_rpc cn) \<and> held w' = held w \<and>
    (current_node_ip (ic_rpc cn') = [] \<or>
     (\<exists>n \<in> set (rpc_nodes (ic_rpc cn)). current_node_port (ic_rpc cn') = node_port n \<and>
        (current_node_ip (ic_rpc cn') = node_ipv4 n \<or> current_node_ip (ic_rpc cn') = node_ipv6 n)))"
proof -
  have "rpc_ok (ic_rpc cn)" and h: "held w0 = held w" using postD [OF connect_post assms(1)] by auto
  from ip_run_keeps [OF assms(2) this(1)] h show ?thesis
    by (auto simp: ipfs_keeps_def rpc_ok_def addresses_def)
qed

section \<open>The check of the options\<close>

lemma those_Some: "those xs = Some ys \<Longrightarrow> xs = map Some ys"
  by (induction xs arbitrary: ys) (auto split: option.splits)

lemma check_address_Some:
  "check_address valid sz ip = Some a \<Longrightarrow> a = (case ip of None \<Rightarrow> [] | Some t \<Rightarrow> t) \<and> (a \<noteq> [] \<longrightarrow> valid a \<and> length a < sz)"
  by (auto simp: check_address_def length_or_0_def split: if_splits option.splits)

lemma check_node_Some:
  assumes "check_node inet_pton node = Some n"
  shows "(node_ipv4 n \<noteq> [] \<or> node_ipv6 n \<noteq> [])
    \<and> (node_ipv4 n \<noteq> [] \<longrightarrow> inet_pton False (node_ipv4 n) \<and> length (node_ipv4 n) \<le> 15)
    \<and> (node_ipv6 n \<noteq> [] \<longrightarrow> inet_pton True (node_ipv6 n) \<and> length (node_ipv6 n) \<le> 47) \<and> node_port n \<noteq> 0"
proof -
  define port where "port = fst (c_strtol (the (in_port node)))"
  obtain ip4 ip6 where a: "\<not> (length_or_0 (in_ipv4 node) = 0 \<and> length_or_0 (in_ipv6 node) = 0)"
    "check_address (inet_pton False) 16 (in_ipv4 node) = Some ip4"
    "check_address (inet_pton True) 48 (in_ipv6 node) = Some ip6"
    and p: "1 \<le> port" "port \<le> 65535" and n: "n = \<lparr>node_ipv4 = ip4, node_ipv6 = ip6, node_port = word_of_int port\<rparr>"
    using assms by (auto simp: check_node_def bind_eq_Some_iff Let_def hive_const port_def split: if_splits prod.splits)
  have "uint (word_of_int port :: 16 word) = port"
    using p by (simp add: uint_word_of_int_eq take_bit_int_eq_self)
  then have "(word_of_int port :: 16 word) \<noteq> 0" using p by auto
  with a n check_address_Some [OF a(2)] check_address_Some [OF a(3)] show ?thesis
    by (auto simp: length_or_0_def split: option.splits)
qed


text \<open>A port between 1 and 65535 written in decimal is read back by the check of the options as the
  same port.\<close>

theorem port_roundtrip:
  assumes "1 \<le> port" and "port \<le> 65535" and "in_port node = Some (show_nat port)"
    and "check_address (inet_pton False) 16 (in_ipv4 node) = Some ip4"
    and "check_address (inet_pton True) 48 (in_ipv6 node) = Some ip6" and "ip4 \<noteq> [] \<or> ip6 \<noteq> []"
  shows "\<exists>n. check_node inet_pton node = Some n \<and> node_ipv4 n = ip4 \<and> node_ipv6 n = ip6 \<and> unat (node_port n) = port"
proof -
  have d: "takeWhile is_digit (show_nat port) = show_nat port" "dropWhile is_digit (show_nat port) = []"
    by (simp_all add: takeWhile_eq_all_conv dropWhile_eq_Nil_conv show_nat_digits)
  obtain c cs where s: "show_nat port = c # cs" using show_nat_nonempty by (cases "show_nat port") auto
  then have "is_digit c" using show_nat_digits [of c port] by simp
  then have c: "\<not> c_isspace c" "c \<noteq> CHR ''-''" "c \<noteq> CHR ''+''"
    by (auto simp: c_isspace_def is_digit_def)
  have "c_strtol (show_nat port) = (int port, [])"
    using d c s read_show_nat [of port] assms(2) by (simp add: c_strtol_def Let_def)
  moreover have "length_or_0 (in_ipv4 node) \<noteq> 0 \<or> length_or_0 (in_ipv6 node) \<noteq> 0"
    using assms(4-6) by (auto simp: check_address_def split: if_splits)
  moreover have "unat (word_of_int (int port) :: 16 word) = port"
    using assms(2) by (simp add: unat_of_nat take_bit_nat_eq_self)
  ultimately show ?thesis
    using assms by (simp add: check_node_def hive_const Let_def null_or_empty_def)
qed

section \<open>Downloads stay in the buffer\<close>

interpretation ipfs_sink: byte_sink "get_response_body_cb room" sk_data "\<lambda>k. length (sk_data k) \<le> sk_cap k" for room
  by unfold_locales (auto simp: get_response_body_cb_def split: if_splits)

lemma ipfs_feed:
  assumes "length (sk_data k) \<le> sk_cap k"
  shows "feed (get_response_body_cb room) chs k = Some (ok, k') \<Longrightarrow> length (sk_data k') \<le> sk_cap k"
    and "sk_cap k \<le> room \<Longrightarrow> feed (get_response_body_cb room) chs k \<noteq> None"
  using assms
  by (induction chs arbitrary: k) (force simp: get_response_body_cb_def split: option.splits prod.splits if_splits)+

lemma ipfs_sink_request:
  assumes "http_client_request X (http_client_set_response_body c (get_response_body_cb room) \<lparr>sk_cap = n, sk_data = []\<rparr>) w
    = Some (rc, c', w')"
  shows "length (sk_data (hc_sink c')) \<le> n"
proof -
  let ?d = "http_client_set_response_body c (get_response_body_cb room) \<lparr>sk_cap = n, sk_data = []\<rparr>"
  have wf: "write_fn_of (hc_opts ?d) = Caller_cb (get_response_body_cb room)" "hc_sink ?d = \<lparr>sk_cap = n, sk_data = []\<rparr>"
    by (simp_all add: http_client_set_response_body_def setopt_def write_fn_of_def)
  with assms obtain chs ok k where "feed (get_response_body_cb room) chs \<lparr>sk_cap = n, sk_data = []\<rparr> = Some (ok, k)"
    "hc_sink c' = k"
    by (auto simp: http_client_request_def Let_def feed_caller_cb bind_eq_Some_iff split: option.splits prod.splits)
  then show ?thesis using ipfs_feed(1) [of "\<lparr>sk_cap = n, sk_data = []\<rparr>" room chs ok k] by simp
qed

lemma node_request_result:
  "node_request X c cn w = Some ((e, c'), cn', w') \<Longrightarrow>
     (\<exists>rc. http_client_request X c w = Some (rc, c', w') \<and> (e = None \<longleftrightarrow> rc = 0)) \<and> (\<forall>x. e = Some x \<longrightarrow> x < 0)"
  by (auto simp: node_request_def bind_eq_Some_iff split: if_splits)

lemma reply_error_length: "reply_error c = Some e \<Longrightarrow> 2 ^ 31 \<le> ssize_of_error e"
  using error_lengths by (auto simp: reply_error_def split: if_splits prod.splits)

lemma error_not_small [simp]:
  "\<not> ssize_of_error (HIVE_GENERAL_ERROR c) < 2147483648" "\<not> ssize_of_error (HIVE_CURL_ERROR c) < 2147483648"
  "\<not> ssize_of_error (HIVE_HTTP_STATUS_ERROR c) < 2147483648"
  using error_lengths [of c] by simp_all

lemma sink_request_post:
  "post (node_request X (http_client_set_response_body d (get_response_body_cb room) \<lparr>sk_cap = n, sk_data = []\<rparr>) cn w)
     (\<lambda>((e, c'), cn', w'). length (sk_data (hc_sink c')) \<le> n \<and> (\<forall>x. e = Some x \<longrightarrow> x < 0))"
  by (rule postI) (auto dest!: node_request_result ipfs_sink_request)

lemma download_post:
  "post (ipfs_get_file_to_buffer X cid dec room buflen cn w)
     (\<lambda>((n, got), cn', w'). length got \<le> buflen \<and> (0 \<le> n \<and> n < 2 ^ 31 \<longrightarrow> n = int (length got)))"
  unfolding ipfs_get_file_to_buffer_def
  by (intro hive_post | rule post_call [OF sink_request_post] | rule postI
      | ((auto dest: reply_error_length split: option.splits)[1]; fail))+

text \<open>C30: A download from IPFS stays in the caller's buffer, unlike the one from OneDrive: the callback
  refuses a chunk that does not fit, so the request returns, and a length that is reported is the
  number of bytes stored.\<close>

theorem ipfs_download_contained:
  assumes "buflen \<le> room"
  shows "http_client_request X (http_client_set_response_body c (get_response_body_cb room)
       \<lparr>sk_cap = buflen, sk_data = []\<rparr>) v \<noteq> None \<and>
    (\<forall>n got cn' w'. ipfs_get_file_to_buffer X cid dec room buflen cn w = Some ((n, got), cn', w') \<longrightarrow>
       length got \<le> buflen \<and> (0 \<le> n \<and> n < 2 ^ 31 \<longrightarrow> n = int (length got)))"
proof (intro conjI allI impI)
  let ?d = "http_client_set_response_body c (get_response_body_cb room) \<lparr>sk_cap = buflen, sk_data = []\<rparr>"
  have "write_fn_of (hc_opts ?d) = Caller_cb (get_response_body_cb room)" "hc_sink ?d = \<lparr>sk_cap = buflen, sk_data = []\<rparr>"
    by (simp_all add: http_client_set_response_body_def setopt_def write_fn_of_def)
  moreover obtain t r where "curl_perform X (hc_opts (prepare_request ?d)) (hc_url (prepare_request ?d)) (remote v) = (t, r)"
    by fastforce
  moreover obtain ok k where "feed (get_response_body_cb room) (t_chunks t) \<lparr>sk_cap = buflen, sk_data = []\<rparr> = Some (ok, k)"
    using assms ipfs_feed(2) [of "\<lparr>sk_cap = buflen, sk_data = []\<rparr>" room "t_chunks t"] by auto
  ultimately show "http_client_request X ?d v \<noteq> None"
    by (simp add: http_client_request_def Let_def feed_caller_cb)
next
  fix n got cn' w'
  assume "ipfs_get_file_to_buffer X cid dec room buflen cn w = Some ((n, got), cn', w')"
  from postD [OF download_post this]
  show "length got \<le> buflen" "0 \<le> n \<and> n < 2 ^ 31 \<Longrightarrow> n = int (length got)" by auto
qed

section \<open>A node that went away\<close>

text \<open>Every transfer fails with the code \<open>rc\<close>.\<close>

definition dead :: "('j, 'r) ext \<Rightarrow> int \<Rightarrow> bool" where
  "dead X rc \<longleftrightarrow> (\<forall>os us r. \<exists>t r'. curl_perform X os us r = (t, r') \<and> t_code t = rc \<and> t_chunks t = [])"

definition on_node :: "IPFSConnect \<Rightarrow> 'r world \<Rightarrow> bool" where
  "on_node cn w \<longleftrightarrow> network_up w \<and> current_node_ip (ic_rpc cn) \<noteq> [] \<and> length (current_node_ip (ic_rpc cn)) \<le> 47"

lemma on_node_start:
  assumes "on_node cn w" "length path \<le> 100"
  shows "check_reachable X cn w = Some (0, cn, w)"
    and "\<exists>url. api_url cn path = Some url \<and> url \<noteq> []"
    and "http_client_new X w = (Some fresh_client, w\<lparr>live_http := live_http w + 1\<rparr>)"
proof -
  show "check_reachable X cn w = Some (0, cn, w)"
    using assms(1) by (simp add: on_node_def check_reachable_def ipfs_rpc_check_reachable_def)
  show "\<exists>url. api_url cn path = Some url \<and> url \<noteq> []"
    using assms length_node_url [of "current_node_ip (ic_rpc cn)" "current_node_port (ic_rpc cn)" path]
    by (auto simp: on_node_def api_url_def ipfs_rpc_get_current_node_ip_def ipfs_rpc_get_current_node_port_def
        MAX_URL_LEN_def) (simp add: node_url_def)
  show "http_client_new X w = (Some fresh_client, w\<lparr>live_http := live_http w + 1\<rparr>)"
    using assms(1) by (cases w) (simp add: on_node_def network_up_def http_client_new_def c_alloc_def take_fault_def)
qed

lemma dead_request:
  assumes "dead X rc" "RC_NODE_UNREACHABLE rc"
  shows "\<exists>c' w'. node_request X c cn w = Some ((Some (int_of_error (HIVE_GENERAL_ERROR HIVEERR_TRY_AGAIN)), c'),
     cn\<lparr>ic_rpc := ipfs_rpc_mark_node_unreachable (ic_rpc cn)\<rparr>, w')"
proof -
  obtain t r where "curl_perform X (hc_opts (prepare_request c)) (hc_url (prepare_request c)) (remote w) = (t, r)"
    "t_code t = rc" "t_chunks t = []"
    using assms(1) unfolding dead_def by blast
  with assms(2) show ?thesis
    by (auto simp: node_request_def http_client_request_def Let_def RC_NODE_UNREACHABLE_def hive_const)
qed

text \<open>When the current node cannot be reached, uploading, asking the length and downloading each
  fail with \<open>HIVEERR_TRY_AGAIN\<close> and unset the current node, keeping the list, so that
  the next operation chooses a node anew.\<close>

theorem ipfs_unreachable_try_again:
  assumes "dead X rc" and "RC_NODE_UNREACHABLE rc" and "on_node cn w" and "cid \<noteq> []"
  shows "\<exists>w1 w2 w3 cn'. current_node_ip (ic_rpc cn') = [] \<and> rpc_nodes (ic_rpc cn') = rpc_nodes (ic_rpc cn) \<and>
     ipfs_put_file_from_buffer X from enc cn w
       = Some ((int_of_error (HIVE_GENERAL_ERROR HIVEERR_TRY_AGAIN), None), cn', w1) \<and>
     ipfs_get_file_length X cid cn w = Some (int_of_error (HIVE_GENERAL_ERROR HIVEERR_TRY_AGAIN), cn', w2) \<and>
     ipfs_get_file_to_buffer X cid dec room buflen cn w
       = Some ((int_of_error (HIVE_GENERAL_ERROR HIVEERR_TRY_AGAIN), []), cn', w3)"
proof -
  let ?cn = "cn\<lparr>ic_rpc := ipfs_rpc_mark_node_unreachable (ic_rpc cn)\<rparr>"
  let ?e = "int_of_error (HIVE_GENERAL_ERROR HIVEERR_TRY_AGAIN)"
  note start = on_node_start [OF assms(3)]
  obtain u1 where u1: "api_url cn ''/api/v0/add'' = Some u1" "u1 \<noteq> []" using start(2) [of "''/api/v0/add''"] by auto
  obtain u2 where u2: "api_url cn ''/api/v0/file/ls'' = Some u2" "u2 \<noteq> []" using start(2) [of "''/api/v0/file/ls''"] by auto
  let ?w = "w\<lparr>live_http := live_http w + 1\<rparr>"
  have new: "check_reachable X cn w = Some (0, cn, w)" "http_client_new X w = (Some fresh_client, ?w)"
    using start(1,3) [of "[]" X] by simp_all
  have url: "\<exists>rc c'. http_client_set_url X c u = Some (rc, c')" if "u \<noteq> []" for c u
    using that by (simp add: http_client_set_url_def curl_url_set_def)
  obtain rc1 c1 where c1: "http_client_set_url X fresh_client u1 = Some (rc1, c1)" using url [OF u1(2)] by blast
  obtain rc2 c2 where c2: "http_client_set_method X (http_client_set_mime_instant c1 (Some ''file'') None None from)
      HTTP_METHOD_POST = (rc2, c2)" by fastforce
  obtain c3 w3 where "node_request X (http_client_enable_response_body c2) cn ?w = Some ((Some ?e, c3), ?cn, w3)"
    using dead_request [OF assms(1,2)] by blast
  with new u1 c1 c2 have put: "\<exists>w1. ipfs_put_file_from_buffer X from enc cn w = Some ((?e, None), ?cn, w1)"
    by (simp add: ipfs_put_file_from_buffer_def)
  obtain rc4 c4 where c4: "http_client_set_url X fresh_client u2 = Some (rc4, c4)" using url [OF u2(2)] by blast
  obtain rc5 c5 where c5: "http_client_set_query X c4 ''arg'' cid = Some (rc5, c5)"
    using assms(4) by (simp add: http_client_set_query_def curl_url_set_def)
  obtain rc6 c6 where c6: "http_client_set_method X c5 HTTP_METHOD_POST = (rc6, c6)" by fastforce
  obtain c7 w7 where "node_request X (http_client_enable_response_body c6) cn ?w = Some ((Some ?e, c7), ?cn, w7)"
    using dead_request [OF assms(1,2)] by blast
  with new u2 c4 c5 c6 have len: "\<exists>w2. ipfs_get_file_length X cid cn w = Some (?e, ?cn, w2)"
    by (simp add: ipfs_get_file_length_def)
  then have "\<exists>w3. ipfs_get_file_to_buffer X cid dec room buflen cn w = Some ((?e, []), ?cn, w3)"
    by (auto simp: ipfs_get_file_to_buffer_def less_imp_le)
  with put len obtain w1 w2 w3 where "ipfs_put_file_from_buffer X from enc cn w = Some ((?e, None), ?cn, w1)"
    "ipfs_get_file_length X cid cn w = Some (?e, ?cn, w2)"
    "ipfs_get_file_to_buffer X cid dec room buflen cn w = Some ((?e, []), ?cn, w3)" by blast
  then show ?thesis
    by (intro exI [of _ w1] exI [of _ w2] exI [of _ w3] exI [of _ ?cn])
      (simp add: ipfs_rpc_mark_node_unreachable_def)
qed

section \<open>Examples\<close>

definition sample_pton :: "bool \<Rightarrow> string \<Rightarrow> bool" where
  "sample_pton v6 s \<longleftrightarrow> (if v6 then CHR '':'' \<in> set s else CHR ''.'' \<in> set s)"

definition sample_ipfs_options :: IPFSConnectOptions where
  "sample_ipfs_options = \<lparr>ico_backendType = 1, rpcNodes =
     [\<lparr>in_ipv4 = Some ''10.0.0.1'', in_ipv6 = None, in_port = Some ''80''\<rparr>,
      \<lparr>in_ipv4 = Some ''10.0.0.2'', in_ipv6 = Some ''fe80::2'', in_port = Some ''8080''\<rparr>]\<rparr>"

lemma sample_nodes_checked:
  "those (map (check_node sample_pton) (rpcNodes sample_ipfs_options)) = Some sample_nodes"
  by (simp add: sample_ipfs_options_def sample_nodes_def check_node_def check_address_def length_or_0_def sample_pton_def
      c_strtol_def c_isspace_def is_digit_def read_nat_def digit_val_def null_or_empty_def Let_def hive_const)

lemma sample_ipfs_connects:
  "\<exists>cn w0. ipfs_client_connect (node_server (\<lambda>_. True)) sample_pton sample_ipfs_options (calm_world ()) = Some (Some cn, w0)"
proof -
  let ?X = "node_server (\<lambda>_. True) :: (json, unit) ext"
  obtain w1 where "select_bootstrap ?X sample_nodes (calm_world ()) =
     Some ((case first_reached (\<lambda>ip port. length (node_url ip port ''/version'') \<le> MAXPATHLEN \<and> True)
              (rotate (fst (c_rand (calm_world ()))) sample_nodes) of
              None \<Rightarrow> (int_of_error (HIVE_GENERAL_ERROR HIVEERR_BAD_BOOTSTRAP_HOST), None)
            | Some sel \<Rightarrow> (0, Some sel)), w1)"
    using select_served [of "calm_world ()" sample_nodes "\<lambda>_. True"]
    by (auto simp: network_up_def calm_world_def sample_nodes_def)
  then show ?thesis
    using length_node_url [of "''10.0.0.1''" 80 "''/version''"] sample_nodes_checked
    by (auto simp: ipfs_client_connect_def ipfs_rpc_new_def sample_nodes_def node_reached_def c_alloc_def take_fault_def
        c_rand_def calm_world_def hive_const sample_ipfs_options_def)
qed

lemma ipfs_reachable_ok_witness:
  "\<exists>cn w0. ipfs_client_connect (node_server (\<lambda>_. True)) sample_pton sample_ipfs_options (calm_world ()) = Some (Some cn, w0)
     \<and> held w0 = (0, 0)"
proof -
  obtain cn w0 where c: "ipfs_client_connect (node_server (\<lambda>_. True)) sample_pton sample_ipfs_options (calm_world ())
      = Some (Some cn, w0)"
    using sample_ipfs_connects by blast
  from ipfs_reachable_ok [OF c ip_run.start] c show ?thesis by auto
qed


lemma port_roundtrip_witness:
  "\<exists>n. check_node sample_pton \<lparr>in_ipv4 = Some ''10.0.0.2'', in_ipv6 = None, in_port = Some (show_nat 8080)\<rparr> = Some n
     \<and> unat (node_port n) = 8080"
  using port_roundtrip [of 8080 "\<lparr>in_ipv4 = Some ''10.0.0.2'', in_ipv6 = None, in_port = Some (show_nat 8080)\<rparr>"
      sample_pton "''10.0.0.2''" "[]"]
  by (auto simp: check_address_def length_or_0_def sample_pton_def)

lemma ipfs_download_contained_witness:
  "http_client_request (node_server (\<lambda>_. True)) (http_client_set_response_body fresh_client (get_response_body_cb 4)
       \<lparr>sk_cap = 4, sk_data = []\<rparr>) (calm_world ()) \<noteq> None"
  by (rule ipfs_download_contained [THEN conjunct1]) simp

definition sample_ipfs :: IPFSConnect where
  "sample_ipfs = \<lparr>ic_rpc = \<lparr>current_node_ip = ''10.0.0.1'', current_node_port = 80, rpc_nodes = sample_nodes\<rparr>\<rparr>"

lemma ipfs_unreachable_try_again_witness:
  "\<exists>w' cn'. current_node_ip (ic_rpc cn') = [] \<and> ipfs_get_file_length (node_server (\<lambda>_. False)) ''Qm'' sample_ipfs (calm_world ())
     = Some (int_of_error (HIVE_GENERAL_ERROR HIVEERR_TRY_AGAIN), cn', w')"
proof -
  have "dead (node_server (\<lambda>_. False) :: (json, unit) ext) CURLE_COULDNT_CONNECT" by (simp add: dead_def)
  moreover have "RC_NODE_UNREACHABLE CURLE_COULDNT_CONNECT" by (simp add: RC_NODE_UNREACHABLE_def)
  moreover have "on_node sample_ipfs (calm_world ())"
    by (simp add: on_node_def network_up_def sample_ipfs_def)
  ultimately show ?thesis
    using ipfs_unreachable_try_again [of "node_server (\<lambda>_. False)" CURLE_COULDNT_CONNECT sample_ipfs "calm_world ()" "''Qm''"]
    by fastforce
qed

end
