(* ===== verification/Hive_Api.thy ===== *)
theory Hive_Api
  imports Hive_OneDrive Hive_Ipfs
begin

text \<open>
  The client API (\<open>src/src/hive_client.c\<close>, \<open>src/src/hive_file.c\<close>, \<open>src/src/hive_key.c\<close>).

  A connection is its table of methods (the function pointers of \<open>struct HiveConnect\<close>,
  \<open>None\<close> for a null pointer) and a state of type \<open>'s\<close> that only the methods know; \<open>'c\<close> is the type
  of the context behind a callback's \<open>void *\<close>.  Every function takes the table as an option
  (\<open>None\<close> is a null \<open>HiveConnect *\<close>) and threads state and world; pointers that may be null are
  options.  The result is the C result; a download also returns what was stored at \<open>to\<close>, an IPFS
  upload the CID.
\<close>

definition HIVE_MAX_FILE_SIZE :: nat where [hive_const]: "HIVE_MAX_FILE_SIZE = 32 * 1024 * 1024"
definition HiveBackendType_IPFS :: int where [hive_const]: "HiveBackendType_IPFS = 0x01"

type_synonym ('s, 'r, 'a) hive_op = "'s \<Rightarrow> 'r world \<Rightarrow> ('a \<times> 's \<times> 'r world) option"

section \<open>Method tables\<close>

record ('s, 'r, 'c) HiveConnect =
  m_put_file_from_buffer :: "(bytes \<Rightarrow> bool \<Rightarrow> string \<Rightarrow> ('s, 'r, int) hive_op) option"
  m_get_file_length :: "(string \<Rightarrow> ('s, 'r, int) hive_op) option"
  m_get_file_to_buffer :: "(string \<Rightarrow> bool \<Rightarrow> nat \<Rightarrow> nat \<Rightarrow> ('s, 'r, int \<times> bytes) hive_op) option"
  m_list_files :: "((string option \<Rightarrow> 'c \<Rightarrow> bool \<times> 'c) \<Rightarrow> 'c \<Rightarrow> ('s, 'r, int \<times> 'c) hive_op) option"
  m_delete_file :: "(string \<Rightarrow> ('s, 'r, int) hive_op) option"
  m_ipfs_put_file_from_buffer :: "(bytes \<Rightarrow> bool \<Rightarrow> ('s, 'r, int \<times> string option) hive_op) option"
  m_ipfs_get_file_length :: "(string \<Rightarrow> ('s, 'r, int) hive_op) option"
  m_ipfs_get_file_to_buffer :: "(string \<Rightarrow> bool \<Rightarrow> nat \<Rightarrow> nat \<Rightarrow> ('s, 'r, int \<times> bytes) hive_op) option"
  m_put_value :: "(string \<Rightarrow> bytes \<Rightarrow> bool \<Rightarrow> ('s, 'r, int) hive_op) option"
  m_set_value :: "(string \<Rightarrow> bytes \<Rightarrow> bool \<Rightarrow> ('s, 'r, int) hive_op) option"
  m_get_values :: "(string \<Rightarrow> bool \<Rightarrow> (string \<Rightarrow> bytes \<Rightarrow> 'c \<Rightarrow> bool \<times> 'c) \<Rightarrow> 'c \<Rightarrow> ('s, 'r, int \<times> 'c) hive_op) option"
  m_delete_key :: "(string \<Rightarrow> ('s, 'r, int) hive_op) option"
  m_disconnect :: "('s, 'r, int) hive_op option"
  m_expire_token :: "('s, 'r, int) hive_op option"

text \<open>The assignments at the end of the two connect functions.  \<open>disconnect\<close> drops the reference
  and returns 0; the object it frees is not used again.\<close>

definition onedrive_methods :: "('j, 'r) ext \<Rightarrow> (('j, 'r) OneDriveConnect, 'r, 'c) HiveConnect" where
  "onedrive_methods X = \<lparr>
     m_put_file_from_buffer = Some (od_put_file_from_buffer X),
     m_get_file_length = Some (od_get_file_length X),
     m_get_file_to_buffer = Some (od_get_file_to_buffer X),
     m_list_files = Some (od_list_files X),
     m_delete_file = Some (od_delete_file X),
     m_ipfs_put_file_from_buffer = None, m_ipfs_get_file_length = None, m_ipfs_get_file_to_buffer = None,
     m_put_value = Some (od_put_value X),
     m_set_value = Some (od_set_value X),
     m_get_values = Some (od_get_values X),
     m_delete_key = Some (od_delete_key X),
     m_disconnect = Some (\<lambda>cn w. Some (0, cn, w)),
     m_expire_token = Some (\<lambda>cn w. Some (0, expire_token cn, w))\<rparr>"

definition ipfs_methods :: "('j, 'r) ext \<Rightarrow> (IPFSConnect, 'r, 'c) HiveConnect" where
  "ipfs_methods X = \<lparr>
     m_put_file_from_buffer = None, m_get_file_length = None, m_get_file_to_buffer = None,
     m_list_files = None, m_delete_file = None,
     m_ipfs_put_file_from_buffer = Some (ipfs_put_file_from_buffer X),
     m_ipfs_get_file_length = Some (ipfs_get_file_length X),
     m_ipfs_get_file_to_buffer = Some (ipfs_get_file_to_buffer X),
     m_put_value = None, m_set_value = None, m_get_values = None, m_delete_key = None,
     m_disconnect = Some (\<lambda>cn w. Some (0, cn, w)),
     m_expire_token = None\<rparr>"

section \<open>Results\<close>

definition api_error :: "int \<Rightarrow> 'a \<Rightarrow> 's \<Rightarrow> 'r world \<Rightarrow> ((int \<times> 'a) \<times> 's \<times> 'r world) option" where
  "api_error e a s w = Some ((-1, a), s, hive_set_error (int_of_error (HIVE_GENERAL_ERROR e)) w)"

text \<open>The two endings of the functions: an \<open>int\<close> result becomes 0 or -1, an \<open>ssize_t\<close> result is
  passed on or becomes -1; a negative one is recorded.\<close>

definition int_result :: "(int \<times> 'a) \<times> 's \<times> 'r world \<Rightarrow> ((int \<times> 'a) \<times> 's \<times> 'r world) option" where
  "int_result r = (case r of ((rc, a), s, w) \<Rightarrow>
     Some (if rc < 0 then ((-1, a), s, hive_set_error rc w) else ((0, a), s, w)))"

definition ssize_result :: "(int \<times> 'a) \<times> 's \<times> 'r world \<Rightarrow> ((int \<times> 'a) \<times> 's \<times> 'r world) option" where
  "ssize_result r = (case r of ((rc, a), s, w) \<Rightarrow>
     Some (if rc < 0 then ((-1, a), s, hive_set_error (int_of_ssize rc) w) else ((rc, a), s, w)))"

text \<open>What the functions have in common: the check of the arguments, the check that the backend
  has the method, the call, and the ending; \<open>a\<close> is the second component of the result when
  the method is not called.\<close>

definition api_call ::
  "bool \<Rightarrow> ('s, 'r, int \<times> 'a) hive_op option
     \<Rightarrow> ((int \<times> 'a) \<times> 's \<times> 'r world \<Rightarrow> ((int \<times> 'a) \<times> 's \<times> 'r world) option) \<Rightarrow> 'a \<Rightarrow> ('s, 'r, int \<times> 'a) hive_op" where
  "api_call valid meth ending a s w =
     (if \<not> valid then api_error HIVEERR_INVALID_ARGS a s w
      else (case meth of
        None \<Rightarrow> api_error HIVEERR_NOT_SUPPORTED a s w
      | Some m \<Rightarrow> do { r \<leftarrow> m s w; ending r }))"

definition plain :: "('s, 'r, int) hive_op \<Rightarrow> ('s, 'r, int \<times> unit) hive_op" where
  "plain m s w = do { (rc, s', w') \<leftarrow> m s w; Some ((rc, ()), s', w') }"

definition unplain :: "('s, 'r, int \<times> unit) hive_op \<Rightarrow> ('s, 'r, int) hive_op" where
  "unplain m s w = do { ((rc, _), s', w') \<leftarrow> m s w; Some (rc, s', w') }"

text \<open>The first \<open>length\<close> bytes at \<open>from\<close>; a block that is shorter is read past its end.\<close>

definition block :: "bytes option \<Rightarrow> nat \<Rightarrow> bytes option" where
  "block from len = (case from of None \<Rightarrow> (if len = 0 then Some [] else None)
     | Some b \<Rightarrow> if len \<le> length b then Some (take len b) else None)"

section \<open>Files\<close>

definition hive_put_file_from_buffer ::
  "('s, 'r, 'c) HiveConnect option \<Rightarrow> bytes option \<Rightarrow> nat \<Rightarrow> bool \<Rightarrow> string option \<Rightarrow> ('s, 'r, int) hive_op" where
  "hive_put_file_from_buffer C from len encrypt filename = unplain
     (api_call (C \<noteq> None \<and> \<not> (from = None \<and> len \<noteq> 0) \<and> len \<le> HIVE_MAX_FILE_SIZE \<and> \<not> null_or_empty filename)
       (map_option (\<lambda>m s w. do { b \<leftarrow> block from len; plain (m b encrypt (the filename)) s w })
         (m_put_file_from_buffer (the C)))
       int_result ())"

text \<open>\<open>open\<close>, size by \<open>lseek\<close>, \<open>calloc\<close>, \<open>read\<close>, \<open>close\<close>, shared by the two functions that upload
  a file; \<open>lseek(fd, 0, SEEK_SET)\<close> cannot fail where \<open>SEEK_END\<close> did not.  \<open>Inl\<close> is the error to record.  The
  failed \<open>lseek\<close> is \<open>(size_t)-1\<close>, above the limit.\<close>

definition slurp :: "string \<Rightarrow> 'r world \<Rightarrow> (int + bytes) \<times> 'r world" where
  "slurp from w = (case c_open from RDONLY w of
     (None, w1) \<Rightarrow> (Inl (int_of_error (HIVE_SYS_ERROR (errno w1))), w1)
   | (Some fd, w1) \<Rightarrow> (case c_lseek_end fd w1 of (n, w2) \<Rightarrow>
       if n < 0 \<or> int HIVE_MAX_FILE_SIZE < n
       then (Inl (int_of_error (HIVE_GENERAL_ERROR HIVEERR_LIMIT_EXCEEDED)), c_close fd w2)
       else (case c_alloc w2 of (ok, w3) \<Rightarrow>
         if \<not> ok then (Inl (int_of_error (HIVE_GENERAL_ERROR HIVEERR_OUT_OF_MEMORY)), c_close fd w3)
         else (case c_read fd (nat n) w3 of ((nrd, buf), w4) \<Rightarrow>
           let w5 = c_close fd w4 in
           if nrd \<noteq> n then (Inl (int_of_error (HIVE_SYS_ERROR (errno w5))), w5) else (Inr buf, w5)))))"

definition hive_put_file ::
  "('s, 'r, 'c) HiveConnect option \<Rightarrow> string option \<Rightarrow> bool \<Rightarrow> string option \<Rightarrow> ('s, 'r, int) hive_op" where
  "hive_put_file C from encrypt filename s w =
     (if C = None \<or> null_or_empty from \<or> null_or_empty filename
      then Some (-1, s, hive_set_error (int_of_error (HIVE_GENERAL_ERROR HIVEERR_INVALID_ARGS)) w)
      else (case slurp (the from) w of
        (Inl e, w1) \<Rightarrow> Some (-1, s, hive_set_error e w1)
      | (Inr buf, w1) \<Rightarrow> hive_put_file_from_buffer C (Some buf) (length buf) encrypt filename s w1))"

definition hive_get_file_length ::
  "('s, 'r, 'c) HiveConnect option \<Rightarrow> string option \<Rightarrow> ('s, 'r, int) hive_op" where
  "hive_get_file_length C filename = unplain
     (api_call (C \<noteq> None \<and> \<not> null_or_empty filename)
       (map_option (\<lambda>m. plain (m (the filename))) (m_get_file_length (the C))) ssize_result ())"

text \<open>\<open>to\<close> is the size of the block behind the pointer.\<close>

definition hive_get_file_to_buffer ::
  "('s, 'r, 'c) HiveConnect option \<Rightarrow> string option \<Rightarrow> bool \<Rightarrow> nat option \<Rightarrow> nat \<Rightarrow> ('s, 'r, int \<times> bytes) hive_op" where
  "hive_get_file_to_buffer C filename decrypt to buflen =
     api_call (C \<noteq> None \<and> \<not> null_or_empty filename \<and> to \<noteq> None \<and> buflen \<noteq> 0)
       (map_option (\<lambda>m. m (the filename) decrypt (the to) buflen) (m_get_file_to_buffer (the C))) ssize_result []"

text \<open>What the two functions that download to a file do with the block of \<open>size\<close> bytes at the end:
  write as many bytes as the second call reported, which is an overrun when they are more than the
  block holds, and on a short write remove \<open>victim\<close>.\<close>

definition spill :: "string list \<Rightarrow> bytes \<Rightarrow> nat \<Rightarrow> int \<Rightarrow> 'r world \<Rightarrow> (int \<times> 'r world) option" where
  "spill fd got blksz fsize w =
     (if int blksz < fsize then None
      else (case c_write fd (take (nat fsize) (zero_padded got blksz)) w of
        (nwr, w1) \<Rightarrow> Some (nwr, c_close fd w1)))"

definition hive_get_file ::
  "('s, 'r, 'c) HiveConnect option \<Rightarrow> string option \<Rightarrow> bool \<Rightarrow> string option \<Rightarrow> ('s, 'r, int) hive_op" where
  "hive_get_file C filename decrypt to s w =
     (if C = None \<or> null_or_empty filename \<or> null_or_empty to
      then Some (-1, s, hive_set_error (int_of_error (HIVE_GENERAL_ERROR HIVEERR_INVALID_ARGS)) w)
      else do {
        (fsize, s1, w1) \<leftarrow> hive_get_file_length C filename s w;
        if fsize < 0 then Some (-1, s1, w1)
        else (case c_open (the to) CREAT_EXCL w1 of
          (None, w2) \<Rightarrow> Some (-1, s1, hive_set_error (int_of_error (HIVE_SYS_ERROR (errno w2))) w2)
        | (Some fd, w2) \<Rightarrow>
            if fsize = 0 then Some (0, s1, c_close fd w2)
            else (case c_alloc w2 of (ok, w3) \<Rightarrow>
              if \<not> ok
              then Some (-1, s1, hive_set_error (int_of_error (HIVE_GENERAL_ERROR HIVEERR_OUT_OF_MEMORY)) (c_close fd w3))
              else do {
                ((n, got), s2, w4) \<leftarrow> hive_get_file_to_buffer C filename decrypt (Some (nat fsize)) (nat fsize) s1 w3;
                if n < 0 then Some (-1, s2, c_close fd w4)
                else do {
                  (nwr, w5) \<leftarrow> spill fd got (nat fsize) n w4;
                  if nwr \<noteq> n
                  then (case c_unlink (the filename) w5 of (_, w6) \<Rightarrow>
                    Some (-1, s2, hive_set_error (int_of_error (HIVE_SYS_ERROR (errno w6))) w6))
                  else Some (n, s2, w5)
                }
              }))
      })"

definition hive_delete_file ::
  "('s, 'r, 'c) HiveConnect option \<Rightarrow> string option \<Rightarrow> ('s, 'r, int) hive_op" where
  "hive_delete_file C filename = unplain
     (api_call (C \<noteq> None \<and> \<not> null_or_empty filename)
       (map_option (\<lambda>m. plain (m (the filename))) (m_delete_file (the C))) int_result ())"

definition hive_list_files ::
  "('s, 'r, 'c) HiveConnect option \<Rightarrow> (string option \<Rightarrow> 'c \<Rightarrow> bool \<times> 'c) option \<Rightarrow> 'c \<Rightarrow> ('s, 'r, int \<times> 'c) hive_op" where
  "hive_list_files C callback ctx =
     api_call (C \<noteq> None \<and> callback \<noteq> None)
       (map_option (\<lambda>m. m (the callback) ctx) (m_list_files (the C))) int_result ctx"

section \<open>IPFS files\<close>

definition hive_ipfs_put_file_from_buffer ::
  "('s, 'r, 'c) HiveConnect option \<Rightarrow> bytes option \<Rightarrow> nat \<Rightarrow> bool \<Rightarrow> bool \<Rightarrow> ('s, 'r, int \<times> string option) hive_op" where
  "hive_ipfs_put_file_from_buffer C from len encrypt cid =
     api_call (C \<noteq> None \<and> \<not> (from = None \<and> len \<noteq> 0) \<and> len \<le> HIVE_MAX_FILE_SIZE \<and> cid)
       (map_option (\<lambda>m s w. do { b \<leftarrow> block from len; m b encrypt s w }) (m_ipfs_put_file_from_buffer (the C)))
       int_result None"

definition hive_ipfs_put_file ::
  "('s, 'r, 'c) HiveConnect option \<Rightarrow> string option \<Rightarrow> bool \<Rightarrow> bool \<Rightarrow> ('s, 'r, int \<times> string option) hive_op" where
  "hive_ipfs_put_file C from encrypt cid s w =
     (if C = None \<or> null_or_empty from \<or> \<not> cid
      then api_error HIVEERR_INVALID_ARGS None s w
      else (case slurp (the from) w of
        (Inl e, w1) \<Rightarrow> Some ((-1, None), s, hive_set_error e w1)
      | (Inr buf, w1) \<Rightarrow> hive_ipfs_put_file_from_buffer C (Some buf) (length buf) encrypt cid s w1))"

definition hive_ipfs_get_file_length ::
  "('s, 'r, 'c) HiveConnect option \<Rightarrow> string option \<Rightarrow> ('s, 'r, int) hive_op" where
  "hive_ipfs_get_file_length C cid = unplain
     (api_call (C \<noteq> None \<and> \<not> null_or_empty cid)
       (map_option (\<lambda>m. plain (m (the cid))) (m_ipfs_get_file_length (the C))) ssize_result ())"

definition hive_ipfs_get_file_to_buffer ::
  "('s, 'r, 'c) HiveConnect option \<Rightarrow> string option \<Rightarrow> bool \<Rightarrow> nat option \<Rightarrow> nat \<Rightarrow> ('s, 'r, int \<times> bytes) hive_op" where
  "hive_ipfs_get_file_to_buffer C cid decrypt to buflen =
     api_call (C \<noteq> None \<and> \<not> null_or_empty cid \<and> to \<noteq> None \<and> buflen \<noteq> 0)
       (map_option (\<lambda>m. m (the cid) decrypt (the to) buflen) (m_ipfs_get_file_to_buffer (the C))) ssize_result []"

text \<open>This one calls the method \<open>ipfs_get_file_to_buffer\<close> itself, without a check for null.\<close>

definition hive_ipfs_get_file ::
  "('s, 'r, 'c) HiveConnect option \<Rightarrow> string option \<Rightarrow> bool \<Rightarrow> string option \<Rightarrow> ('s, 'r, int) hive_op" where
  "hive_ipfs_get_file C cid decrypt to s w =
     (if C = None \<or> null_or_empty cid \<or> null_or_empty to
      then Some (-1, s, hive_set_error (int_of_error (HIVE_GENERAL_ERROR HIVEERR_INVALID_ARGS)) w)
      else do {
        (fsize, s1, w1) \<leftarrow> hive_ipfs_get_file_length C cid s w;
        if fsize < 0 then Some (-1, s1, w1)
        else (case c_open (the to) CREAT_EXCL w1 of
          (None, w2) \<Rightarrow> Some (-1, s1, hive_set_error (int_of_error (HIVE_SYS_ERROR (errno w2))) w2)
        | (Some fd, w2) \<Rightarrow>
            if fsize = 0 then Some (0, s1, c_close fd w2)
            else (case c_alloc w2 of (ok, w3) \<Rightarrow>
              if \<not> ok
              then Some (-1, s1, hive_set_error (int_of_error (HIVE_GENERAL_ERROR HIVEERR_OUT_OF_MEMORY)) (c_close fd w3))
              else do {
                m \<leftarrow> m_ipfs_get_file_to_buffer (the C);
                ((n, got), s2, w4) \<leftarrow> m (the cid) decrypt (nat fsize) (nat fsize) s1 w3;
                if n < 0 then Some (-1, s2, hive_set_error (int_of_ssize n) (c_close fd w4))
                else do {
                  (nwr, w5) \<leftarrow> spill fd got (nat fsize) n w4;
                  if nwr \<noteq> n
                  then (case c_unlink (the to) (hive_set_error (int_of_error (HIVE_SYS_ERROR (errno w5))) w5) of
                    (_, w6) \<Rightarrow> Some (-1, s2, w6))
                  else Some (n, s2, w5)
                }
              }))
      })"

section \<open>Keys\<close>

definition hive_put_value ::
  "('s, 'r, 'c) HiveConnect option \<Rightarrow> string option \<Rightarrow> bytes option \<Rightarrow> nat \<Rightarrow> bool \<Rightarrow> ('s, 'r, int) hive_op" where
  "hive_put_value C key val len encrypt = unplain
     (api_call (C \<noteq> None \<and> \<not> null_or_empty key \<and> val \<noteq> None \<and> len \<noteq> 0 \<and> len \<le> HIVE_MAX_VALUE_LEN)
       (map_option (\<lambda>m s w. do { b \<leftarrow> block val len; plain (m (the key) b encrypt) s w }) (m_put_value (the C)))
       int_result ())"

definition hive_set_value ::
  "('s, 'r, 'c) HiveConnect option \<Rightarrow> string option \<Rightarrow> bytes option \<Rightarrow> nat \<Rightarrow> bool \<Rightarrow> ('s, 'r, int) hive_op" where
  "hive_set_value C key val len encrypt = unplain
     (api_call (C \<noteq> None \<and> \<not> null_or_empty key \<and> val \<noteq> None \<and> len \<noteq> 0 \<and> len \<le> HIVE_MAX_VALUE_LEN)
       (map_option (\<lambda>m s w. do { b \<leftarrow> block val len; plain (m (the key) b encrypt) s w }) (m_set_value (the C)))
       int_result ())"

definition hive_get_values ::
  "('s, 'r, 'c) HiveConnect option \<Rightarrow> string option \<Rightarrow> bool \<Rightarrow> (string \<Rightarrow> bytes \<Rightarrow> 'c \<Rightarrow> bool \<times> 'c) option \<Rightarrow> 'c
     \<Rightarrow> ('s, 'r, int \<times> 'c) hive_op" where
  "hive_get_values C key decrypt callback ctx =
     api_call (C \<noteq> None \<and> \<not> null_or_empty key \<and> callback \<noteq> None)
       (map_option (\<lambda>m. m (the key) decrypt (the callback) ctx) (m_get_values (the C))) int_result ctx"

definition hive_delete_key ::
  "('s, 'r, 'c) HiveConnect option \<Rightarrow> string option \<Rightarrow> ('s, 'r, int) hive_op" where
  "hive_delete_key C key = unplain
     (api_call (C \<noteq> None \<and> \<not> null_or_empty key)
       (map_option (\<lambda>m. plain (m (the key))) (m_delete_key (the C))) int_result ())"

definition hive_set_access_token_expired :: "('s, 'r, 'c) HiveConnect option \<Rightarrow> ('s, 'r, int) hive_op" where
  "hive_set_access_token_expired C s w =
     (case C of
        None \<Rightarrow> Some (-1, s, hive_set_error (int_of_error (HIVE_GENERAL_ERROR HIVEERR_INVALID_ARGS)) w)
      | Some t \<Rightarrow> (case m_expire_token t of
          None \<Rightarrow> Some (0, s, w)
        | Some m \<Rightarrow> unplain (\<lambda>s w. do { r \<leftarrow> plain m s w; int_result r }) s w))"

definition hive_set_encrypt_key :: "('s, 'r, 'c) HiveConnect option \<Rightarrow> string option \<Rightarrow> ('s, 'r, int) hive_op" where
  "hive_set_encrypt_key C encrypt_key s w =
     Some (if C = None \<or> encrypt_key = None
           then (-1, s, hive_set_error (int_of_error (HIVE_GENERAL_ERROR HIVEERR_INVALID_ARGS)) w) else (0, s, w))"

definition hive_client_disconnect :: "('s, 'r, 'c) HiveConnect option \<Rightarrow> ('s, 'r, int) hive_op" where
  "hive_client_disconnect C s w =
     (case C of
        None \<Rightarrow> Some (0, s, w)
      | Some t \<Rightarrow> (case m_disconnect t of
          None \<Rightarrow> Some (0, s, w)
        | Some m \<Rightarrow> do { (_, s', w') \<leftarrow> m s w; Some (0, s', w') }))"

section \<open>Clients\<close>

text \<open>A client is its \<open>data_location\<close>, the options are the pointer to \<open>HiveOptions\<close> and the pointer in
  them.\<close>

definition hive_client_new :: "string option option \<Rightarrow> 'r world \<Rightarrow> string option \<times> 'r world" where
  "hive_client_new opts w =
     (let invalid = int_of_error (HIVE_GENERAL_ERROR HIVEERR_INVALID_ARGS) in
      case opts of
        None \<Rightarrow> (None, hive_set_error invalid w)
      | Some loc \<Rightarrow>
          if null_or_empty loc then (None, hive_set_error invalid w)
          else (case c_stat (the loc) w of (st, w1) \<Rightarrow>
            if st = None \<and> errno w1 \<noteq> ENOENT \<or> st \<noteq> None \<and> st \<noteq> Some Dir
            then (None, hive_set_error invalid w1)
            else (case (if st = None then mkdirs (the loc) w1 else (0, w1)) of (rc, w2) \<Rightarrow>
              if rc < 0 then (None, hive_set_error (int_of_error (HIVE_SYS_ERROR (errno w2))) w2)
              else (case c_alloc w2 of (ok, w3) \<Rightarrow>
                if \<not> ok
                then (None, hive_set_error (int_of_error (HIVE_GENERAL_ERROR HIVEERR_OUT_OF_MEMORY)) w3)
                else (Some (the loc), w3)))))"

definition hive_client_close :: "string option \<Rightarrow> int" where
  "hive_client_close client = 0"

text \<open>The options a caller passes, by the structure they are; each starts with its \<open>backendType\<close>.\<close>

datatype 'r HiveConnectOptions =
    Base_options int
  | OneDrive_options "'r OneDriveConnectOptions"
  | IPFS_options IPFSConnectOptions

fun backendType :: "'r HiveConnectOptions \<Rightarrow> int" where
  "backendType (Base_options t) = t"
| "backendType (OneDrive_options opts) = odo_backendType opts"
| "backendType (IPFS_options opts) = ico_backendType opts"

datatype ('j, 'r) connection = OneDrive "('j, 'r) OneDriveConnect" | IPFS IPFSConnect

text \<open>The loop over \<open>factory_methods\<close>; options of another structure than their type says are read as
  what they are not.\<close>

definition hive_client_connect ::
  "('j, 'r) ext \<Rightarrow> (bool \<Rightarrow> string \<Rightarrow> bool) \<Rightarrow> string option \<Rightarrow> 'r HiveConnectOptions option \<Rightarrow> 'r world
     \<Rightarrow> (('j, 'r) connection option \<times> 'r world) option" where
  "hive_client_connect X inet_pton client opts w =
     (case (client, opts) of
        (Some loc, Some options) \<Rightarrow>
          if backendType options = HiveBackendType_IPFS
          then (case options of
            IPFS_options o' \<Rightarrow> do { (cn, w') \<leftarrow> ipfs_client_connect X inet_pton o' w; Some (map_option IPFS cn, w') }
          | _ \<Rightarrow> None)
          else if backendType options = HiveBackendType_OneDrive
          then (case options of
            OneDrive_options o' \<Rightarrow> do { (cn, w') \<leftarrow> onedrive_client_connect X loc o' w; Some (map_option OneDrive cn, w') }
          | _ \<Rightarrow> None)
          else Some (None, hive_set_error (int_of_error (HIVE_GENERAL_ERROR HIVEERR_NOT_SUPPORTED)) w)
      | _ \<Rightarrow> Some (None, hive_set_error (int_of_error (HIVE_GENERAL_ERROR HIVEERR_INVALID_ARGS)) w))"

section \<open>What a backend promises\<close>

text \<open>An operation that keeps the invariant \<open>good\<close> of its connection and leaves nothing open.\<close>

definition preserves :: "('s \<Rightarrow> bool) \<Rightarrow> ('s, 'r, 'a) hive_op \<Rightarrow> bool" where
  "preserves good m \<longleftrightarrow> (\<forall>s w. good s \<longrightarrow> post (m s w) (\<lambda>(r, s', w'). good s' \<and> held w' = held w))"

lemma preservesI:
  "(\<And>s w. good s \<Longrightarrow> post (m s w) (\<lambda>(r, s', w'). good s' \<and> held w' = held w)) \<Longrightarrow> preserves good m"
  by (simp add: preserves_def)

lemma preservesD:
  "preserves good m \<Longrightarrow> good s \<Longrightarrow> post (m s w) (\<lambda>(r, s', w'). good s' \<and> held w' = held w)"
  by (simp add: preserves_def)

lemma preserves_result: "preserves good m \<Longrightarrow> m s w = Some (r, s', w') \<Longrightarrow> good s \<Longrightarrow> good s' \<and> held w' = held w"
  using preservesD [of good m s w] by (auto simp: post_def)

lemma preserves_plain: "preserves good m \<Longrightarrow> preserves good (plain m)"
  by (auto simp: preserves_def plain_def post_def bind_eq_Some_iff)

lemma preserves_return: "preserves good (\<lambda>s w. Some (r, s, w))"
  by (simp add: preserves_def post_def)

lemma preserves_unplain: "preserves good m \<Longrightarrow> preserves good (unplain m)"
  by (auto simp: preserves_def unplain_def post_def bind_eq_Some_iff)

lemma set_error_held [simp]: "held (hive_set_error e w) = held w"
  by (simp add: hive_set_error_def)

lemma ending_keeps:
  "post (int_result ((rc, a), s, w)) (\<lambda>(r, s', w'). s' = s \<and> held w' = held w)"
  "post (ssize_result ((rc, a), s, w)) (\<lambda>(r, s', w'). s' = s \<and> held w' = held w)"
  by (simp_all add: int_result_def ssize_result_def post_def hive_set_error_def)

lemma preserves_api_call:
  assumes "\<And>m. meth = Some m \<Longrightarrow> preserves good m" and "ending = int_result \<or> ending = ssize_result"
  shows "preserves good (api_call valid meth ending a)"
proof (rule preservesI)
  fix s :: 'a and w :: "'b world"
  assume "good s"
  then have "post (m s w) (\<lambda>((rc, a), s', w'). good s' \<and> held w' = held w)" if "meth = Some m" for m
    using preservesD [OF assms(1) [OF that]] by (simp add: post_def)
  then show "post (api_call valid meth ending a s w) (\<lambda>(r, s', w'). good s' \<and> held w' = held w)"
    using \<open>good s\<close> assms(2) unfolding api_call_def api_error_def
    by (intro hive_post) (auto simp: post_def int_result_def ssize_result_def split: if_splits)
qed

lemma preserves_block:
  "(\<And>b. preserves good (m b)) \<Longrightarrow> preserves good (\<lambda>s w. do { b \<leftarrow> block from len; m b s w })"
  by (auto simp: preserves_def post_def bind_eq_Some_iff)

lemma slurp_held: "slurp from w = (r, w') \<Longrightarrow> held w' = held w"
  by (auto simp: slurp_def Let_def open_live fs_live dest!: c_alloc_held split: option.splits prod.splits if_splits)

lemma spill_held: "spill fd got blksz n w = Some (k, w') \<Longrightarrow> live_http w' = live_http w \<and> open_fds w' = open_fds w - 1"
  by (auto simp: spill_def fs_live split: if_splits prod.splits)

text \<open>The calls of an application on its connection, with its own state \<open>'c\<close>; the last one is
  usually \<open>disconnect\<close>, which the steps do not enforce.\<close>

inductive api_step :: "('s, 'r, 'c) HiveConnect \<Rightarrow> 'c \<times> 's \<times> 'r world \<Rightarrow> 'c \<times> 's \<times> 'r world \<Rightarrow> bool" for V where
  put_file: "hive_put_file (Some V) p enc fn s w = Some (rc, s', w') \<Longrightarrow> api_step V (a, s, w) (a, s', w')"
| put_buffer: "hive_put_file_from_buffer (Some V) b n enc fn s w = Some (rc, s', w') \<Longrightarrow> api_step V (a, s, w) (a, s', w')"
| file_length: "hive_get_file_length (Some V) fn s w = Some (rc, s', w') \<Longrightarrow> api_step V (a, s, w) (a, s', w')"
| get_buffer: "hive_get_file_to_buffer (Some V) fn dec to n s w = Some (r, s', w') \<Longrightarrow> api_step V (a, s, w) (a, s', w')"
| get_file: "hive_get_file (Some V) fn dec p s w = Some (rc, s', w') \<Longrightarrow> api_step V (a, s, w) (a, s', w')"
| delete_file: "hive_delete_file (Some V) fn s w = Some (rc, s', w') \<Longrightarrow> api_step V (a, s, w) (a, s', w')"
| list_files: "hive_list_files (Some V) cb a s w = Some ((rc, a'), s', w') \<Longrightarrow> api_step V (a, s, w) (a', s', w')"
| ipfs_put_file: "hive_ipfs_put_file (Some V) p enc cid s w = Some (r, s', w') \<Longrightarrow> api_step V (a, s, w) (a, s', w')"
| ipfs_put_buffer: "hive_ipfs_put_file_from_buffer (Some V) b n enc cid s w = Some (r, s', w') \<Longrightarrow> api_step V (a, s, w) (a, s', w')"
| ipfs_file_length: "hive_ipfs_get_file_length (Some V) fn s w = Some (rc, s', w') \<Longrightarrow> api_step V (a, s, w) (a, s', w')"
| ipfs_get_buffer: "hive_ipfs_get_file_to_buffer (Some V) fn dec to n s w = Some (r, s', w') \<Longrightarrow> api_step V (a, s, w) (a, s', w')"
| ipfs_get_file: "hive_ipfs_get_file (Some V) fn dec p s w = Some (rc, s', w') \<Longrightarrow> api_step V (a, s, w) (a, s', w')"
| put_value: "hive_put_value (Some V) fn b n enc s w = Some (rc, s', w') \<Longrightarrow> api_step V (a, s, w) (a, s', w')"
| set_value: "hive_set_value (Some V) fn b n enc s w = Some (rc, s', w') \<Longrightarrow> api_step V (a, s, w) (a, s', w')"
| get_values: "hive_get_values (Some V) fn dec vcb a s w = Some ((rc, a'), s', w') \<Longrightarrow> api_step V (a, s, w) (a', s', w')"
| delete_key: "hive_delete_key (Some V) fn s w = Some (rc, s', w') \<Longrightarrow> api_step V (a, s, w) (a, s', w')"
| expire: "hive_set_access_token_expired (Some V) s w = Some (rc, s', w') \<Longrightarrow> api_step V (a, s, w) (a, s', w')"
| encrypt_key: "hive_set_encrypt_key (Some V) k s w = Some (rc, s', w') \<Longrightarrow> api_step V (a, s, w) (a, s', w')"
| disconnect: "hive_client_disconnect (Some V) s w = Some (rc, s', w') \<Longrightarrow> api_step V (a, s, w) (a, s', w')"

inductive api_run :: "('s, 'r, 'c) HiveConnect \<Rightarrow> 'c \<times> 's \<times> 'r world \<Rightarrow> 'c \<times> 's \<times> 'r world \<Rightarrow> bool" for V where
  start: "api_run V t t"
| step: "api_run V t u \<Longrightarrow> api_step V u v \<Longrightarrow> api_run V t v"

text \<open>The contract of a method table: every method in it keeps the invariant, for all arguments.\<close>

locale backend =
  fixes V :: "('s, 'r, 'c) HiveConnect" and good :: "'s \<Rightarrow> bool"
  assumes put_file: "m_put_file_from_buffer V = Some m1 \<Longrightarrow> preserves good (m1 from enc name)"
    and file_length: "m_get_file_length V = Some m2 \<Longrightarrow> preserves good (m2 name)"
    and get_file: "m_get_file_to_buffer V = Some m3 \<Longrightarrow> preserves good (m3 name dec room len)"
    and list_files: "m_list_files V = Some m4 \<Longrightarrow> preserves good (m4 callback ctx)"
    and delete_file: "m_delete_file V = Some m5 \<Longrightarrow> preserves good (m5 name)"
    and ipfs_put_file: "m_ipfs_put_file_from_buffer V = Some m6 \<Longrightarrow> preserves good (m6 from enc)"
    and ipfs_file_length: "m_ipfs_get_file_length V = Some m7 \<Longrightarrow> preserves good (m7 name)"
    and ipfs_get_file: "m_ipfs_get_file_to_buffer V = Some m8 \<Longrightarrow> preserves good (m8 name dec room len)"
    and put_value: "m_put_value V = Some m9 \<Longrightarrow> preserves good (m9 name from enc)"
    and set_value: "m_set_value V = Some m10 \<Longrightarrow> preserves good (m10 name from enc)"
    and get_values: "m_get_values V = Some m11 \<Longrightarrow> preserves good (m11 name dec vcallback ctx)"
    and delete_key: "m_delete_key V = Some m12 \<Longrightarrow> preserves good (m12 name)"
    and expire_token: "m_expire_token V = Some m13 \<Longrightarrow> preserves good m13"
    and disconnect: "m_disconnect V = Some m14 \<Longrightarrow> preserves good m14"
begin

lemma calls:
  "preserves good (hive_put_file_from_buffer (Some V) fr len enc fn)"
  "preserves good (hive_get_file_length (Some V) fn)"
  "preserves good (hive_get_file_to_buffer (Some V) fn dec to len)"
  "preserves good (hive_list_files (Some V) cb ctx)"
  "preserves good (hive_delete_file (Some V) fn)"
  "preserves good (hive_ipfs_put_file_from_buffer (Some V) fr len enc cid)"
  "preserves good (hive_ipfs_get_file_length (Some V) fn)"
  "preserves good (hive_ipfs_get_file_to_buffer (Some V) fn dec to len)"
  "preserves good (hive_put_value (Some V) fn fr len enc)"
  "preserves good (hive_set_value (Some V) fn fr len enc)"
  "preserves good (hive_get_values (Some V) fn dec vcb ctx)"
  "preserves good (hive_delete_key (Some V) fn)"
  unfolding hive_put_file_from_buffer_def hive_get_file_length_def hive_get_file_to_buffer_def hive_list_files_def
    hive_delete_file_def hive_ipfs_put_file_from_buffer_def hive_ipfs_get_file_length_def
    hive_ipfs_get_file_to_buffer_def hive_put_value_def hive_set_value_def hive_get_values_def hive_delete_key_def
  by (auto intro!: preserves_unplain preserves_api_call preserves_plain preserves_block
      intro: put_file file_length get_file list_files delete_file ipfs_put_file ipfs_file_length ipfs_get_file
        put_value set_value get_values delete_key)

lemma file_calls:
  "preserves good (hive_put_file (Some V) from enc fn)"
  "preserves good (hive_ipfs_put_file (Some V) from enc cid)"
  unfolding hive_put_file_def hive_ipfs_put_file_def api_error_def
  by (rule preservesI | intro hive_post | rule post_call [OF preservesD [OF calls(1)]]
      | rule post_call [OF preservesD [OF calls(6)]] | ((auto dest!: slurp_held)[1]; fail))+

lemma download_calls:
  "preserves good (hive_get_file (Some V) fn dec to)"
  "preserves good (hive_ipfs_get_file (Some V) fn dec to)"
  unfolding hive_get_file_def hive_ipfs_get_file_def
  by (rule preservesI | intro hive_post | rule post_call [OF preservesD [OF calls(2)]]
      | rule post_call [OF preservesD [OF calls(3)]] | rule post_call [OF preservesD [OF calls(7)]] 
      | rule post_call [OF preservesD [OF ipfs_get_file]] | rule postI
      | ((auto simp: open_live fs_live spill_held dest!: c_alloc_held)[1]; fail))+

lemma other_calls:
  "preserves good (hive_set_access_token_expired (Some V))"
  "preserves good (hive_set_encrypt_key (Some V) ekey)"
  "preserves good (hive_client_disconnect (Some V))"
  unfolding hive_set_access_token_expired_def hive_set_encrypt_key_def hive_client_disconnect_def
    unplain_def plain_def int_result_def
  by (rule preservesI | intro hive_post | (rule post_call [OF preservesD [OF expire_token]], force, assumption)
      | (rule post_call [OF preservesD [OF disconnect]], force, assumption) | ((auto split: if_splits)[1]; fail))+

lemma step_preserves:
  assumes "api_step V (a, s, w) (a', s', w')" and "good s"
  shows "good s' \<and> held w' = held w"
  using assms(1)
  by (cases rule: api_step.cases)
    (use assms(2) in \<open>blast dest: preserves_result [OF calls(1)] preserves_result [OF calls(2)]
        preserves_result [OF calls(3)] preserves_result [OF calls(4)] preserves_result [OF calls(5)]
        preserves_result [OF calls(6)] preserves_result [OF calls(7)] preserves_result [OF calls(8)]
        preserves_result [OF calls(9)] preserves_result [OF calls(10)] preserves_result [OF calls(11)]
        preserves_result [OF calls(12)] preserves_result [OF file_calls(1)] preserves_result [OF file_calls(2)]
        preserves_result [OF download_calls(1)] preserves_result [OF download_calls(2)]
        preserves_result [OF other_calls(1)] preserves_result [OF other_calls(2)]
        preserves_result [OF other_calls(3)]\<close>)+

lemma run_preserves:
  assumes "api_run V (a, s, w) t" and "good s"
  shows "good (fst (snd t)) \<and> held (snd (snd t)) = held w"
  using assms
proof (induction "(a, s, w)" t rule: api_run.induct)
  case (step t u)
  obtain b m v where t: "t = (b, m, v)" by (cases t)
  obtain b' m' v' where u: "u = (b', m', v')" by (cases u)
  show ?case using step step_preserves [of b m v b' m' v'] by (simp add: t u)
qed simp

end

section \<open>The two backends keep the contract\<close>

definition onedrive_good :: "('j, 'r) OneDriveConnect \<Rightarrow> ('j, 'r) OneDriveConnect \<Rightarrow> bool" where
  "onedrive_good first cn \<longleftrightarrow> quiet cn \<and> token_ok (od_token cn) \<and> same_config (od_token first) (od_token cn)
     \<and> keystore_path cn = keystore_path first"

definition ipfs_good :: "rpc_node list \<Rightarrow> IPFSConnect \<Rightarrow> bool" where
  "ipfs_good nodes cn \<longleftrightarrow> rpc_ok (ic_rpc cn) \<and> rpc_nodes (ic_rpc cn) = nodes"

lemma onedrive_preserves:
  assumes "\<And>cn w. quiet cn \<Longrightarrow> post (m cn w) (\<lambda>(r, cn', w'). keeps cn w cn' w')"
  shows "preserves (onedrive_good first) m"
proof (rule preservesI)
  fix cn :: "('a, 'b) OneDriveConnect" and w :: "'b world"
  assume g: "onedrive_good first cn"
  then have "quiet cn" by (simp add: onedrive_good_def)
  have "onedrive_good first cn' \<and> held w' = held w" if "keeps cn w cn' w'" for cn' w'
    using g that keeps_quiet [OF that \<open>quiet cn\<close>]
    by (simp add: onedrive_good_def keeps_def) (metis same_config_trans)
  then show "post (m cn w) (\<lambda>(r, cn', w'). onedrive_good first cn' \<and> held w' = held w)"
    using assms [OF \<open>quiet cn\<close>, of w] by (fastforce simp: post_def)
qed

lemma ipfs_preserves:
  assumes "\<And>cn w. rpc_ok (ic_rpc cn) \<Longrightarrow> post (m cn w) (\<lambda>(r, cn', w'). ipfs_keeps cn w cn' w')"
  shows "preserves (ipfs_good nodes) m"
proof (rule preservesI)
  fix cn :: IPFSConnect and w :: "'a world"
  assume g: "ipfs_good nodes cn"
  then have "rpc_ok (ic_rpc cn)" by (simp add: ipfs_good_def)
  show "post (m cn w) (\<lambda>(r, cn', w'). ipfs_good nodes cn' \<and> held w' = held w)"
    by (rule post_call [OF assms [OF \<open>rpc_ok (ic_rpc cn)\<close>]])
      (use g in \<open>auto simp: ipfs_good_def ipfs_keeps_def\<close>)
qed

interpretation onedrive: backend "onedrive_methods X" "onedrive_good first" for X first
  by unfold_locales (auto simp: onedrive_methods_def post_def expire_keeps
      intro: preserves_return onedrive_preserves [OF methods_keep(1)] onedrive_preserves [OF methods_keep(2)]
        onedrive_preserves [OF methods_keep(3)] onedrive_preserves [OF methods_keep(4)]
        onedrive_preserves [OF list_files_keeps] onedrive_preserves [OF put_value_keeps]
        onedrive_preserves [OF set_value_keeps] onedrive_preserves [OF get_values_keeps]
        onedrive_preserves [OF delete_key_keeps] onedrive_preserves [where m = "\<lambda>cn w. Some (0, expire_token cn, w)"])

interpretation ipfs: backend "ipfs_methods X" "ipfs_good nodes" for X nodes
  by unfold_locales (auto simp: ipfs_methods_def intro: preserves_return ipfs_preserves [OF put_keeps]
      ipfs_preserves [OF length_keeps] ipfs_preserves [OF get_keeps])

section \<open>Sessions\<close>

lemma connect_good:
  "hive_client_connect X inet_pton client opts w = Some (Some (OneDrive cn), w') \<Longrightarrow>
     onedrive_good cn cn \<and> held w' = held w"
  "hive_client_connect X inet_pton client opts w = Some (Some (IPFS cn'), w') \<Longrightarrow>
     ipfs_good (rpc_nodes (ic_rpc cn')) cn' \<and> held w' = held w"
  by (auto simp: hive_client_connect_def bind_eq_Some_iff onedrive_good_def ipfs_good_def hive_set_error_def
      dest!: postD [OF connect_keeps] postD [OF connect_post] split: option.splits if_splits HiveConnectOptions.splits)

text \<open>C1: Whatever functions of the client API an application calls on a connection that
  \<open>hive_client_connect\<close> returned, in any order and with any arguments, on either
  backend: every HTTP client and every descriptor opened on the way is closed again, the token of a
  OneDrive connection stays all set or all unset with the same client id and key store, the nodes of
  an IPFS connection stay the configured ones.\<close>

theorem api_session_ok:
  assumes "hive_client_connect X inet_pton client opts w = Some (Some connect, w0)"
  shows "case connect of
      OneDrive cn \<Rightarrow> \<forall>a' cn' w'. api_run (onedrive_methods X) (a, cn, w0) (a', cn', w') \<longrightarrow>
        held w' = held w \<and> token_ok (od_token cn') \<and> client_id (od_token cn') = client_id (od_token cn)
          \<and> keystore_path cn' = keystore_path cn
    | IPFS cn \<Rightarrow> \<forall>a' cn' w'. api_run (ipfs_methods X) (a, cn, w0) (a', cn', w') \<longrightarrow>
        held w' = held w \<and> rpc_ok (ic_rpc cn') \<and> rpc_nodes (ic_rpc cn') = rpc_nodes (ic_rpc cn)"
proof (cases connect)
  case (OneDrive cn)
  with connect_good(1) [of X inet_pton client opts w cn w0] assms onedrive.run_preserves [of X a cn w0 _ cn]
  show ?thesis by (force simp: onedrive_good_def same_config_def)
next
  case (IPFS cn)
  with connect_good(2) [of X inet_pton client opts w cn w0] assms
    ipfs.run_preserves [of X a cn w0 _ "rpc_nodes (ic_rpc cn)"]
  show ?thesis by (force simp: ipfs_good_def)
qed

section \<open>Failures are recorded\<close>

definition fails_recorded :: "int \<times> 's \<times> 'r world \<Rightarrow> bool" where
  "fails_recorded r \<longleftrightarrow> (case r of (rc, s, w) \<Rightarrow> rc = 0 \<or> rc = -1 \<and> hive_get_error w < 0)"

definition fails_recorded_with :: "(int \<times> 'a) \<times> 's \<times> 'r world \<Rightarrow> bool" where
  "fails_recorded_with r \<longleftrightarrow> (case r of ((rc, a), s, w) \<Rightarrow> rc = 0 \<or> rc = -1 \<and> hive_get_error w < 0)"

lemma int_call_recorded:
  "post (api_call valid meth int_result a s w) fails_recorded_with"
  unfolding api_call_def api_error_def int_result_def
  by (intro hive_post | rule postI
      | (auto simp: fails_recorded_with_def hive_set_error_def hive_get_error_def split: prod.splits if_splits)[1])+

lemma int_call_recorded_plain: "post (unplain (api_call valid meth int_result () ) s w) fails_recorded"
  using int_call_recorded [of valid meth "()" s w]
  by (fastforce simp: unplain_def post_def bind_eq_Some_iff fails_recorded_def fails_recorded_with_def)

lemma slurp_error: "slurp from w = (Inl e, w') \<Longrightarrow> e < 0"
  by (auto simp: slurp_def Let_def split: option.splits prod.splits if_splits)

text \<open>C31: The functions of the client API that return \<open>int\<close> return 0 or -1 and nothing
  else, and when they return -1 the last error of the thread is a negative error number, for every
  method table, whatever its methods return.\<close>

theorem api_failure_recorded:
  "post (hive_put_file C from enc fn s w) fails_recorded \<and>
   post (hive_put_file_from_buffer C buf len enc fn s w) fails_recorded \<and>
   post (hive_delete_file C fn s w) fails_recorded \<and>
   post (hive_list_files C cb ctx s w) fails_recorded_with \<and>
   post (hive_ipfs_put_file C from enc cid s w) fails_recorded_with \<and>
   post (hive_ipfs_put_file_from_buffer C buf len enc cid s w) fails_recorded_with \<and>
   post (hive_put_value C key buf len enc s w) fails_recorded \<and>
   post (hive_set_value C key buf len enc s w) fails_recorded \<and>
   post (hive_get_values C key dec vcb ctx s w) fails_recorded_with \<and>
   post (hive_delete_key C key s w) fails_recorded \<and>
   post (hive_set_access_token_expired C s w) fails_recorded \<and>
   post (hive_set_encrypt_key C ekey s w) fails_recorded"
proof -
  have b: "post (hive_put_file_from_buffer C buf len enc fn s w) fails_recorded"
    "post (hive_ipfs_put_file_from_buffer C buf len enc cid s w) fails_recorded_with" for buf len w
    unfolding hive_put_file_from_buffer_def hive_ipfs_put_file_from_buffer_def
    by (rule int_call_recorded_plain int_call_recorded)+
  have "post (hive_put_file C from enc fn s w) fails_recorded"
    "post (hive_ipfs_put_file C from enc cid s w) fails_recorded_with"
    unfolding hive_put_file_def hive_ipfs_put_file_def api_error_def
    by (intro hive_post | rule b | force simp: fails_recorded_def fails_recorded_with_def hive_set_error_def
        hive_get_error_def dest: slurp_error)+
  moreover have "post (hive_set_access_token_expired C s w) fails_recorded" "post (hive_set_encrypt_key C ekey s w) fails_recorded"
    unfolding hive_set_access_token_expired_def hive_set_encrypt_key_def unplain_def plain_def int_result_def
    by (intro hive_post | rule postI | (auto simp: fails_recorded_def hive_set_error_def hive_get_error_def bind_eq_Some_iff
          split: if_splits)[1])+
  ultimately show ?thesis
    unfolding hive_delete_file_def hive_list_files_def hive_put_value_def hive_set_value_def hive_get_values_def hive_delete_key_def
    by (intro conjI b int_call_recorded_plain int_call_recorded)
qed

section \<open>Uploading a file\<close>

lemma slurp_file:
  assumes "faults w = []" and "node_at w (path_key from) = Some (File d)"
  shows "slurp from w = (if HIVE_MAX_FILE_SIZE < length d
    then (Inl (int_of_error (HIVE_GENERAL_ERROR HIVEERR_LIMIT_EXCEEDED)), w) else (Inr d, w))"
  using assms by (cases "path_key from = []") (simp_all add: slurp_def libc_defs node_at_def Let_def)

text \<open>Uploading a file is uploading its contents from a buffer, on every backend, when the file can
  be read and is at most 32 MB long, with nothing else changed; a longer file is refused with
  \<open>HIVEERR_LIMIT_EXCEEDED\<close> before the backend is called.\<close>

theorem hive_put_file_is_buffer:
  assumes "faults w = []" and "node_at w (path_key from) = Some (File d)" and "from \<noteq> []" and "fn \<noteq> []"
  shows "hive_put_file (Some V) (Some from) enc (Some fn) s w =
      (if length d \<le> HIVE_MAX_FILE_SIZE then hive_put_file_from_buffer (Some V) (Some d) (length d) enc (Some fn) s w
       else Some (-1, s, hive_set_error (int_of_error (HIVE_GENERAL_ERROR HIVEERR_LIMIT_EXCEEDED)) w)) \<and>
    hive_ipfs_put_file (Some V) (Some from) enc True s w =
      (if length d \<le> HIVE_MAX_FILE_SIZE then hive_ipfs_put_file_from_buffer (Some V) (Some d) (length d) enc True s w
       else Some ((-1, None), s, hive_set_error (int_of_error (HIVE_GENERAL_ERROR HIVEERR_LIMIT_EXCEEDED)) w))"
  using assms by (simp add: hive_put_file_def hive_ipfs_put_file_def slurp_file null_or_empty_def)

section \<open>Downloading to a file\<close>

text \<open>The world in which the file \<open>to\<close> has just been created and opened.\<close>

definition created :: "string \<Rightarrow> 'r world \<Rightarrow> 'r world" where
  "created to w = (put_node (path_key to) (File []) w)\<lparr>open_fds := open_fds w + 1\<rparr>"

definition can_create :: "string \<Rightarrow> 'r world \<Rightarrow> bool" where
  "can_create to w \<longleftrightarrow> faults w = [] \<and> node_at w (path_key to) = None \<and> parent_dir w (path_key to) \<and> to \<noteq> []"

lemma open_created:
  "can_create to w \<Longrightarrow> c_open to CREAT_EXCL w = (Some (path_key to), created to w) \<and> c_alloc (created to w) = (True, created to w)"
  by (simp add: can_create_def created_def libc_defs Let_def)

text \<open>The two calls of a method table that a download makes: the length, then the contents into a
  block of that length.\<close>

definition downloads ::
  "('s, 'r, 'c) HiveConnect \<Rightarrow> string \<Rightarrow> bool \<Rightarrow> string \<Rightarrow> 's \<Rightarrow> 'r world \<Rightarrow> int \<Rightarrow> int \<Rightarrow> bytes \<Rightarrow> 's \<Rightarrow> 'r world \<Rightarrow> bool" where
  "downloads V fn dec to s w n n' got s' w' \<longleftrightarrow>
     (\<exists>ml mg s1 w1. m_get_file_length V = Some ml \<and> m_get_file_to_buffer V = Some mg \<and>
        ml fn s w = Some (n, s1, w1) \<and> can_create to w1 \<and>
        mg fn dec (nat n) (nat n) s1 (created to w1) = Some ((n', got), s', w')) \<and> fn \<noteq> [] \<and> 0 < n \<and> 0 \<le> n'"

lemma get_file_spills:
  assumes "downloads V fn dec to s w n n' got s' w'"
  shows "hive_get_file (Some V) (Some fn) dec (Some to) s w = do {
      (nwr, w5) \<leftarrow> spill (path_key to) got (nat n) n' w';
      if nwr \<noteq> n'
      then (case c_unlink fn w5 of (_, w6) \<Rightarrow>
        Some (-1, s', hive_set_error (int_of_error (HIVE_SYS_ERROR (errno w6))) w6))
      else Some (n', s', w5)
    }"
proof -
  from assms obtain ml mg s1 w1 where m: "m_get_file_length V = Some ml" "m_get_file_to_buffer V = Some mg"
    "ml fn s w = Some (n, s1, w1)" "mg fn dec (nat n) (nat n) s1 (created to w1) = Some ((n', got), s', w')"
    and c: "can_create to w1" and n: "fn \<noteq> []" "0 < n" "0 \<le> n'"
    by (auto simp: downloads_def)
  have "hive_get_file_length (Some V) (Some fn) s w = Some (n, s1, w1)"
    using m(1,3) n by (simp add: hive_get_file_length_def unplain_def api_call_def plain_def ssize_result_def null_or_empty_def)
  moreover have "hive_get_file_to_buffer (Some V) (Some fn) dec (Some (nat n)) (nat n) s1 (created to w1)
      = Some ((n', got), s', w')"
    using m(2,4) n by (simp add: hive_get_file_to_buffer_def api_call_def ssize_result_def null_or_empty_def)
  ultimately show ?thesis
    using n open_created [OF c] c by (simp add: hive_get_file_def null_or_empty_def can_create_def cong: if_cong)
qed

text \<open>C32: A download to a file leaves in the new file exactly the bytes the backend delivered, reports
  their number and closes the file.\<close>

theorem hive_get_file_saves:
  assumes "downloads V fn dec to s w n n' got s' w'" and "n' = int (length got)" and "n' \<le> n"
    and "faults w' = []" and "files w' (path_key to) = Some (File [])" and "path_key to \<noteq> []"
  shows "hive_get_file (Some V) (Some fn) dec (Some to) s w =
    Some (n', s', c_close (path_key to) (put_node (path_key to) (File got) w'))"
  using assms by (simp add: get_file_spills spill_def zero_padded_def libc_defs node_at_def)

text \<open>C33: When the disk takes only a part of a download, \<open>hive_get_file\<close> fails, leaves the
  truncated file behind, and removes the local file that happens to have the name of the remote one.\<close>

theorem hive_get_file_short_write:
  assumes "downloads V fn dec to s w n n' got s' w'" and "n' = int (length got)" and "n' \<le> n"
    and "faults w' = [Some (Short k)]" and "k < length got"
    and "files w' (path_key to) = Some (File [])" and "path_key to \<noteq> []"
    and "files w' (path_key fn) = Some (File d)" and "path_key fn \<noteq> path_key to" and "path_key fn \<noteq> []"
  shows "\<exists>v. hive_get_file (Some V) (Some fn) dec (Some to) s w = Some (-1, s', v) \<and>
    files v = (files w')(path_key to := Some (File (take k got)), path_key fn := None)"
  using assms by (simp add: get_file_spills spill_def zero_padded_def libc_defs node_at_def hive_set_error_def)

text \<open>\<open>hive_get_file\<close> writes as many bytes as the second call reports from a block of
  the size the first call reported: when the second number is larger (the file grew, or an error
  number came back as a positive \<open>ssize_t\<close>), it reads past the end of the block.\<close>

theorem hive_get_file_overread:
  assumes "downloads V fn dec to s w n n' got s' w'" and "n < n'"
  shows "hive_get_file (Some V) (Some fn) dec (Some to) s w = None"
  using assms by (auto simp: get_file_spills [OF assms(1)] spill_def downloads_def)

section \<open>Errors that look like lengths\<close>

text \<open>An error of a backend function of type \<open>ssize_t\<close> reaches the application as a
  length: for a name too long for the path buffer \<open>hive_get_file_length\<close> on OneDrive
  returns 2164260867, the error number, and records no error.\<close>

theorem long_name_reported_as_length:
  assumes "PATH_MAX \<le> length (FILES_DIR @ ''/'' @ fn)"
  shows "hive_get_file_length (Some (onedrive_methods X)) (Some fn) cn w = Some (2164260867, cn, w)"
proof -
  have "fn \<noteq> []" "int PATH_MAX \<le> int (length (FILES_DIR @ ''/'' @ fn))"
    using assms by (auto simp: hive_const)
  moreover have "ssize_of_error (HIVE_GENERAL_ERROR HIVEERR_BUFFER_TOO_SMALL) = 2164260867"
    by (simp add: ssize_of_error_def HIVE_GENERAL_ERROR_def HIVE_MK_ERROR_def hive_const)
  ultimately show ?thesis
    by (simp add: hive_get_file_length_def unplain_def api_call_def plain_def ssize_result_def null_or_empty_def
        onedrive_methods_def od_get_file_length_def c_snprintf_def)
qed

section \<open>Making a client\<close>

lemma hive_client_new_makes_dir:
  assumes "faults w = []" and "loc \<noteq> []" and "length loc < PATH_MAX" and "no_file_on (path_key loc) (files w)"
  shows "\<exists>w'. hive_client_new (Some (Some loc)) w = (Some loc, w') \<and> node_at w' (path_key loc) = Some Dir \<and>
    files w' = (if node_at w (path_key loc) = None then add_dirs (path_key loc) (files w) else files w)"
proof (cases "node_at w (path_key loc)")
  case None
  obtain w' where "mkdirs loc (set_errno ENOENT w) = (0, w')" "faults w' = []"
     "files w' = add_dirs (path_key loc) (files w)" "node_at w' (path_key loc) = Some Dir"
    using mkdirs_spec [of "set_errno ENOENT w" loc] assms by (auto simp: set_errno_def)
  with None assms show ?thesis
    by (simp add: hive_client_new_def null_or_empty_def libc_defs)
next
  case (Some n)
  have "n = Dir"
    using Some assms(4) by (cases n) (auto simp: no_file_on_def node_at_def split: if_splits)
  then show ?thesis
    using Some assms by (simp add: hive_client_new_def null_or_empty_def libc_defs)
qed

section \<open>Concrete sessions\<close>

lemma api_session_ok_witness:
  "\<exists>cn w0. hive_client_connect (fixed_status 200) sample_pton (Some ''/d'') (Some (OneDrive_options sample_options))
     stored_world = Some (Some (OneDrive cn), w0) \<and> held w0 = (0, 0) \<and> token_ok (od_token (expire_token cn))"
proof -
  let ?X = "fixed_status 200"
  obtain cn w0 where "onedrive_client_connect ?X ''/d'' sample_options stored_world = Some (Some cn, w0)"
    using sample_connects by (auto split: option.splits prod.splits)
  then have c: "hive_client_connect ?X sample_pton (Some ''/d'') (Some (OneDrive_options sample_options)) stored_world
      = Some (Some (OneDrive cn), w0)"
    by (simp add: hive_client_connect_def sample_options_def hive_const)
  have "hive_set_access_token_expired (Some (onedrive_methods ?X)) cn w0 = Some (0, expire_token cn, w0)"
    by (simp add: hive_set_access_token_expired_def onedrive_methods_def unplain_def plain_def int_result_def)
  then have "api_run (onedrive_methods ?X) ((), cn, w0) ((), expire_token cn, w0)"
    by (intro api_run.step [OF api_run.start] api_step.expire)
  with api_session_ok [OF c, of "()"] c show ?thesis by (auto simp: stored_world_def)
qed

text \<open>The method table of OneDrive, for callbacks without a context.\<close>

definition drive :: "(json, unit) ext \<Rightarrow> ((json, unit) OneDriveConnect, unit, unit) HiveConnect" where
  "drive X = onedrive_methods X"

lemma hive_put_file_is_buffer_witness:
  "let w = put_node [''f''] (File ''xy'') (calm_world ()); C = Some (drive (fixed_status 401)) in
     hive_put_file C (Some ''f'') False (Some ''g'') sample_conn w
       = hive_put_file_from_buffer C (Some ''xy'') 2 False (Some ''g'') sample_conn w"
proof -
  let ?w = "put_node [''f''] (File ''xy'') (calm_world ())"
  have "faults ?w = []" "node_at ?w (path_key ''f'') = Some (File ''xy'')"
    by (simp_all add: put_node_def node_at_def path_key_def)
  from hive_put_file_is_buffer [OF this, of "''g''" "drive (fixed_status 401)" False sample_conn]
  show ?thesis by (simp add: hive_const Let_def numeral_2_eq_2)
qed

lemma hive_get_file_saves_witness:
  "\<exists>w'. hive_get_file (Some (drive (one_file ''hello''))) (Some ''f'') False (Some ''out'') sample_conn (calm_world ())
     = Some (5, sample_conn, w') \<and> files w' [''out''] = Some (File ''hello'')"
proof -
  let ?X = "one_file ''hello''" and ?V = "drive (one_file ''hello'')"
  have k: "path_key ''out'' = [''out'']" by (simp add: path_key_def)
  have n: "length (FILES_DIR @ ''/'' @ ''f'') < 900" by (simp add: hive_const)
  obtain w1 where l: "od__get_file_length ?X (FILES_DIR @ ''/'' @ ''f'') sample_conn (calm_world ()) = Some (5, sample_conn, w1)"
    and w1: "serene w1" "files w1 = (\<lambda>_. None)"
    using one_file_length [OF calm_serene _ _ n, of "''hello''"] by auto
  have c: "can_create ''out'' w1"
    using w1 by (simp add: can_create_def serene_def node_at_def parent_dir_def k)
  have s: "serene (created ''out'' w1)" using w1(1) by (simp add: created_def serene_def put_node_def)
  obtain w2 where g: "od__get_file_to_buffer ?X (FILES_DIR @ ''/'' @ ''f'') 5 5 sample_conn (created ''out'' w1)
      = Some ((5, ''hello''), sample_conn, w2)" and w2: "serene w2" "files w2 = files (created ''out'' w1)"
    using one_file_download [OF s _ _ n, of "''hello''" 5 5] by auto
  have "downloads ?V ''f'' False ''out'' sample_conn (calm_world ()) 5 5 ''hello'' sample_conn w2"
    using l g c PATH_MAX_def
    by (simp add: downloads_def drive_def onedrive_methods_def od_get_file_length_def od_get_file_to_buffer_def c_snprintf_def short_name)
  from hive_get_file_saves [OF this] w2 show ?thesis
    by (simp add: serene_def created_def put_node_def k c_close_def)
qed

text \<open>A backend of one file that is \<open>n\<close> bytes long when asked, while the download reports \<open>n'\<close> and
  delivers \<open>got\<close>; meanwhile the disk fills up.\<close>

definition fickle_methods :: "int \<Rightarrow> int \<Rightarrow> bytes \<Rightarrow> nat \<Rightarrow> (unit, unit, unit) HiveConnect" where
  "fickle_methods n n' got room = \<lparr>
     m_put_file_from_buffer = None,
     m_get_file_length = Some (\<lambda>_ s w. Some (n, s, w)),
     m_get_file_to_buffer = Some (\<lambda>_ _ _ _ s w. Some ((n', got), s, w\<lparr>faults := [Some (Short room)]\<rparr>)),
     m_list_files = None, m_delete_file = None,
     m_ipfs_put_file_from_buffer = None, m_ipfs_get_file_length = None, m_ipfs_get_file_to_buffer = None,
     m_put_value = None, m_set_value = None, m_get_values = None, m_delete_key = None,
     m_disconnect = None, m_expire_token = None\<rparr>"

lemma fickle_downloads:
  assumes "0 < n" "0 \<le> n'" "files w [''out''] = None" "faults w = []"
  shows "downloads (fickle_methods n n' got room) ''f'' dec ''out'' () w n n' got ()
    ((created ''out'' w)\<lparr>faults := [Some (Short room)]\<rparr>)"
  using assms by (simp add: downloads_def fickle_methods_def can_create_def node_at_def parent_dir_def path_key_def)

lemma hive_get_file_short_write_witness:
  "\<exists>w'. hive_get_file (Some (fickle_methods 5 5 ''hello'' 2)) (Some ''f'') False (Some ''out'') ()
       (put_node [''f''] (File ''precious'') (calm_world ())) = Some (-1, (), w')
     \<and> files w' [''out''] = Some (File ''he'') \<and> files w' [''f''] = None"
proof -
  let ?w = "put_node [''f''] (File ''precious'') (calm_world ())"
  have "downloads (fickle_methods 5 5 ''hello'' 2) ''f'' False ''out'' () ?w 5 5 ''hello'' ()
      ((created ''out'' ?w)\<lparr>faults := [Some (Short 2)]\<rparr>)"
    by (rule fickle_downloads) (simp_all add: put_node_def)
  from hive_get_file_short_write [OF this, of 2 "''precious''"] show ?thesis
    by (auto simp: created_def put_node_def path_key_def)
qed

lemma hive_get_file_overread_witness:
  "hive_get_file (Some (fickle_methods 5 (ssize_of_error (HIVE_GENERAL_ERROR HIVEERR_BUFFER_TOO_SMALL)) [] 9))
     (Some ''f'') False (Some ''out'') () (calm_world ()) = None"
proof -
  have "2 ^ 31 \<le> ssize_of_error (HIVE_GENERAL_ERROR HIVEERR_BUFFER_TOO_SMALL)"
    unfolding HIVE_GENERAL_ERROR_def by (rule ssize_of_error_ge)
  then show ?thesis by (intro hive_get_file_overread [OF fickle_downloads]) simp_all
qed

lemma long_name_reported_as_length_witness:
  "hive_get_file_length (Some (onedrive_methods (fixed_status 200))) (Some (replicate 5000 (CHR ''a''))) sample_conn (calm_world ())
     = Some (2164260867, sample_conn, calm_world ())"
  by (rule long_name_reported_as_length) (simp add: hive_const)

end
