(* ===== verification/Hive_Drive.thy ===== *)
theory Hive_Drive
  imports Hive_Api
begin

text \<open>
  The client API over OneDrive, seen from above: on a drive that behaves as its service documents it, the calls on
  keys and on files implement a store of two maps, from keys to lists of values and from names to contents.

  The drive is the parameter \<open>curl_perform\<close>; \<open>drive_laws\<close> states what it answers to the requests the backend makes
  (a question about a file, a download, an upload, a deletion, a listing), in the terms of a \<open>drive_view\<close> that says
  which contents a state of the service holds.  The first lemmas say what each request of \<open>onedrive.c\<close> does on such a
  drive; \<open>holds\<close> relates a state of the drive to a \<open>store\<close>; then each API function is shown to answer and to change
  the store as \<open>answers_with\<close> and \<open>effect\<close> say, and \<open>api_refines_store\<close> lifts it to sequences of calls.
  The last section builds a drive (the sample drive) that obeys every law.
\<close>

section \<open>Requests, as a server sees them\<close>

definition req_url :: "url_op list \<Rightarrow> string" where
  "req_url us = foldl (\<lambda>u z. case z of
     Url_set part v _ _ \<Rightarrow> if part = CURLUPART_URL then (case v of None \<Rightarrow> [] | Some s \<Rightarrow> s) else u) [] us"

definition req_meth :: "curl_opt list \<Rightarrow> string" where
  "req_meth os = foldl (\<lambda>m z. case z of
     CURLOPT_HTTPGET _ \<Rightarrow> ''GET'' | CURLOPT_POST _ \<Rightarrow> ''POST'' | CURLOPT_CUSTOMREQUEST s \<Rightarrow> s | _ \<Rightarrow> m) ''GET'' os"

definition req_body :: "curl_opt list \<Rightarrow> bytes" where
  "req_body os = foldl (\<lambda>b z. case z of
     CURLOPT_POSTFIELDS d \<Rightarrow> (case d of None \<Rightarrow> [] | Some s \<Rightarrow> s) | _ \<Rightarrow> b) [] os"

section \<open>A drive\<close>

text \<open>The names of files that have no characters with a meaning in a URL, and the paths the backend makes of
  them; the drive takes two names that differ in case only for one.\<close>

definition name_char :: "char \<Rightarrow> bool" where
  "name_char c \<longleftrightarrow> c_tolower c \<in> set ''abcdefghijklmnopqrstuvwxyz0123456789_-.''"

definition plain_name :: "string \<Rightarrow> bool" where
  "plain_name n \<longleftrightarrow> n \<noteq> [] \<and> list_all name_char n \<and> last n \<noteq> CHR ''.'' \<and> length n < 256"

definition drive_path :: "string \<Rightarrow> bool" where
  "drive_path p \<longleftrightarrow> (\<exists>n. plain_name n \<and> (p = FILES_DIR @ ''/'' @ n \<or> p = KEYS_DIR @ ''/'' @ n))"

definition fold_case :: "string \<Rightarrow> string" where
  "fold_case p = map c_tolower p"

text \<open>The answer to a question about a file: its size and the URL of its contents.\<close>

definition file_info :: "('j, 'r) ext \<Rightarrow> 'j \<Rightarrow> nat \<Rightarrow> string \<Rightarrow> bool" where
  "file_info X j n url \<longleftrightarrow> (\<exists>si ui.
     cJSON_GetObjectItemCaseSensitive X j ''size'' = Some si \<and> cJSON_IsNumber X si \<and> j_valuelong X si = int n \<and>
     cJSON_GetObjectItemCaseSensitive X j DOWNLOAD_URL = Some ui \<and> cJSON_IsString X ui \<and> j_string X ui \<noteq> None \<and>
     j_valuestring X ui = Some url \<and> url \<noteq> [])"

text \<open>A listing in one page.\<close>

definition file_list :: "('j, 'r) ext \<Rightarrow> 'j \<Rightarrow> string list \<Rightarrow> bool" where
  "file_list X j names \<longleftrightarrow> (\<exists>sub.
     cJSON_GetObjectItemCaseSensitive X j ''value'' = Some sub \<and> cJSON_IsArray X sub \<and>
     cJSON_GetObjectItemCaseSensitive X j ''@odata.nextLink'' = None \<and>
     list_all (valid_item X) (j_items X sub) \<and> map (name_of X) (j_items X sub) = map Some names)"

text \<open>A transfer that ends well with the given status; an answer that is collected comes in one piece,
  which for libcurl is at most 16 kB.\<close>

definition replies :: "transfer \<Rightarrow> int \<Rightarrow> bool" where
  "replies t status \<longleftrightarrow> t_code t = 0 \<and> t_info t = 0 \<and> t_status t = status"

definition short_reply :: "transfer \<Rightarrow> bytes \<Rightarrow> bool" where
  "short_reply t b \<longleftrightarrow> t_chunks t = [b] \<and> b \<noteq> [] \<and> length b < 2 ^ 14"

text \<open>What the state of the outside world is for a drive: the contents of its files, by folded path; the
  download URL handed out for a path, good as long as the drive does not change; and the names in the
  folder of the files, \<open>None\<close> before there is one.\<close>

record 'r drive_view =
  content :: "'r \<Rightarrow> string \<Rightarrow> bytes option"
  link :: "'r \<Rightarrow> string \<Rightarrow> string"
  listing :: "'r \<Rightarrow> string list option"

definition same_state :: "'r drive_view \<Rightarrow> 'r \<Rightarrow> 'r \<Rightarrow> bool" where
  "same_state D r r' \<longleftrightarrow> content D r' = content D r \<and> (listing D r' = None \<longleftrightarrow> listing D r = None)"

text \<open>What the Graph API documents of the requests of the backend; a listing of at most eight files is
  taken to fit one page and one piece.\<close>

definition answers_info :: "('j, 'r) ext \<Rightarrow> 'r drive_view \<Rightarrow> bool" where
  "answers_info X D \<longleftrightarrow> (\<forall>os us r t r' p.
     drive_path p \<and> curl_perform X os us r = (t, r') \<and> req_meth os = ''GET'' \<and> req_url us = APP_ROOT @ '':'' @ p \<longrightarrow>
       same_state D r r' \<and>
       (\<exists>b. short_reply t b \<and>
         (case content D r (fold_case p) of
            None \<Rightarrow> replies t HttpStatus_NotFound
          | Some d \<Rightarrow> replies t HttpStatus_OK \<and>
              (\<exists>j. cJSON_Parse X (takeWhile (\<lambda>c. c \<noteq> NUL) b) = Some j \<and> file_info X j (length d) (link D r' p)))))"

definition answers_download :: "('j, 'r) ext \<Rightarrow> 'r drive_view \<Rightarrow> bool" where
  "answers_download X D \<longleftrightarrow> (\<forall>os us r t r' p d.
     drive_path p \<and> curl_perform X os us r = (t, r') \<and> req_meth os = ''GET'' \<and> req_url us = link D r p
       \<and> content D r (fold_case p) = Some d \<longrightarrow>
       same_state D r r' \<and> replies t HttpStatus_OK \<and> concat (t_chunks t) = d)"

definition answers_upload :: "('j, 'r) ext \<Rightarrow> 'r drive_view \<Rightarrow> bool" where
  "answers_upload X D \<longleftrightarrow> (\<forall>os us r t r' p.
     drive_path p \<and> curl_perform X os us r = (t, r') \<and> req_meth os = ''PUT''
       \<and> req_url us = APP_ROOT @ '':'' @ p @ '':/content'' \<and> length (req_body os) \<le> 4 * 1024 * 1024 \<longrightarrow>
       content D r' = (content D r)(fold_case p \<mapsto> req_body os) \<and> (listing D r \<noteq> None \<longrightarrow> listing D r' \<noteq> None) \<and>
       (replies t HttpStatus_OK \<or> replies t HttpStatus_Created))"

definition answers_delete :: "('j, 'r) ext \<Rightarrow> 'r drive_view \<Rightarrow> bool" where
  "answers_delete X D \<longleftrightarrow> (\<forall>os us r t r' p.
     drive_path p \<and> curl_perform X os us r = (t, r') \<and> req_meth os = ''DELETE''
       \<and> req_url us = APP_ROOT @ '':'' @ p @ '':'' \<longrightarrow>
       content D r' = (content D r)(fold_case p := None) \<and> (listing D r \<noteq> None \<longrightarrow> listing D r' \<noteq> None) \<and>
       replies t (if content D r (fold_case p) = None then HttpStatus_NotFound else HttpStatus_NoContent))"

definition answers_list :: "('j, 'r) ext \<Rightarrow> 'r drive_view \<Rightarrow> bool" where
  "answers_list X D \<longleftrightarrow> (\<forall>os us r t r' names.
     curl_perform X os us r = (t, r') \<and> req_meth os = ''GET'' \<and> req_url us = APP_ROOT @ '':'' @ FILES_DIR @ '':/children''
       \<and> listing D r = Some names \<and> length names \<le> 8 \<longrightarrow>
       same_state D r r' \<and> replies t HttpStatus_OK \<and>
       (\<exists>b j. short_reply t b \<and> cJSON_Parse X (takeWhile (\<lambda>c. c \<noteq> NUL) b) = Some j \<and> file_list X j names))"

definition stored_names :: "'r drive_view \<Rightarrow> 'r \<Rightarrow> string set" where
  "stored_names D r = {k. CHR ''/'' \<notin> set k \<and> content D r (''/files/'' @ k) \<noteq> None}"

definition listing_agrees :: "'r drive_view \<Rightarrow> bool" where
  "listing_agrees D \<longleftrightarrow> (\<forall>r. case listing D r of
     None \<Rightarrow> stored_names D r = {}
   | Some names \<Rightarrow> distinct (map fold_case names) \<and> set (map fold_case names) = stored_names D r)"

definition drive_laws :: "('j, 'r) ext \<Rightarrow> 'r drive_view \<Rightarrow> bool" where
  "drive_laws X D \<longleftrightarrow> answers_info X D \<and> answers_download X D \<and> answers_upload X D \<and> answers_delete X D
     \<and> answers_list X D \<and> listing_agrees D"

text \<open>A connection whose token stays in force, in a world with memory enough, zeroed as it is given out.\<close>

definition settled :: "('j, 'r) OneDriveConnect \<Rightarrow> 'r world \<Rightarrow> bool" where
  "settled cn w \<longleftrightarrow> faults w = [] \<and> curl_initialized w \<and> (\<forall>t i. heap_junk w t i = NUL)
     \<and> (\<forall>t. \<not> timer_gt (clock w t) (expires_at (od_token cn))) \<and> access_token (od_token cn) \<noteq> None"

section \<open>The requests of the backend\<close>

lemma req_prepared [simp]:
  "req_meth (hc_opts (prepare_request c)) = req_meth (hc_opts c)"
  "req_body (hc_opts (prepare_request c)) = req_body (hc_opts c)"
  "req_meth (hc_opts (http_client_enable_response_body c)) = req_meth (hc_opts c)"
  by (simp_all add: req_meth_def req_body_def prepare_request_def http_client_enable_response_body_def setopt_def Let_def
      split: option.splits)

lemma settled_steps:
  "settled cn w \<Longrightarrow> settled cn (w\<lparr>tick := n\<rparr>)" "settled cn w \<Longrightarrow> settled cn (w\<lparr>live_http := m\<rparr>)"
  "settled cn w \<Longrightarrow> settled cn (w\<lparr>remote := r\<rparr>)" "settled cn w \<Longrightarrow> settled cn (http_client_close w)"
  by (simp_all add: settled_def http_client_close_def)

lemma settled_start:
  assumes "settled cn w"
  defines "v \<equiv> w\<lparr>tick := Suc (tick w), live_http := live_http w + 1\<rparr>"
  shows "od_check_expire X cn w = Some (0, cn, w\<lparr>tick := Suc (tick w)\<rparr>)"
    and "http_client_new X (w\<lparr>tick := Suc (tick w)\<rparr>) = (Some fresh_client, v)"
    and "settled cn v" and "remote v = remote w"
  using assms ready_check [of cn w X] new_ok [of "w\<lparr>tick := Suc (tick w)\<rparr>" X]
  by (auto simp: settled_def ready_def)

lemma start_request_eq:
  "url \<noteq> [] \<Longrightarrow> start_request X c url m = Some (c\<lparr>hc_url := hc_url c @ [Url_set CURLUPART_URL (Some url) True False],
     hc_opts := hc_opts c @ [case m of HTTP_METHOD_GET \<Rightarrow> CURLOPT_HTTPGET 1 | HTTP_METHOD_POST \<Rightarrow> CURLOPT_POST 1
       | HTTP_METHOD_PUT \<Rightarrow> CURLOPT_CUSTOMREQUEST ''PUT'' | HTTP_METHOD_DELETE \<Rightarrow> CURLOPT_CUSTOMREQUEST ''DELETE''
       | HTTP_METHOD_PATCH \<Rightarrow> CURLOPT_CUSTOMREQUEST ''PATCH'']\<rparr>)"
  by (simp add: start_request_def http_client_set_url_def curl_url_set_def http_client_set_method_def setopt_def Let_def)

lemma authorization_eq:
  "settled cn w \<Longrightarrow> authorization cn (c, w)
     = Some (c\<lparr>hc_hdr := hc_hdr c @ [''Authorization: '' @ the (access_token (od_token cn))]\<rparr>, w)"
  by (auto simp: settled_def authorization_def set_header_def http_client_set_header_def get_bearer_token_def
      c_alloc_def take_fault_def)

lemma eaten_request:
  assumes "write_fn_of (hc_opts c) = Eat_output"
    and "curl_perform X (hc_opts (prepare_request c)) (hc_url c) (remote w) = (t, r)" and "replies t status"
    and "status \<noteq> HttpStatus_Unauthorized"
  shows "\<exists>c'. authorized_request X c cn w = Some (Inr status, c', cn, w\<lparr>remote := r\<rparr>)"
  using assms by (auto simp: authorized_request_def http_client_request_def Let_def feed_eat replies_def
      http_client_get_response_code_def resp_code_of_def hive_const)

lemma collected_request:
  assumes "hc_body c = empty_body" and "settled cn w"
    and "curl_perform X (hc_opts (prepare_request (http_client_enable_response_body c))) (hc_url c) (remote w) = (t, r)"
    and "replies t status" and "short_reply t b" and "status \<noteq> HttpStatus_Unauthorized"
  shows "\<exists>c'. authorized_request X (http_client_enable_response_body c) cn w
      = Some (Inr status, c', cn, w\<lparr>remote := r, tick := Suc (tick w)\<rparr>)
    \<and> rb_used (hc_body c') \<noteq> 0 \<and> c_string_in (rb_data (hc_body c')) = Some (takeWhile (\<lambda>c. c \<noteq> NUL) b)"
proof -
  let ?c = "http_client_enable_response_body c" and ?w = "w\<lparr>remote := r\<rparr>"
  have wf: "write_fn_of (hc_opts ?c) = Response_body" "hc_body ?c = empty_body" "hc_url ?c = hc_url c"
    using assms(1) by (simp_all add: http_client_enable_response_body_def setopt_def write_fn_of_def)
  have "faults ?w = []" "\<forall>t i. heap_junk ?w t i = NUL" using assms(2) by (simp_all add: settled_def)
  then obtain d where "http_response_body_write_callback b empty_body ?w = Some (length b, d, ?w\<lparr>tick := Suc (tick ?w)\<rparr>)"
    "rb_used d \<noteq> 0" "c_string_in (rb_data d) = Some (takeWhile (\<lambda>c. c \<noteq> NUL) b)"
    using callback_once [of ?w b] assms(5) by (auto simp: short_reply_def)
  then show ?thesis
    using wf assms(3-6)
    by (auto simp: authorized_request_def http_client_request_def Let_def write_cb_def short_reply_def replies_def
        http_client_get_response_code_def resp_code_of_def hive_const)
qed

section \<open>Files\<close>

definition short_path :: "string \<Rightarrow> bool" where
  "short_path p \<longleftrightarrow> drive_path p \<and> length p < 950"

text \<open>What a request leaves behind that does not change the drive.\<close>

definition same_drive :: "'r drive_view \<Rightarrow> ('j, 'r) OneDriveConnect \<Rightarrow> 'r world \<Rightarrow> 'r world \<Rightarrow> bool" where
  "same_drive D cn w w' \<longleftrightarrow> settled cn w' \<and> same_state D (remote w) (remote w') \<and> files w' = files w"

lemma same_drive_steps:
  "same_drive D cn w v \<Longrightarrow> same_drive D cn w (http_client_close v)"
  "same_drive D cn w v \<Longrightarrow> same_drive D cn v u \<Longrightarrow> same_drive D cn w u"
  "same_drive D cn (w\<lparr>tick := n, live_http := k\<rparr>) v \<Longrightarrow> same_drive D cn w v"
  by (auto simp: same_drive_def same_state_def settled_steps) (simp_all add: http_client_close_def)

lemma same_drive_D: "same_drive D cn w v \<Longrightarrow> settled cn v" "same_drive D cn w v \<Longrightarrow> content D (remote v) = content D (remote w)"
  "same_drive D cn w v \<Longrightarrow> listing D (remote v) = None \<longleftrightarrow> listing D (remote w) = None"
  by (simp_all add: same_drive_def same_state_def)

lemma info_answer:
  assumes "drive_laws X D" "settled cn w" "short_path p" "hc_body c = empty_body"
    and q: "q = ''size'' \<or> q = ''size,'' @ DOWNLOAD_URL"
  shows "\<exists>c' w'. same_drive D cn w w' \<and> hc_body c' = empty_body \<and>
    (case content D (remote w) (fold_case p) of
       None \<Rightarrow> \<exists>c''. od__get_file_info X c p q cn w = Some ((Inl not_found, c''), cn, w')
     | Some d \<Rightarrow> \<exists>j. od__get_file_info X c p q cn w = Some ((Inr j, c'), cn, w')
         \<and> file_info X j (length d) (link D (remote w') p))"
proof -
  let ?url = "APP_ROOT @ '':'' @ p" and ?tok = "''Authorization: '' @ the (access_token (od_token cn))"
  let ?c = "c\<lparr>hc_url := hc_url c @ [Url_set CURLUPART_URL (Some ?url) True False,
      Url_set CURLUPART_QUERY (Some (''select='' @ q)) True True],
    hc_opts := hc_opts c @ [CURLOPT_HTTPGET 1], hc_hdr := hc_hdr c @ [?tok]\<rparr>"
  have u: "c_strcpy MAX_URL_LEN ?url = Some ?url" using assms(3) by (simp add: short_path_def hive_const)
  obtain t r where t: "curl_perform X (hc_opts (prepare_request (http_client_enable_response_body ?c))) (hc_url ?c) (remote w) = (t, r)"
    by fastforce
  have o: "req_meth (hc_opts (prepare_request (http_client_enable_response_body ?c))) = ''GET''"
    unfolding req_prepared by (simp add: req_meth_def)
  have v: "req_url (hc_url ?c) = ?url" by (simp add: req_url_def)
  obtain b where r: "same_state D (remote w) r" and b: "short_reply t b"
    and k: "case content D (remote w) (fold_case p) of None \<Rightarrow> replies t HttpStatus_NotFound
      | Some d \<Rightarrow> replies t HttpStatus_OK \<and>
          (\<exists>j. cJSON_Parse X (takeWhile (\<lambda>c. c \<noteq> NUL) b) = Some j \<and> file_info X j (length d) (link D r p))"
    using assms(1,3) t o v unfolding drive_laws_def answers_info_def short_path_def by blast
  let ?w = "w\<lparr>remote := r, tick := Suc (tick w)\<rparr>"
  have w: "same_drive D cn w ?w" using assms(2) r by (simp add: settled_def same_drive_def)
  have ar: "\<exists>c'. authorized_request X (http_client_enable_response_body ?c) cn w = Some (Inr st, c', cn, ?w)
    \<and> rb_used (hc_body c') \<noteq> 0 \<and> c_string_in (rb_data (hc_body c')) = Some (takeWhile (\<lambda>c. c \<noteq> NUL) b)"
    if "replies t st" "st \<noteq> HttpStatus_Unauthorized" for st
    using collected_request [OF _ assms(2) t that(1) b that(2)] assms(4) by simp
  have "q \<noteq> []" using q by auto
  have get: "snd (http_client_set_method X c0 HTTP_METHOD_GET) = c0\<lparr>hc_opts := hc_opts c0 @ [CURLOPT_HTTPGET 1]\<rparr>" for c0
    by (simp add: http_client_set_method_def setopt_def Let_def)
  note unf = od__get_file_info_def u http_client_set_query_def curl_url_set_def http_client_set_url_def get
    authorization_eq [OF assms(2)]
  show ?thesis
  proof (cases "content D (remote w) (fold_case p)")
    case None
    then obtain c' where c': "authorized_request X (http_client_enable_response_body ?c) cn w
        = Some (Inr HttpStatus_NotFound, c', cn, ?w)"
      using ar [of HttpStatus_NotFound] k by (auto simp: hive_const)
    have "od__get_file_info X c p q cn w = Some ((Inl not_found, c'), cn, ?w)"
      unfolding unf using c' \<open>q \<noteq> []\<close> by (simp add: not_found_def hive_const)
    with None w show ?thesis by (auto intro!: exI [of _ ?w] exI [of _ fresh_client] simp: fresh_client_def)
  next
    case (Some d)
    then obtain j where j: "replies t HttpStatus_OK" "cJSON_Parse X (takeWhile (\<lambda>c. c \<noteq> NUL) b) = Some j"
      "file_info X j (length d) (link D r p)"
      using k by auto
    obtain c' where c': "authorized_request X (http_client_enable_response_body ?c) cn w
        = Some (Inr HttpStatus_OK, c', cn, ?w)" "rb_used (hc_body c') \<noteq> 0"
        "parse_block X (rb_data (hc_body c')) = Some (Some j)"
      using ar [of HttpStatus_OK] j by (auto simp: hive_const parse_block_def)
    have qs: "c_strstr q ''size''" using q by (auto simp: c_strstr_def intro!: prefix_imp_sublist)
    have "od__get_file_info X c p q cn w = Some ((Inr j, c'\<lparr>hc_body := empty_body\<rparr>), cn, ?w)"
      unfolding unf using c' \<open>q \<noteq> []\<close> j(3) qs
      by (auto simp: http_client_move_response_body_def file_info_def is_number_def is_string_def valuestring_of_def Let_def)
    with Some w j(3) show ?thesis by (auto intro!: exI [of _ ?w] exI [of _ "c'\<lparr>hc_body := empty_body\<rparr>"])
  qed
qed

lemma size_of_info: "file_info X j n url \<Longrightarrow> size_of X j = Some (int n)"
  by (auto simp: file_info_def size_of_def)

lemma url_of_info: "file_info X j n url \<Longrightarrow>
    valuestring_of X (cJSON_GetObjectItemCaseSensitive X j DOWNLOAD_URL) = Some url \<and> url \<noteq> []"
  by (auto simp: file_info_def valuestring_of_def)

lemma file_length:
  assumes "drive_laws X D" "settled cn w" "short_path p"
  shows "\<exists>w'. od__get_file_length X p cn w = Some (case content D (remote w) (fold_case p) of
      None \<Rightarrow> not_found | Some d \<Rightarrow> int (length d), cn, w') \<and> same_drive D cn w w'"
proof -
  let ?v = "w\<lparr>tick := Suc (tick w), live_http := live_http w + 1\<rparr>"
  note s = settled_start [OF assms(2)]
  obtain c' v where v: "same_drive D cn ?v v"
    and g: "case content D (remote w) (fold_case p) of
       None \<Rightarrow> \<exists>c''. od__get_file_info X fresh_client p ''size'' cn ?v = Some ((Inl not_found, c''), cn, v)
     | Some d \<Rightarrow> \<exists>j. od__get_file_info X fresh_client p ''size'' cn ?v = Some ((Inr j, c'), cn, v)
         \<and> file_info X j (length d) (link D (remote v) p)"
    using info_answer [OF assms(1) s(3) assms(3), of fresh_client "''size''"] s(4) by (auto simp: fresh_client_def)
  have "od__get_file_length X p cn w = Some (case content D (remote w) (fold_case p) of
      None \<Rightarrow> not_found | Some d \<Rightarrow> int (length d), cn, http_client_close v)"
    using s(1,2) g by (auto simp: od__get_file_length_def size_of_info split: option.splits)
  then show ?thesis using same_drive_steps [OF v] same_drive_steps(1,3) v by blast
qed

lemma file_download:
  assumes "drive_laws X D" "settled cn w" "drive_path p"
    and "content D (remote w) (fold_case p) = Some d" "length d \<le> room" "url = link D (remote w) p" "url \<noteq> []"
  shows "\<exists>c' w'. od__download_file X c url room w = Some (0, d, c', w') \<and> same_drive D cn w w'"
proof -
  obtain k where k: "download_client X c url room = Some k"
    using assms(7) by (simp add: download_client_def start_request_eq)
  obtain t r where t: "curl_perform X (hc_opts k) (hc_url k) (remote w) = (t, r)" by fastforce
  have "req_meth (hc_opts k) = ''GET''" "req_url (hc_url k) = url"
    using k assms(7) by (auto simp: download_client_def start_request_eq req_meth_def req_url_def prepare_request_def setopt_def
      http_client_set_response_body_def http_client_enable_response_body_def Let_def split: option.splits)
  then have a: "same_state D (remote w) r" "replies t HttpStatus_OK" "concat (t_chunks t) = d"
    using assms(1,3,4,6) t unfolding drive_laws_def answers_download_def by blast+
  show ?thesis
    using download_result [OF k t] a assms(2,5) by (auto simp: replies_def same_drive_def settled_steps)
qed

lemma file_contents:
  assumes "drive_laws X D" "settled cn w" "short_path p" "0 < buflen"
  shows "\<exists>w'. same_drive D cn w w' \<and> (case content D (remote w) (fold_case p) of
      None \<Rightarrow> od__get_file_to_buffer X p room buflen cn w = Some ((not_found, []), cn, w')
    | Some d \<Rightarrow> length d \<le> buflen \<and> buflen \<le> room \<longrightarrow>
        od__get_file_to_buffer X p room buflen cn w = Some ((int (length d), d), cn, w'))"
proof -
  let ?v = "w\<lparr>tick := Suc (tick w), live_http := live_http w + 1\<rparr>"
  note s = settled_start [OF assms(2)]
  obtain c' v where v: "same_drive D cn ?v v"
    and g: "case content D (remote w) (fold_case p) of
       None \<Rightarrow> \<exists>c''. od__get_file_info X fresh_client p (''size,'' @ DOWNLOAD_URL) cn ?v = Some ((Inl not_found, c''), cn, v)
     | Some d \<Rightarrow> \<exists>j. od__get_file_info X fresh_client p (''size,'' @ DOWNLOAD_URL) cn ?v = Some ((Inr j, c'), cn, v)
         \<and> file_info X j (length d) (link D (remote v) p)"
    using info_answer [OF assms(1) s(3) assms(3), of fresh_client "''size,'' @ DOWNLOAD_URL"] s(4) by (auto simp: fresh_client_def)
  have v': "same_drive D cn w v" "same_drive D cn w (http_client_close v)" using v same_drive_steps by blast+
  show ?thesis
  proof (cases "content D (remote w) (fold_case p)")
    case None
    with g s(1,2) have "od__get_file_to_buffer X p room buflen cn w = Some ((not_found, []), cn, http_client_close v)"
      by (auto simp: od__get_file_to_buffer_def)
    with None v'(2) show ?thesis by auto
  next
    case (Some d)
    then obtain j where i: "od__get_file_info X fresh_client p (''size,'' @ DOWNLOAD_URL) cn ?v = Some ((Inr j, c'), cn, v)"
      and j: "file_info X j (length d) (link D (remote v) p)"
      using g by auto
    consider "\<not> (length d \<le> buflen \<and> buflen \<le> room)" | "d = []" | "length d \<le> buflen" "buflen \<le> room" "d \<noteq> []" by blast
    then show ?thesis
    proof cases
      case 1
      with Some v' show ?thesis by auto
    next
      case 2
      then have "od__get_file_to_buffer X p room buflen cn w = Some ((0, []), cn, http_client_close v)"
        using s(1,2) i size_of_info [OF j] by (simp add: od__get_file_to_buffer_def)
      with 2 Some v'(2) show ?thesis by auto
    next
      case 3
      have "content D (remote v) (fold_case p) = Some d" using Some same_drive_D(2) [OF v'(1)] by simp
      then obtain c'' u where u: "od__download_file X (http_client_reset c') (link D (remote v) p) room v = Some (0, d, c'', u)"
        "same_drive D cn v u"
        using file_download [OF assms(1) same_drive_D(1) [OF v'(1)] _ _ _ refl, of p d room "http_client_reset c'"]
          assms(3) 3 url_of_info [OF j] by (auto simp: short_path_def)
      have "od__get_file_to_buffer X p room buflen cn w = Some ((int (length d), d), cn, http_client_close u)"
        using s(1,2) i assms(4) 3 url_of_info [OF j] size_of_info [OF j] u(1) by (simp add: od__get_file_to_buffer_def)
      with Some same_drive_steps(1) [OF same_drive_steps(2) [OF v'(1) u(2)]] show ?thesis by auto
    qed
  qed
qed

definition meth_name :: "http_method \<Rightarrow> string" where
  "meth_name m = (case m of HTTP_METHOD_GET \<Rightarrow> ''GET'' | HTTP_METHOD_POST \<Rightarrow> ''POST'' | HTTP_METHOD_PUT \<Rightarrow> ''PUT''
     | HTTP_METHOD_DELETE \<Rightarrow> ''DELETE'' | HTTP_METHOD_PATCH \<Rightarrow> ''PATCH'')"

lemma request_start:
  assumes "url \<noteq> []" "settled cn w"
  shows "\<exists>c1 c2. start_request X fresh_client url m = Some c1 \<and> authorization cn (c1, w) = Some (c2, w) \<and>
     req_url (hc_url c2) = url \<and> req_meth (hc_opts c2) = meth_name m \<and> write_fn_of (hc_opts c2) = Eat_output"
  using assms(1) unfolding start_request_eq [OF assms(1)] authorization_eq [OF assms(2)]
  by (simp add: fresh_client_def base_opts_def req_url_def req_meth_def meth_name_def write_fn_of_def split: http_method.split)

lemma body_request:
  "req_meth (hc_opts (http_client_set_request_body_instant c d n)) = req_meth (hc_opts c)"
  "req_body (hc_opts (http_client_set_request_body_instant c d n)) = (case d of None \<Rightarrow> [] | Some s \<Rightarrow> s)"
  "write_fn_of (hc_opts (http_client_set_request_body_instant c d n)) = write_fn_of (hc_opts c)"
  "hc_url (http_client_set_request_body_instant c d n) = hc_url c"
  by (simp_all add: http_client_set_request_body_instant_def setopt_def req_meth_def req_body_def write_fn_of_def)

lemma file_upload:
  assumes "drive_laws X D" "settled cn w" "short_path p" "length from \<le> 4 * 1024 * 1024"
  shows "\<exists>w'. od__put_file_from_buffer X from p cn w = Some (0, cn, w') \<and> settled cn w'
    \<and> content D (remote w') = (content D (remote w))(fold_case p \<mapsto> from)
    \<and> (listing D (remote w) \<noteq> None \<longrightarrow> listing D (remote w') \<noteq> None) \<and> files w' = files w"
proof -
  note s = settled_start [OF assms(2)]
  define v where "v = w\<lparr>tick := Suc (tick w), live_http := live_http w + 1\<rparr>"
  define url where "url = APP_ROOT @ '':'' @ p @ '':/content''"
  have u: "c_strcpy MAX_URL_LEN url = Some url" "url \<noteq> []" using assms(3) by (auto simp: short_path_def hive_const url_def)
  obtain c1 c2 where c1: "start_request X fresh_client url HTTP_METHOD_PUT = Some c1" and c2: "authorization cn (c1, v) = Some (c2, v)"
    and o: "req_url (hc_url c2) = url" "req_meth (hc_opts c2) = ''PUT''" "write_fn_of (hc_opts c2) = Eat_output"
    using request_start [OF u(2) s(3), of X HTTP_METHOD_PUT] by (auto simp: meth_name_def v_def)
  define c where "c = http_client_set_request_body_instant c2 (if from \<noteq> [] then Some from else None) (length from)"
  obtain t r where t: "curl_perform X (hc_opts (prepare_request c)) (hc_url c) (remote v) = (t, r)" by fastforce
  have o: "req_meth (hc_opts (prepare_request c)) = ''PUT''" "req_body (hc_opts (prepare_request c)) = from"
    "req_url (hc_url c) = url" "write_fn_of (hc_opts c) = Eat_output"
    using o by (simp_all add: c_def body_request)
  have a: "content D r = (content D (remote w))(fold_case p \<mapsto> from)" "listing D (remote w) \<noteq> None \<longrightarrow> listing D r \<noteq> None"
      "replies t HttpStatus_OK \<or> replies t HttpStatus_Created"
    using assms(1,3,4) t o(1-3) s(4) unfolding drive_laws_def answers_upload_def short_path_def url_def v_def by metis+
  obtain st c' where c': "authorized_request X c cn v = Some (Inr st, c', cn, v\<lparr>remote := r\<rparr>)"
    and st: "st = HttpStatus_OK \<or> st = HttpStatus_Created"
    using a(3) eaten_request [OF o(4) t, of HttpStatus_OK cn] eaten_request [OF o(4) t, of HttpStatus_Created cn]
    by (auto simp: hive_const)
  have "od__upload_file X fresh_client p from cn v = Some ((0, c'), cn, v\<lparr>remote := r\<rparr>)"
    using c' [unfolded c_def] st
    by (auto simp: od__upload_file_def u(1) [unfolded url_def, simplified] c1 [unfolded url_def, simplified] c2)
  then have "od__put_file_from_buffer X from p cn w = Some (0, cn, http_client_close (v\<lparr>remote := r\<rparr>))"
    using assms(4) s(1,2) by (simp add: od__put_file_from_buffer_def v_def)
  then show ?thesis using a(1,2) s(3) by (auto simp: settled_def http_client_close_def v_def intro!: exI)
qed

lemma file_delete:
  assumes "drive_laws X D" "settled cn w" "short_path p"
  shows "\<exists>w'. od__delete_file X p cn w = Some (if content D (remote w) (fold_case p) = None then not_found else 0, cn, w')
    \<and> settled cn w' \<and> content D (remote w') = (content D (remote w))(fold_case p := None)
    \<and> (listing D (remote w) \<noteq> None \<longrightarrow> listing D (remote w') \<noteq> None) \<and> files w' = files w"
proof -
  note s = settled_start [OF assms(2)]
  define v where "v = w\<lparr>tick := Suc (tick w), live_http := live_http w + 1\<rparr>"
  define url where "url = APP_ROOT @ '':'' @ p @ '':''"
  have u: "c_strcpy MAX_URL_LEN url = Some url" "url \<noteq> []" using assms(3) by (auto simp: short_path_def hive_const url_def)
  obtain c1 c where c1: "start_request X fresh_client url HTTP_METHOD_DELETE = Some c1" and c: "authorization cn (c1, v) = Some (c, v)"
    and o: "req_url (hc_url c) = url" "req_meth (hc_opts c) = ''DELETE''" "write_fn_of (hc_opts c) = Eat_output"
    using request_start [OF u(2) s(3), of X HTTP_METHOD_DELETE] by (auto simp: meth_name_def v_def)
  let ?st = "if content D (remote w) (fold_case p) = None then HttpStatus_NotFound else HttpStatus_NoContent"
  obtain t r where t: "curl_perform X (hc_opts (prepare_request c)) (hc_url c) (remote v) = (t, r)" by fastforce
  have m: "req_meth (hc_opts (prepare_request c)) = ''DELETE''" using o(2) by simp
  have a: "content D r = (content D (remote w))(fold_case p := None)" "listing D (remote w) \<noteq> None \<longrightarrow> listing D r \<noteq> None"
      "replies t ?st"
    using assms(1,3) t o(1) m s(4) unfolding drive_laws_def answers_delete_def short_path_def url_def v_def by metis+
  obtain c' where c': "authorized_request X c cn v = Some (Inr ?st, c', cn, v\<lparr>remote := r\<rparr>)"
    using eaten_request [OF o(3) t a(3), of cn] by (cases "content D (remote w) (fold_case p) = None") (auto simp: hive_const)
  have "od__delete_file X p cn w = Some (if content D (remote w) (fold_case p) = None then not_found else 0, cn,
      http_client_close (v\<lparr>remote := r\<rparr>))"
    using s(1,2) c' c [unfolded v_def]
    by (auto simp: od__delete_file_def not_found_def HttpStatus_NotFound_def HttpStatus_NoContent_def
      u(1) [unfolded url_def, simplified] c1 [unfolded url_def, simplified] simp flip: v_def)
  then show ?thesis using a(1,2) s(3) by (auto simp: settled_def http_client_close_def v_def intro!: exI)
qed

lemma reset_sel:
  "hc_opts (http_client_reset c) = base_opts" "hc_url (http_client_reset c) = hc_url c @ [Url_set CURLUPART_URL None False False]"
  "hc_body (http_client_reset fresh_client) = empty_body"
  by (simp_all add: http_client_reset_def fresh_client_def empty_body_def)

lemma first_page:
  assumes "drive_laws X D" "settled cn w" "listing D (remote w) = Some names" "length names \<le> 8"
  defines "url \<equiv> APP_ROOT @ '':'' @ FILES_DIR @ '':/children''"
  shows "\<exists>c' w' items. list_page X url [] fresh_client cn w = Some ((Inr (items, None), c'), cn, w')
    \<and> same_drive D cn w w' \<and> list_all (valid_item X) items \<and> map (name_of X) items = map Some names"
proof -
  have u: "url \<noteq> []" by (simp add: url_def)
  let ?tok = "''Authorization: '' @ the (access_token (od_token cn))"
  define c1 where "c1 = (http_client_reset fresh_client)
    \<lparr>hc_url := hc_url (http_client_reset fresh_client) @ [Url_set CURLUPART_URL (Some url) True False],
     hc_opts := hc_opts (http_client_reset fresh_client) @ [CURLOPT_HTTPGET 1]\<rparr>"
  define c where "c = c1\<lparr>hc_hdr := hc_hdr c1 @ [?tok]\<rparr>"
  have c: "hc_body c = empty_body" "req_url (hc_url c) = url" "req_meth (hc_opts c) = ''GET''"
    by (simp_all add: c_def c1_def reset_sel req_url_def req_meth_def base_opts_def)
  obtain t r where t: "curl_perform X (hc_opts (prepare_request (http_client_enable_response_body c))) (hc_url c) (remote w) = (t, r)"
    by fastforce
  have m: "req_meth (hc_opts (prepare_request (http_client_enable_response_body c))) = ''GET''" using c(3) by simp
  obtain b j where r: "same_state D (remote w) r" "replies t HttpStatus_OK"
    and b: "short_reply t b" "cJSON_Parse X (takeWhile (\<lambda>c. c \<noteq> NUL) b) = Some j" and j: "file_list X j names"
    using assms(1,3,4) t m c(2) unfolding drive_laws_def answers_list_def url_def by blast
  let ?w = "w\<lparr>remote := r, tick := Suc (tick w)\<rparr>"
  obtain c' where c': "authorized_request X (http_client_enable_response_body c) cn w = Some (Inr HttpStatus_OK, c', cn, ?w)"
      "rb_used (hc_body c') \<noteq> 0" "parse_block X (rb_data (hc_body c')) = Some (Some j)"
    using collected_request [OF c(1) assms(2) t r(2) b(1)] b(2) by (auto simp: parse_block_def hive_const)
  obtain sub where sub: "cJSON_GetObjectItemCaseSensitive X j ''value'' = Some sub" "cJSON_IsArray X sub"
      "cJSON_GetObjectItemCaseSensitive X j ''@odata.nextLink'' = None"
      "list_all (valid_item X) (j_items X sub)" "map (name_of X) (j_items X sub) = map Some names"
    using j by (auto simp: file_list_def)
  have s1: "start_request X (http_client_reset fresh_client) url HTTP_METHOD_GET = Some c1"
    unfolding start_request_eq [OF u] c1_def by simp
  have s2: "authorization cn (c1, w) = Some (c, w)" unfolding authorization_eq [OF assms(2)] c_def by simp
  have "list_page X url [] fresh_client cn w
      = Some ((Inr (j_items X sub, None), c'\<lparr>hc_body := empty_body\<rparr>), cn, ?w)"
    using sub c' by (simp add: list_page_def s1 s2 http_client_move_response_body_def merge_array_spec valuestring_of_def Let_def)
  moreover have "same_drive D cn w ?w" using assms(2) r(1) by (simp add: settled_def same_drive_def)
  ultimately show ?thesis using sub(4,5) by blast
qed

lemma list_names:
  assumes "drive_laws X D" "settled cn w" "listing D (remote w) = Some names" "length names \<le> 8"
  shows "\<exists>w'. od_list_files X callback ctx cn w = Some ((0, tell_names callback (map Some names) ctx), cn, w')
    \<and> same_drive D cn w w'"
proof -
  let ?v = "w\<lparr>tick := Suc (tick w), live_http := live_http w + 1\<rparr>"
  note s = settled_start [OF assms(2)]
  have l: "listing D (remote ?v) = Some names" using assms(3) by simp
  obtain c' v items where p: "list_page X (APP_ROOT @ '':'' @ FILES_DIR @ '':/children'') [] fresh_client cn ?v
      = Some ((Inr (items, None), c'), cn, v)" "same_drive D cn ?v v"
      "list_all (valid_item X) items" "map (name_of X) items = map Some names"
    using first_page [OF assms(1) s(3) l assms(4)] by blast
  have "length (APP_ROOT @ '':'' @ FILES_DIR @ '':/children'') < MAX_URL_LEN"
    by (simp add: APP_ROOT_def FILES_DIR_def hive_const)
  moreover have "c_alloc ?v = (True, ?v)" using s(3) by (simp add: settled_def c_alloc_def take_fault_def)
  ultimately have "od_list_files X callback ctx cn w = Some ((0, tell_names callback (map Some names) ctx), cn, http_client_close v)"
    using s(1,2) pages_loop [OF last_page [OF p(1)], of callback ctx] p(4)
    by (simp add: od_list_files_def Let_def)
  then show ?thesis using same_drive_steps p(2) by blast
qed

section \<open>The store\<close>

text \<open>An abstract drive: the values of every key, the files, and whether the folder of the files is there.  The
  drive holds it when the file of a key is the concatenation of the entries of its values, and is missing
  for a key without values.\<close>

record store =
  kvs :: "string \<Rightarrow> bytes list"
  blobs :: "string \<Rightarrow> bytes option"
  folder :: bool

definition entries :: "bytes list \<Rightarrow> bytes" where
  "entries vs = concat (map kv_entry vs)"

definition holds :: "'r drive_view \<Rightarrow> 'r \<Rightarrow> store \<Rightarrow> bool" where
  "holds D r m \<longleftrightarrow>
     (\<forall>k. CHR ''/'' \<notin> set k \<longrightarrow>
        content D r (''/keyvalues/'' @ k) = (if kvs m k = [] then None else Some (entries (kvs m k))) \<and>
        list_all storable (kvs m k) \<and> length (entries (kvs m k)) \<le> 4 * 1024 * 1024 \<and>
        content D r (''/files/'' @ k) = blobs m k) \<and>
     (folder m \<longrightarrow> listing D r \<noteq> None)"

lemma folders: "fold_case KEYS_DIR = ''/keyvalues''" "fold_case FILES_DIR = ''/files''" "length KEYS_DIR = 10"
  by code_simp+

lemma fold_case_slash [simp]: "fold_case (CHR ''/'' # s) = CHR ''/'' # fold_case s"
  by (simp add: fold_case_def c_tolower_def)

lemma fold_case_append [simp]: "fold_case (a @ b) = fold_case a @ fold_case b"
  by (simp add: fold_case_def)

lemma plain_name_length: "plain_name n \<Longrightarrow> length n < 256"
  by (simp add: plain_name_def)

lemma fold_no_slash: "plain_name n \<Longrightarrow> CHR ''/'' \<notin> set (fold_case n)"
  by (auto simp: plain_name_def fold_case_def list_all_iff name_char_def)

lemma key_file:
  assumes "plain_name k"
  shows "short_path (key_path k)" and "fold_case (key_path k) = ''/keyvalues/'' @ fold_case k"
proof -
  have "key_path k = KEYS_DIR @ ''/'' @ k"
    using plain_name_length [OF assms] by (simp add: key_path_def c_snprintf_def hive_const folders(3))
  then show "short_path (key_path k)" "fold_case (key_path k) = ''/keyvalues/'' @ fold_case k"
    using assms plain_name_length [OF assms] folders by (auto simp: short_path_def drive_path_def)
qed

lemma file_path:
  assumes "plain_name n"
  shows "short_path (FILES_DIR @ ''/'' @ n)" and "fold_case (FILES_DIR @ ''/'' @ n) = ''/files/'' @ fold_case n"
  using assms plain_name_length [OF assms] folders by (auto simp: short_path_def drive_path_def)

lemma holds_value:
  assumes "holds D r m" "plain_name k"
  shows "content D r (fold_case (key_path k)) =
     (if kvs m (fold_case k) = [] then None else Some (entries (kvs m (fold_case k))))"
    and "list_all storable (kvs m (fold_case k))" and "length (entries (kvs m (fold_case k))) \<le> 4 * 1024 * 1024"
    and "kvs m (fold_case k) \<noteq> [] \<Longrightarrow> 4 < length (entries (kvs m (fold_case k)))"
  using assms fold_no_slash [of k] by (auto simp: holds_def key_file entries_def intro: concat_entries_long)

lemma holds_blob:
  "holds D r m \<Longrightarrow> plain_name n \<Longrightarrow> content D r (fold_case (FILES_DIR @ ''/'' @ n)) = blobs m (fold_case n)"
  using fold_no_slash [of n] file_path(2) [of n] by (auto simp: holds_def)

lemma entries_nil [simp]: "entries [] = []"
  by (simp add: entries_def)

lemma holds_set_value:
  assumes "holds D r m" "plain_name k" "list_all storable vs" "length (entries vs) \<le> 4 * 1024 * 1024"
    and "content D r' = (content D r)(fold_case (key_path k) := (if vs = [] then None else Some (entries vs)))"
    and "listing D r \<noteq> None \<longrightarrow> listing D r' \<noteq> None"
  shows "holds D r' (m\<lparr>kvs := (kvs m)(fold_case k := vs)\<rparr>)"
  using assms(1-4,6) unfolding holds_def assms(5) key_file(2) [OF assms(2)] by auto

text \<open>What an operation leaves: the connection settled, the drive holding a store, and the local files as they
  were.\<close>

definition results_in :: "'r drive_view \<Rightarrow> ('j, 'r) OneDriveConnect \<Rightarrow> store \<Rightarrow> 'r world \<Rightarrow> 'r world \<Rightarrow> bool" where
  "results_in D cn m w w' \<longleftrightarrow> settled cn w' \<and> holds D (remote w') m \<and> files w' = files w"

lemma results_same: "holds D (remote w) m \<Longrightarrow> same_drive D cn w w' \<Longrightarrow> results_in D cn m w w'"
  by (simp add: results_in_def holds_def same_drive_def same_state_def)

lemma holds_same: "holds D (remote w) m \<Longrightarrow> same_drive D cn w w' \<Longrightarrow> holds D (remote w') m"
  by (simp add: holds_def same_drive_def same_state_def)

lemma same_files: "same_drive D cn w w' \<Longrightarrow> files w' = files w"
  by (simp add: same_drive_def)

lemma entries_snoc: "entries (vs @ [v]) = entries vs @ kv_entry v"
  by (simp add: entries_def)

lemma settled_alloc: "settled cn w \<Longrightarrow> c_alloc w = (True, w)"
  by (simp add: settled_def c_alloc_def take_fault_def)

lemma length_ok: "n \<le> 4 * 1024 * 1024 \<Longrightarrow> int_of_ssize (int n) = int n"
  by (intro int_of_ssize_small) simp_all

lemma not_found_neg: "not_found < 0" "int_of_ssize not_found = not_found"
  by (simp_all add: not_found_def) (simp add: int_of_ssize_def int_of_error_def)

lemma put_key:
  assumes "drive_laws X D" "settled cn w" "plain_name k" "holds D (remote w) m"
    and "storable v" "length (entries (kvs m (fold_case k) @ [v])) \<le> 4 * 1024 * 1024"
  shows "\<exists>w'. od_put_value X k v enc cn w = Some (0, cn, w') \<and> results_in D cn (m\<lparr>kvs := (kvs m)(fold_case k := kvs m (fold_case k) @ [v])\<rparr>) w w'"
proof -
  let ?vs = "kvs m (fold_case k)" and ?p = "key_path k"
  note f = holds_value [OF assms(4,3)] and p = key_file(1) [OF assms(3)]
  obtain w1 where w1: "od__get_file_length X ?p cn w = Some (if ?vs = [] then not_found else int (length (entries ?vs)), cn, w1)"
    "same_drive D cn w w1"
    using file_length [OF assms(1,2) p] f(1) by auto
  have up: "\<exists>w'. od__put_file_from_buffer X (entries (?vs @ [v])) ?p cn w2 = Some (0, cn, w') \<and> results_in D cn (m\<lparr>kvs := (kvs m)(fold_case k := ?vs @ [v])\<rparr>) w w'" if "same_drive D cn w w2" for w2
    using file_upload [OF assms(1) same_drive_D(1) [OF that] p assms(6)]
      holds_set_value [OF holds_same [OF assms(4) that] assms(3), of "?vs @ [v]"] assms(5,6) f(2)
      same_files [OF that] by (auto simp: results_in_def)
  show ?thesis
  proof (cases "?vs = []")
    case True
    with w1(1) have "od_put_value X k v enc cn w = od__put_file_from_buffer X (entries (?vs @ [v])) ?p cn w1"
      using not_found_neg by (simp add: od_put_value_def settled_alloc [OF same_drive_D(1) [OF w1(2)]] entries_def)
    with up [OF w1(2)] show ?thesis by simp
  next
    case False
    let ?n = "length (entries ?vs)"
    have n: "4 < ?n" "?n \<le> 4 * 1024 * 1024" and ne: "entries ?vs \<noteq> []" using f(3,4) False by auto
    have "content D (remote w1) (fold_case ?p) = Some (entries ?vs)" using f(1) same_drive_D(2) [OF w1(2)] False by simp
    then obtain w2 where w2: "od__get_file_to_buffer X ?p (?n + 4 + length v) ?n cn w1 = Some ((int ?n, entries ?vs), cn, w2)"
      "same_drive D cn w1 w2"
      using file_contents [OF assms(1) same_drive_D(1) [OF w1(2)] p, of ?n "?n + 4 + length v"] n ne by auto
    have "od_put_value X k v enc cn w = od__put_file_from_buffer X (entries (?vs @ [v])) ?p cn w2"
      using w1(1) w2(1) False n ne not_found_neg length_ok [OF n(2)]
      by (simp add: od_put_value_def settled_alloc [OF same_drive_D(1) [OF w1(2)]] zero_padded_def entries_snoc Let_def)
    with up [OF same_drive_steps(2) [OF w1(2) w2(2)]] show ?thesis by simp
  qed
qed

lemma set_key:
  assumes "drive_laws X D" "settled cn w" "plain_name k" "holds D (remote w) m" "storable v"
  shows "\<exists>w'. od_set_value X k v enc cn w = Some (0, cn, w') \<and> results_in D cn (m\<lparr>kvs := (kvs m)(fold_case k := [v])\<rparr>) w w'"
proof -
  have l: "length (entries [v]) \<le> 4 * 1024 * 1024" using assms(5) by (simp add: entries_def storable_def hive_const)
  show ?thesis
    using file_upload [OF assms(1,2) key_file(1) [OF assms(3)] l] holds_set_value [OF assms(4,3) _ l] assms(5)
    by (auto simp: od_set_value_def settled_alloc [OF assms(2)] entries_def results_in_def)
qed

lemma get_key:
  assumes "drive_laws X D" "settled cn w" "plain_name k" "holds D (remote w) m"
  shows "\<exists>w'. od_get_values X k dec callback ctx cn w = Some ((0, deliver k callback (kvs m (fold_case k)) ctx), cn, w')
    \<and> same_drive D cn w w'"
proof -
  let ?vs = "kvs m (fold_case k)" and ?p = "key_path k"
  note f = holds_value [OF assms(4,3)] and p = key_file(1) [OF assms(3)]
  obtain w1 where w1: "od__get_file_length X ?p cn w = Some (if ?vs = [] then not_found else int (length (entries ?vs)), cn, w1)"
    "same_drive D cn w w1"
    using file_length [OF assms(1,2) p] f(1) by auto
  show ?thesis
  proof (cases "?vs = []")
    case True
    with w1 show ?thesis using not_found_neg by (simp add: od_get_values_def)
  next
    case False
    let ?n = "length (entries ?vs)"
    have n: "4 < ?n" "?n \<le> 4 * 1024 * 1024" and ne: "entries ?vs \<noteq> []" using f(3,4) False by auto
    have "content D (remote w1) (fold_case ?p) = Some (entries ?vs)" using f(1) same_drive_D(2) [OF w1(2)] False by simp
    then obtain w2 where w2: "od__get_file_to_buffer X ?p ?n ?n cn w1 = Some ((int ?n, entries ?vs), cn, w2)"
      "same_drive D cn w1 w2"
      using file_contents [OF assms(1) same_drive_D(1) [OF w1(2)] p, of ?n ?n] n ne by auto
    have "od_get_values X k dec callback ctx cn w = Some ((0, deliver k callback ?vs ctx), cn, w2)"
      using w1(1) w2(1) False n ne not_found_neg length_ok [OF n(2)]
        values_loop_entries [OF False f(2), of k callback ctx, folded entries_def]
      by (simp add: od_get_values_def settled_alloc [OF same_drive_D(1) [OF w1(2)]] zero_padded_def Let_def)
    with same_drive_steps(2) [OF w1(2) w2(2)] show ?thesis by simp
  qed
qed

lemma delete_key:
  assumes "drive_laws X D" "settled cn w" "plain_name k" "holds D (remote w) m"
  shows "\<exists>w'. od_delete_key X k cn w = Some (0, cn, w') \<and> results_in D cn (m\<lparr>kvs := (kvs m)(fold_case k := [])\<rparr>) w w'"
  using file_delete [OF assms(1,2) key_file(1) [OF assms(3)]] holds_set_value [OF assms(4,3), of "[]"]
  by (auto simp: od_delete_key_def results_in_def)

lemma listing_laws:
  assumes "drive_laws X D"
  shows "listing D r = None \<Longrightarrow> stored_names D r = {}"
    and "listing D r = Some names \<Longrightarrow> distinct (map fold_case names) \<and> set (map fold_case names) = stored_names D r"
proof -
  have "case listing D r of None \<Rightarrow> stored_names D r = {}
    | Some names \<Rightarrow> distinct (map fold_case names) \<and> set (map fold_case names) = stored_names D r"
    using assms unfolding drive_laws_def listing_agrees_def by blast
  then show "listing D r = None \<Longrightarrow> stored_names D r = {}"
    and "listing D r = Some names \<Longrightarrow> distinct (map fold_case names) \<and> set (map fold_case names) = stored_names D r"
    by (simp_all only: option.case)
qed

lemma put_file:
  assumes "drive_laws X D" "settled cn w" "plain_name n" "holds D (remote w) m" "length d \<le> 4 * 1024 * 1024"
  shows "\<exists>w'. od_put_file_from_buffer X d enc n cn w = Some (0, cn, w') \<and> results_in D cn (m\<lparr>blobs := (blobs m)(fold_case n \<mapsto> d), folder := True\<rparr>) w w'"
proof -
  obtain w' where w': "od__put_file_from_buffer X d (FILES_DIR @ ''/'' @ n) cn w = Some (0, cn, w')" "settled cn w'"
      "content D (remote w') = (content D (remote w))(''/files/'' @ fold_case n \<mapsto> d)" "files w' = files w"
    using file_upload [OF assms(1,2) file_path(1) [OF assms(3)] assms(5)] file_path(2) [OF assms(3)] by auto
  have l: "listing D (remote w') \<noteq> None"
  proof
    assume "listing D (remote w') = None"
    then have "stored_names D (remote w') = {}" by (rule listing_laws(1) [OF assms(1)])
    then show False using w'(3) fold_no_slash [of n] assms(3) by (auto simp: stored_names_def)
  qed
  have "od_put_file_from_buffer X d enc n cn w = Some (0, cn, w')"
    using short_name(2) [of n X d enc cn w] plain_name_length [OF assms(3)] w'(1) by simp
  then show ?thesis using w'(2-4) l assms(4) by (auto simp: holds_def results_in_def)
qed

lemma delete_file:
  assumes "drive_laws X D" "settled cn w" "plain_name n" "holds D (remote w) m"
  shows "\<exists>w'. od_delete_file X n cn w = Some (if blobs m (fold_case n) = None then not_found else 0, cn, w') \<and> results_in D cn (m\<lparr>blobs := (blobs m)(fold_case n := None)\<rparr>) w w'"
proof -
  obtain w' where w': "od__delete_file X (FILES_DIR @ ''/'' @ n) cn w
        = Some (if blobs m (fold_case n) = None then not_found else 0, cn, w')" "settled cn w'"
      "content D (remote w') = (content D (remote w))(''/files/'' @ fold_case n := None)"
      "listing D (remote w) \<noteq> None \<longrightarrow> listing D (remote w') \<noteq> None" "files w' = files w"
    using file_delete [OF assms(1,2) file_path(1) [OF assms(3)]] file_path(2) [OF assms(3)] holds_blob [OF assms(4,3)] by auto
  have "od_delete_file X n cn w = Some (if blobs m (fold_case n) = None then not_found else 0, cn, w')"
    using short_name(1) [of n X cn w] plain_name_length [OF assms(3)] w'(1) by simp
  then show ?thesis using w'(2-5) assms(4) by (auto simp: holds_def results_in_def)
qed

lemma length_file:
  assumes "drive_laws X D" "settled cn w" "plain_name n" "holds D (remote w) m"
  shows "\<exists>w'. od_get_file_length X n cn w = Some (case blobs m (fold_case n) of None \<Rightarrow> not_found | Some d \<Rightarrow> int (length d), cn, w')
    \<and> same_drive D cn w w'"
  using file_length [OF assms(1,2) file_path(1) [OF assms(3)]] holds_blob [OF assms(4,3)] short_name(3) [of n X cn w]
    plain_name_length [OF assms(3)]
  by simp

lemma get_file:
  assumes "drive_laws X D" "settled cn w" "plain_name n" "holds D (remote w) m" "0 < buflen" "buflen \<le> room"
    and "\<forall>d. blobs m (fold_case n) = Some d \<longrightarrow> length d \<le> buflen"
  shows "\<exists>w'. od_get_file_to_buffer X n dec room buflen cn w = Some (case blobs m (fold_case n) of
      None \<Rightarrow> (not_found, []) | Some d \<Rightarrow> (int (length d), d), cn, w') \<and> same_drive D cn w w'"
proof -
  let ?p = "FILES_DIR @ ''/'' @ n"
  have e: "od_get_file_to_buffer X n dec room buflen cn w = od__get_file_to_buffer X ?p room buflen cn w"
    using plain_name_length [OF assms(3)] by (simp add: od_get_file_to_buffer_def c_snprintf_def hive_const)
  obtain w' where w': "same_drive D cn w w'" "case blobs m (fold_case n) of
      None \<Rightarrow> od__get_file_to_buffer X ?p room buflen cn w = Some ((not_found, []), cn, w')
    | Some d \<Rightarrow> length d \<le> buflen \<and> buflen \<le> room \<longrightarrow>
        od__get_file_to_buffer X ?p room buflen cn w = Some ((int (length d), d), cn, w')"
    using file_contents [OF assms(1,2) file_path(1) [OF assms(3)] assms(5), of room] unfolding holds_blob [OF assms(4,3)] by blast
  show ?thesis
  proof (cases "blobs m (fold_case n)")
    case None
    with w' show ?thesis unfolding e by auto
  next
    case (Some d)
    with w' assms(6,7) show ?thesis unfolding e by auto
  qed
qed

text \<open>The names in a listing are those of the files that are there.\<close>

definition names_of :: "store \<Rightarrow> string set" where
  "names_of m = {k. CHR ''/'' \<notin> set k \<and> blobs m k \<noteq> None}"

lemma holds_listing:
  assumes "drive_laws X D" "holds D r m" "folder m"
  shows "\<exists>names. listing D r = Some names \<and> distinct (map fold_case names) \<and> set (map fold_case names) = names_of m
    \<and> length names = card (names_of m)"
proof -
  obtain names where n: "listing D r = Some names" using assms(2,3) by (auto simp: holds_def)
  have s: "stored_names D r = names_of m"
    unfolding stored_names_def names_of_def using assms(2) by (intro Collect_cong) (auto simp: holds_def)
  note l = listing_laws(2) [OF assms(1) n, unfolded s]
  have "length names = card (names_of m)" using l distinct_card [of "map fold_case names"] by (simp only: length_map)
  with n l show ?thesis by blast
qed

section \<open>The operations of the client API\<close>

text \<open>What an application can ask for: to add a value to a key, to replace its values by one, to read its
  values and to delete it; to write a file, to ask its length, to read it into a buffer of some length and to
  delete it; and to list the files.\<close>

datatype drive_op =
    Put_value string bytes | Set_value string bytes | Get_values string | Delete_key string
  | Put_file string bytes | File_length string | Get_file string nat | Delete_file string | List_files

text \<open>What the abstract store allows, answers and becomes.  An answer is the C result and the values, the
  contents or the names delivered with it; the order and the case of the names are the drive's.\<close>

fun allowed :: "drive_op \<Rightarrow> store \<Rightarrow> bool" where
  "allowed (Put_value k v) m \<longleftrightarrow> plain_name k \<and> storable v \<and> length (entries (kvs m (fold_case k) @ [v])) \<le> 4 * 1024 * 1024"
| "allowed (Set_value k v) m \<longleftrightarrow> plain_name k \<and> storable v"
| "allowed (Get_values k) m \<longleftrightarrow> plain_name k"
| "allowed (Delete_key k) m \<longleftrightarrow> plain_name k"
| "allowed (Put_file n d) m \<longleftrightarrow> plain_name n \<and> length d \<le> 4 * 1024 * 1024"
| "allowed (File_length n) m \<longleftrightarrow> plain_name n"
| "allowed (Get_file n buflen) m \<longleftrightarrow> plain_name n \<and> 0 < buflen
     \<and> (case blobs m (fold_case n) of None \<Rightarrow> True | Some d \<Rightarrow> length d \<le> buflen)"
| "allowed (Delete_file n) m \<longleftrightarrow> plain_name n"
| "allowed List_files m \<longleftrightarrow> folder m \<and> card (names_of m) \<le> 8"

fun answers_with :: "drive_op \<Rightarrow> store \<Rightarrow> int \<times> bytes list \<Rightarrow> bool" where
  "answers_with (Get_values k) m a \<longleftrightarrow> a = (0, kvs m (fold_case k))"
| "answers_with (File_length n) m a \<longleftrightarrow> a = (case blobs m (fold_case n) of None \<Rightarrow> (-1, []) | Some d \<Rightarrow> (int (length d), []))"
| "answers_with (Get_file n buflen) m a \<longleftrightarrow> a = (case blobs m (fold_case n) of None \<Rightarrow> (-1, []) | Some d \<Rightarrow> (int (length d), [d]))"
| "answers_with (Delete_file n) m a \<longleftrightarrow> a = (if blobs m (fold_case n) = None then -1 else 0, [])"
| "answers_with List_files m a \<longleftrightarrow> fst a = 0 \<and> distinct (map fold_case (snd a)) \<and> set (map fold_case (snd a)) = names_of m"
| "answers_with _ m a \<longleftrightarrow> a = (0, [])"

fun effect :: "drive_op \<Rightarrow> store \<Rightarrow> store" where
  "effect (Put_value k v) m = m\<lparr>kvs := (kvs m)(fold_case k := kvs m (fold_case k) @ [v])\<rparr>"
| "effect (Set_value k v) m = m\<lparr>kvs := (kvs m)(fold_case k := [v])\<rparr>"
| "effect (Delete_key k) m = m\<lparr>kvs := (kvs m)(fold_case k := [])\<rparr>"
| "effect (Put_file n d) m = m\<lparr>blobs := (blobs m)(fold_case n \<mapsto> d), folder := True\<rparr>"
| "effect (Delete_file n) m = m\<lparr>blobs := (blobs m)(fold_case n := None)\<rparr>"
| "effect _ m = m"

fun allowed_run :: "drive_op list \<Rightarrow> store \<Rightarrow> bool" where
  "allowed_run [] m \<longleftrightarrow> True"
| "allowed_run (a # as) m \<longleftrightarrow> allowed a m \<and> allowed_run as (effect a m)"

fun answers_run :: "drive_op list \<Rightarrow> store \<Rightarrow> (int \<times> bytes list) list \<Rightarrow> bool" where
  "answers_run [] m os \<longleftrightarrow> os = []"
| "answers_run (a # as) m os \<longleftrightarrow> os \<noteq> [] \<and> answers_with a m (hd os) \<and> answers_run as (effect a m) (tl os)"

text \<open>The calls, with callbacks that collect what they are told.\<close>

definition collecting :: "string \<Rightarrow> bytes \<Rightarrow> bytes list \<Rightarrow> bool \<times> bytes list" where
  "collecting key val vs = (True, vs @ [val])"

definition collecting_names :: "string option \<Rightarrow> bytes list \<Rightarrow> bool \<times> bytes list" where
  "collecting_names n vs = (True, case n of None \<Rightarrow> vs | Some s \<Rightarrow> vs @ [s])"

definition only_rc :: "('j, 'r, int) od_op \<Rightarrow> ('j, 'r, int \<times> bytes list) od_op" where
  "only_rc m cn w = do { (rc, cn', w') \<leftarrow> m cn w; Some ((rc, []), cn', w') }"

fun call ::
  "(('j, 'r) OneDriveConnect, 'r, bytes list) HiveConnect \<Rightarrow> drive_op \<Rightarrow> ('j, 'r, int \<times> bytes list) od_op" where
  "call C (Put_value k v) = only_rc (hive_put_value (Some C) (Some k) (Some v) (length v) False)"
| "call C (Set_value k v) = only_rc (hive_set_value (Some C) (Some k) (Some v) (length v) False)"
| "call C (Get_values k) = hive_get_values (Some C) (Some k) False (Some collecting) []"
| "call C (Delete_key k) = only_rc (hive_delete_key (Some C) (Some k))"
| "call C (Put_file n d) = only_rc (hive_put_file_from_buffer (Some C) (Some d) (length d) False (Some n))"
| "call C (File_length n) = only_rc (hive_get_file_length (Some C) (Some n))"
| "call C (Get_file n buflen) = (\<lambda>cn w. do {
     ((rc, got), cn', w') \<leftarrow> hive_get_file_to_buffer (Some C) (Some n) False (Some buflen) buflen cn w;
     Some ((rc, if rc < 0 then [] else [got]), cn', w')
   })"
| "call C (Delete_file n) = only_rc (hive_delete_file (Some C) (Some n))"
| "call C List_files = hive_list_files (Some C) (Some collecting_names) []"

fun call_run ::
  "(('j, 'r) OneDriveConnect, 'r, bytes list) HiveConnect \<Rightarrow> drive_op list \<Rightarrow> ('j, 'r, (int \<times> bytes list) list) od_op" where
  "call_run C [] cn w = Some ([], cn, w)"
| "call_run C (a # as) cn w = do {
     (o1, cn1, w1) \<leftarrow> call C a cn w;
     (os, cn2, w2) \<leftarrow> call_run C as cn1 w1;
     Some (o1 # os, cn2, w2)
   }"

lemma deliver_collecting: "deliver k collecting vs ctx = ctx @ vs"
  by (induction vs arbitrary: ctx) (simp_all add: collecting_def)

lemma tell_collecting: "tell_names collecting_names (map Some ns) ctx = ctx @ ns"
  by (induction ns arbitrary: ctx) (simp_all add: collecting_names_def)

lemma error_frame [simp]: "settled cn (hive_set_error e w) = settled cn w"
  "results_in D cn m w (hive_set_error e w') = results_in D cn m w w'"
  by (simp_all add: hive_set_error_def settled_def results_in_def)

lemma plain_name_ne: "plain_name n \<Longrightarrow> n \<noteq> []" "\<not> plain_name []"
  by (simp_all add: plain_name_def)

lemmas api_calls = api_call_def unplain_def plain_def onedrive_methods_def block_def int_result_def ssize_result_def null_or_empty_def plain_name_ne

lemma api_put_value:
  assumes "drive_laws X D" "settled cn w" "holds D (remote w) m" "allowed (Put_value k v) m"
  shows "\<exists>w'. hive_put_value (Some (onedrive_methods X :: (_, _, 'c) HiveConnect)) (Some k) (Some v) (length v) enc cn w = Some (0, cn, w')
    \<and> results_in D cn (effect (Put_value k v) m) w w'"
  using put_key [OF assms(1,2) _ assms(3), of k v enc] assms(4) by (auto simp: hive_put_value_def api_calls storable_def)

lemma api_set_value:
  assumes "drive_laws X D" "settled cn w" "holds D (remote w) m" "allowed (Set_value k v) m"
  shows "\<exists>w'. hive_set_value (Some (onedrive_methods X :: (_, _, 'c) HiveConnect)) (Some k) (Some v) (length v) enc cn w = Some (0, cn, w')
    \<and> results_in D cn (effect (Set_value k v) m) w w'"
  using set_key [OF assms(1,2) _ assms(3), of k v enc] assms(4) by (auto simp: hive_set_value_def api_calls storable_def)

lemma api_get_values:
  assumes "drive_laws X D" "settled cn w" "holds D (remote w) m" "allowed (Get_values k) m"
  shows "\<exists>w'. hive_get_values (Some (onedrive_methods X :: (_, _, 'c) HiveConnect)) (Some k) dec (Some callback) ctx cn w
      = Some ((0, deliver k callback (kvs m (fold_case k)) ctx), cn, w') \<and> results_in D cn m w w'"
  using get_key [OF assms(1,2) _ assms(3), of k dec callback ctx] assms(4) results_same [OF assms(3)]
  by (auto simp: hive_get_values_def api_calls)

lemma api_delete_key:
  assumes "drive_laws X D" "settled cn w" "holds D (remote w) m" "allowed (Delete_key k) m"
  shows "\<exists>w'. hive_delete_key (Some (onedrive_methods X :: (_, _, 'c) HiveConnect)) (Some k) cn w = Some (0, cn, w')
    \<and> results_in D cn (effect (Delete_key k) m) w w'"
  using delete_key [OF assms(1,2) _ assms(3), of k] assms(4) by (auto simp: hive_delete_key_def api_calls)

lemma api_put_file:
  assumes "drive_laws X D" "settled cn w" "holds D (remote w) m" "allowed (Put_file n d) m"
  shows "\<exists>w'. hive_put_file_from_buffer (Some (onedrive_methods X :: (_, _, 'c) HiveConnect)) (Some d) (length d) enc (Some n) cn w = Some (0, cn, w')
    \<and> results_in D cn (effect (Put_file n d) m) w w'"
  using put_file [OF assms(1,2) _ assms(3), of n d enc] assms(4)
  by (auto simp: hive_put_file_from_buffer_def api_calls hive_const)

lemma api_file_length:
  assumes "drive_laws X D" "settled cn w" "holds D (remote w) m" "allowed (File_length n) m"
  shows "\<exists>w'. hive_get_file_length (Some (onedrive_methods X :: (_, _, 'c) HiveConnect)) (Some n) cn w
      = Some (case blobs m (fold_case n) of None \<Rightarrow> -1 | Some d \<Rightarrow> int (length d), cn, w') \<and> results_in D cn m w w'"
proof -
  have n: "plain_name n" using assms(4) by simp
  obtain w' where w': "od_get_file_length X n cn w
      = Some (case blobs m (fold_case n) of None \<Rightarrow> not_found | Some d \<Rightarrow> int (length d), cn, w')" "results_in D cn m w w'"
    using length_file [OF assms(1,2) n assms(3)] results_same [OF assms(3)] by blast
  with n not_found_neg show ?thesis
    by (cases "blobs m (fold_case n)") (simp_all add: hive_get_file_length_def api_calls)
qed

lemma api_get_file:
  assumes "drive_laws X D" "settled cn w" "holds D (remote w) m" "allowed (Get_file n l) m" "l \<le> room"
  shows "\<exists>w'. hive_get_file_to_buffer (Some (onedrive_methods X :: (_, _, 'c) HiveConnect)) (Some n) dec (Some room) l cn w
      = Some (case blobs m (fold_case n) of None \<Rightarrow> (-1, []) | Some d \<Rightarrow> (int (length d), d), cn, w') \<and> results_in D cn m w w'"
proof -
  have n: "plain_name n" and l: "0 < l" "\<forall>d. blobs m (fold_case n) = Some d \<longrightarrow> length d \<le> l" using assms(4) by auto
  obtain w' where w': "od_get_file_to_buffer X n dec room l cn w = Some (case blobs m (fold_case n) of
      None \<Rightarrow> (not_found, []) | Some d \<Rightarrow> (int (length d), d), cn, w')" "results_in D cn m w w'"
    using get_file [OF assms(1,2) n assms(3) l(1) assms(5) l(2), where dec = dec] results_same [OF assms(3)] by blast
  with n l(1) not_found_neg show ?thesis
    by (cases "blobs m (fold_case n)") (simp_all add: hive_get_file_to_buffer_def api_calls)
qed

lemma api_delete_file:
  assumes "drive_laws X D" "settled cn w" "holds D (remote w) m" "allowed (Delete_file n) m"
  shows "\<exists>w'. hive_delete_file (Some (onedrive_methods X :: (_, _, 'c) HiveConnect)) (Some n) cn w
      = Some (if blobs m (fold_case n) = None then -1 else 0, cn, w') \<and> results_in D cn (effect (Delete_file n) m) w w'"
proof -
  have n: "plain_name n" using assms(4) by simp
  obtain w' where "od_delete_file X n cn w = Some (if blobs m (fold_case n) = None then not_found else 0, cn, w')"
      "results_in D cn (effect (Delete_file n) m) w w'"
    using delete_file [OF assms(1,2) n assms(3)] by auto
  with n not_found_neg show ?thesis by (cases "blobs m (fold_case n)") (simp_all add: hive_delete_file_def api_calls)
qed

lemma api_list_files:
  assumes "drive_laws X D" "settled cn w" "holds D (remote w) m" "allowed List_files m"
  shows "\<exists>w' names. hive_list_files (Some (onedrive_methods X :: (_, _, 'c) HiveConnect)) (Some callback) ctx cn w
      = Some ((0, tell_names callback (map Some names) ctx), cn, w') \<and> listing D (remote w) = Some names \<and> distinct (map fold_case names)
      \<and> set (map fold_case names) = names_of m \<and> results_in D cn m w w'"
proof -
  obtain names where n: "listing D (remote w) = Some names" "distinct (map fold_case names)"
      "set (map fold_case names) = names_of m" "length names = card (names_of m)"
    using holds_listing [OF assms(1,3)] assms(4) by force
  have l: "length names \<le> 8" using n(4) assms(4) by simp
  obtain w' where w': "od_list_files X callback ctx cn w = Some ((0, tell_names callback (map Some names) ctx), cn, w')"
      "same_drive D cn w w'"
    using list_names [OF assms(1,2) n(1) l, of callback ctx] by (elim exE conjE)
  have h: "hive_list_files (Some (onedrive_methods X :: (_, _, 'c) HiveConnect)) (Some callback) ctx cn w
      = Some ((0, tell_names callback (map Some names) ctx), cn, w')"
    using w'(1) by (simp add: hive_list_files_def api_calls)
  show ?thesis
    by (rule exI [of _ w'], rule exI [of _ names], intro conjI) (rule h n(1) n(2) n(3) results_same [OF assms(3) w'(2)])+
qed

lemma call_answers:
  assumes "drive_laws X D" "settled cn w" "holds D (remote w) m" "allowed a m"
  shows "\<exists>w' out. call (onedrive_methods X) a cn w = Some (out, cn, w') \<and> answers_with a m out \<and> results_in D cn (effect a m) w w'"
proof (cases a)
  case (Put_value k v)
  with api_put_value [where ?'c = "bytes list", OF assms(1-3), of k v False] assms(4) show ?thesis by (auto simp: only_rc_def)
next
  case (Set_value k v)
  with api_set_value [where ?'c = "bytes list", OF assms(1-3), of k v False] assms(4) show ?thesis by (auto simp: only_rc_def)
next
  case (Get_values k)
  with api_get_values [OF assms(1-3), of k False collecting "[]"] assms(4) show ?thesis by (auto simp: deliver_collecting)
next
  case (Delete_key k)
  with api_delete_key [where ?'c = "bytes list", OF assms(1-3), of k] assms(4) show ?thesis by (auto simp: only_rc_def)
next
  case (Put_file n d)
  with api_put_file [where ?'c = "bytes list", OF assms(1-3), of n d False] assms(4) show ?thesis by (auto simp: only_rc_def)
next
  case (File_length n)
  with api_file_length [where ?'c = "bytes list", OF assms(1-3), of n] assms(4) show ?thesis by (auto simp: only_rc_def split: option.splits)
next
  case (Get_file n l)
  with api_get_file [where ?'c = "bytes list", OF assms(1-3), of n l l False] assms(4) show ?thesis
    by (cases "blobs m (fold_case n)") auto
next
  case (Delete_file n)
  with api_delete_file [where ?'c = "bytes list", OF assms(1-3), of n] assms(4) show ?thesis by (auto simp: only_rc_def)
next
  case List_files
  obtain w' names where "call (onedrive_methods X) a cn w = Some ((0, names), cn, w')" "distinct (map fold_case names)"
      "set (map fold_case names) = names_of m" "results_in D cn m w w'"
    using api_list_files [OF assms(1-3), of collecting_names "[]"] assms(4) List_files by (auto simp: tell_collecting)
  with List_files show ?thesis by fastforce
qed


section \<open>A drive that behaves as documented\<close>

text \<open>Its state is the list of its files by folded path and the path asked about last, whose download URL is
  \<open>u\<close>.  The size of a file is answered as \<open>i\<close> and four characters, a listing as \<open>l\<close> and the names, each
  with a slash behind it.\<close>

type_synonym drive_state = "(string \<times> bytes) list \<times> string"

fun size_text :: "nat \<Rightarrow> nat \<Rightarrow> string" where
  "size_text 0 n = []"
| "size_text (Suc i) n = char_of (1 + n mod 128) # size_text i (n div 128)"

fun text_size :: "string \<Rightarrow> nat" where
  "text_size [] = 0"
| "text_size (c # s) = (of_char c - 1) + 128 * text_size s"

definition join_names :: "string list \<Rightarrow> string" where
  "join_names ns = concat (map (\<lambda>n. n @ ''/'') ns)"

fun split_names :: "string \<Rightarrow> string \<Rightarrow> string list" where
  "split_names acc [] = []"
| "split_names acc (c # s) = (if c = CHR ''/'' then acc # split_names [] s else split_names (acc @ [c]) s)"

definition visible :: "string \<Rightarrow> bool" where
  "visible p \<longleftrightarrow> fold_case p = p \<and> list_all (\<lambda>c. name_char c \<or> c = CHR ''/'') p \<and> length p < 300 \<and> last p \<noteq> CHR ''/''"

definition drive_content :: "drive_state \<Rightarrow> string \<Rightarrow> bytes option" where
  "drive_content r p = (case map_of (fst r) p of None \<Rightarrow> None
     | Some d \<Rightarrow> if visible p \<and> length d \<le> 4 * 1024 * 1024 then Some d else None)"

definition drive_names :: "drive_state \<Rightarrow> string list" where
  "drive_names r = filter (\<lambda>k. CHR ''/'' \<notin> set k \<and> drive_content r (''/files/'' @ k) \<noteq> None)
     (remdups (map (drop 7 \<circ> fst) (fst r)))"

definition sample_view :: "drive_state drive_view" where
  "sample_view = \<lparr>content = drive_content, link = (\<lambda>r p. if p = snd r then ''u'' else ''x'' @ p),
     listing = (\<lambda>r. Some (drive_names r))\<rparr>"

definition url_path :: "string \<Rightarrow> string" where
  "url_path url = takeWhile (\<lambda>c. c \<noteq> CHR '':'') (drop (length APP_ROOT + 1) url)"

definition drive_reply :: "int \<Rightarrow> bytes list \<Rightarrow> transfer" where
  "drive_reply status chs = \<lparr>t_code = 0, t_chunks = chs, t_status = status, t_info = 0\<rparr>"

definition drive_perform :: "curl_opt list \<Rightarrow> url_op list \<Rightarrow> drive_state \<Rightarrow> transfer \<times> drive_state" where
  "drive_perform os us r =
     (let url = req_url us; p = url_path url; rest = filter (\<lambda>(q, _). q \<noteq> fold_case p) (fst r) in
      if req_meth os = ''PUT'' then (drive_reply HttpStatus_OK [], (fold_case p, req_body os) # rest, snd r)
      else if req_meth os = ''DELETE'' then
        (drive_reply (if drive_content r (fold_case p) = None then HttpStatus_NotFound else HttpStatus_NoContent) [], rest, snd r)
      else if url = APP_ROOT @ '':'' @ FILES_DIR @ '':/children'' then
        (drive_reply HttpStatus_OK [''l'' @ join_names (drive_names r)], r)
      else if prefix (APP_ROOT @ '':'') url then
        (case drive_content r (fold_case p) of
           None \<Rightarrow> (drive_reply HttpStatus_NotFound [''n''], fst r, p)
         | Some d \<Rightarrow> (drive_reply HttpStatus_OK [''i'' @ size_text 4 (length d)], fst r, p))
      else
        (case drive_content r (fold_case (if url = ''u'' then snd r else tl url)) of
           None \<Rightarrow> (drive_reply HttpStatus_NotFound [], r)
         | Some d \<Rightarrow> (drive_reply HttpStatus_OK [d], r)))"

definition drive_json :: "string \<Rightarrow> json option" where
  "drive_json s = (case s of [] \<Rightarrow> None | c # t \<Rightarrow>
     if c = CHR ''i'' then Some (JObj [(''size'', JNum (int (text_size t))), (DOWNLOAD_URL, JStr ''u'')])
     else if c = CHR ''l'' then Some (JObj [(''value'',
       JArr (map (\<lambda>n. JObj [(''name'', JStr n), (''file'', JObj [])]) (split_names [] t)))])
     else None)"

definition sample_drive :: "(json, drive_state) ext" where
  "sample_drive = json_ext drive_perform drive_json (\<lambda>_. None)"

lemma text_size_text: "n < 128 ^ i \<Longrightarrow> text_size (size_text i n) = n"
proof (induction i arbitrary: n)
  case (Suc i)
  have "of_char (char_of (1 + n mod 128) :: char) = 1 + n mod 128" by (simp add: of_char_of)
  moreover have "n div 128 < 128 ^ i" using Suc.prems by (simp add: less_mult_imp_div_less mult.commute)
  ultimately show ?case using Suc.IH by simp
qed simp

lemma size_text_4: "length (size_text 4 n) = 4" "NUL \<notin> set (size_text i n)"
proof -
  have l: "length (size_text i n) = i" for i n by (induction i arbitrary: n) auto
  then show "length (size_text 4 n) = 4" .
  show "NUL \<notin> set (size_text i n)"
  proof (induction i arbitrary: n)
    case (Suc i)
    have "char_of (1 + n mod 128) \<noteq> NUL"
    proof
      assume "char_of (1 + n mod 128) = NUL"
      then have "of_char (char_of (1 + n mod 128) :: char) = (0 :: nat)" by simp
      then show False by (simp add: of_char_of)
    qed
    with Suc show ?case by simp
  qed simp
qed

lemma split_names_join:
  "\<forall>n\<in>set ns. CHR ''/'' \<notin> set n \<Longrightarrow> split_names [] (join_names ns) = ns"
proof (induction ns)
  case (Cons n ns)
  have "CHR ''/'' \<notin> set m \<Longrightarrow> split_names acc (m @ CHR ''/'' # s) = (acc @ m) # split_names [] s" for acc m s
    by (induction m arbitrary: acc) auto
  with Cons show ?case by (simp add: join_names_def)
qed (simp add: join_names_def)

lemma c_tolower_idem [simp]: "c_tolower (c_tolower c) = c_tolower c"
  by (auto simp: c_tolower_def Let_def of_char_of)

lemma fold_case_idem [simp]: "fold_case (fold_case p) = fold_case p"
  by (simp add: fold_case_def comp_def)

lemma visible_dirs: "list_all (\<lambda>c. name_char c \<or> c = CHR ''/'') ''/files''" "list_all (\<lambda>c. name_char c \<or> c = CHR ''/'') ''/keyvalues''"
  by code_simp+

lemma drive_path_visible:
  assumes "drive_path p"
  shows "visible (fold_case p)" and "CHR '':'' \<notin> set p"
proof -
  obtain n where n: "plain_name n" and p: "p = FILES_DIR @ ''/'' @ n \<or> p = KEYS_DIR @ ''/'' @ n"
    using assms by (auto simp: drive_path_def)
  have "list_all (\<lambda>c. name_char c \<or> c = CHR ''/'') (fold_case n)" "length (fold_case n) < 256" "fold_case n \<noteq> []"
    using n by (auto simp: plain_name_def fold_case_def list_all_iff name_char_def)
  moreover from this(3) have "last (fold_case n) \<noteq> CHR ''/''" using fold_no_slash [OF n] by (metis last_in_set)
  ultimately have "visible (''/files'' @ ''/'' @ fold_case n)" "visible (''/keyvalues'' @ ''/'' @ fold_case n)"
    using visible_dirs folders(1,2) fold_case_idem [of FILES_DIR] fold_case_idem [of KEYS_DIR]
    by (simp_all only: visible_def fold_case_append fold_case_slash fold_case_idem list_all_append length_append) (simp_all add: fold_case_def c_tolower_def)
  then show "visible (fold_case p)" using p folders(1,2) by auto
  have "\<not> name_char (CHR '':'')" by code_simp
  then have "CHR '':'' \<notin> set n" using n by (auto simp: plain_name_def list_all_iff)
  then show "CHR '':'' \<notin> set p" using p by (auto simp: FILES_DIR_def KEYS_DIR_def)
qed

lemma url_path_of:
  assumes "drive_path p"
  shows "url_path (APP_ROOT @ '':'' @ p) = p" and "url_path (APP_ROOT @ '':'' @ p @ '':/content'') = p"
    and "url_path (APP_ROOT @ '':'' @ p @ '':'') = p"
proof -
  have "\<forall>c\<in>set p. c \<noteq> CHR '':''" using drive_path_visible(2) [OF assms] by auto
  then show "url_path (APP_ROOT @ '':'' @ p) = p" "url_path (APP_ROOT @ '':'' @ p @ '':/content'') = p"
      "url_path (APP_ROOT @ '':'' @ p @ '':'') = p"
    by (auto simp: url_path_def takeWhile_append takeWhile_eq_all_conv)
qed

lemma sample_sel [simp]: "curl_perform sample_drive = drive_perform" "cJSON_Parse sample_drive = drive_json"
  "content sample_view = drive_content" "listing sample_view r = Some (drive_names r)"
  "link sample_view r p = (if p = snd r then ''u'' else ''x'' @ p)"
  by (simp_all add: sample_drive_def json_ext_def sample_view_def)

lemma map_of_rest: "map_of (filter (\<lambda>(q, _). q \<noteq> k) fs) p = (if p = k then None else map_of fs p)"
  by (induction fs) auto

lemma content_put: "visible k \<Longrightarrow> length d \<le> 4 * 1024 * 1024 \<Longrightarrow>
    drive_content ((k, d) # filter (\<lambda>(q, _). q \<noteq> k) fs, l) = (drive_content (fs, l'))(k \<mapsto> d)"
  by (auto simp: drive_content_def fun_eq_iff map_of_rest)

lemma content_delete: "drive_content (filter (\<lambda>(q, _). q \<noteq> k) fs, l) = (drive_content (fs, l'))(k := None)"
  by (auto simp: drive_content_def fun_eq_iff map_of_rest)

lemma no_nul: "NUL \<notin> set s \<Longrightarrow> c \<noteq> NUL \<Longrightarrow> takeWhile (\<lambda>c. c \<noteq> NUL) (c # s) = c # s"
  by (auto simp: takeWhile_eq_all_conv)

lemma info_json:
  assumes "length d \<le> 4 * 1024 * 1024"
  shows "\<exists>j. drive_json (CHR ''i'' # size_text 4 (length d)) = Some j \<and> file_info sample_drive j (length d) ''u''"
  using text_size_text [of "length d" 4] assms
  by (simp add: drive_json_def file_info_def sample_drive_def json_ext_def json_item_def DOWNLOAD_URL_def del: size_text.simps)

lemma names_visible: "n \<in> set (drive_names r) \<Longrightarrow> CHR ''/'' \<notin> set n \<and> NUL \<notin> set n \<and> length n < 300 \<and> fold_case n = n \<and> n \<noteq> []"
proof -
  assume n: "n \<in> set (drive_names r)"
  then have "CHR ''/'' \<notin> set n" "visible (''/files/'' @ n)"
    by (auto simp: drive_names_def drive_content_def split: option.splits if_splits)
  moreover from this(2) have "fold_case n = n" by (simp add: visible_def fold_case_def)
  moreover from calculation(2) have "NUL \<notin> set n"
    by (auto simp: visible_def list_all_iff name_char_def c_tolower_def)
  moreover from calculation(2) have "n \<noteq> []" by (auto simp: visible_def)
  ultimately show ?thesis by (simp add: visible_def)
qed

lemma list_json:
  "\<exists>j. drive_json (CHR ''l'' # join_names (drive_names r)) = Some j \<and> file_list sample_drive j (drive_names r)"
proof -
  have "split_names [] (join_names (drive_names r)) = drive_names r"
    using names_visible by (intro split_names_join) blast
  moreover have "\<forall>n\<in>set (drive_names r). n \<noteq> []" using names_visible by blast
  ultimately show ?thesis
    by (simp add: drive_json_def file_list_def sample_drive_def json_ext_def json_item_def valid_item_def name_of_def
      valuestring_of_def IS_STRING_NODE_def is_string_def list_all_iff comp_def)
qed

lemma length_join: "\<forall>n\<in>set ns. length n < 300 \<Longrightarrow> length (join_names ns) \<le> 300 * length ns"
  by (induction ns) (auto simp: join_names_def)

lemma names_agree:
  "distinct (map fold_case (drive_names r)) \<and> set (map fold_case (drive_names r)) = stored_names sample_view r"
proof -
  have f: "map fold_case (drive_names r) = drive_names r" using names_visible by (intro map_idI) blast
  have "k \<in> drop 7 ` fst ` set (fst r)" if "drive_content r (''/files/'' @ k) \<noteq> None" for k
  proof -
    have "map_of (fst r) (''/files/'' @ k) \<noteq> None" using that by (auto simp: drive_content_def split: option.splits)
    then have "''/files/'' @ k \<in> fst ` set (fst r)" by (metis map_of_eq_None_iff)
    then show ?thesis by (intro image_eqI [of _ _ "''/files/'' @ k"]) simp_all
  qed
  then have "set (drive_names r) = stored_names sample_view r"
    unfolding drive_names_def stored_names_def by (auto simp: image_image comp_def)
  moreover have "distinct (drive_names r)" by (simp add: drive_names_def)
  ultimately show ?thesis unfolding f by blast
qed

lemma meths [simp]: "''GET'' \<noteq> ''PUT''" "''GET'' \<noteq> ''DELETE''" "''DELETE'' \<noteq> ''PUT''"
  by simp_all

lemma drive_link_path:
  "\<not> prefix (APP_ROOT @ '':'') (link sample_view r p)" "(if link sample_view r p = ''u'' then snd r else tl (link sample_view r p)) = p"
  "link sample_view r p \<noteq> APP_ROOT @ s"
  by (simp_all add: APP_ROOT_def)

lemma sample_drive_laws: "drive_laws sample_drive sample_view"
  unfolding drive_laws_def
proof (intro conjI)
  show "answers_info sample_drive sample_view"
    unfolding answers_info_def
  proof (intro allI impI, elim conjE)
    fix os us r t r' p
    assume p: "drive_path p" and "curl_perform sample_drive os us r = (t, r')"
      and m: "req_meth os = ''GET''" and u: "req_url us = APP_ROOT @ '':'' @ p"
    then have d: "drive_perform os us r = (t, r')" by simp
    note up = url_path_of(1) [OF p]
    have nl: "APP_ROOT @ '':'' @ p \<noteq> APP_ROOT @ '':'' @ FILES_DIR @ '':/children''"
      using drive_path_visible(2) [OF p] by auto
    show "same_state sample_view r r' \<and> (\<exists>b. short_reply t b \<and>
         (case content sample_view r (fold_case p) of
            None \<Rightarrow> replies t HttpStatus_NotFound
          | Some d \<Rightarrow> replies t HttpStatus_OK \<and>
              (\<exists>j. cJSON_Parse sample_drive (takeWhile (\<lambda>c. c \<noteq> NUL) b) = Some j
                 \<and> file_info sample_drive j (length d) (link sample_view r' p))))"
    proof (cases "drive_content r (fold_case p)")
      case None
      have "(t, r') = (drive_reply HttpStatus_NotFound [''n''], fst r, p)"
        unfolding d [symmetric] drive_perform_def Let_def m u up None using nl by simp
      with None show ?thesis
        by (auto simp: short_reply_def replies_def drive_reply_def drive_content_def same_state_def)
    next
      case (Some x)
      define b where "b = CHR ''i'' # size_text 4 (length x)"
      have l: "length x \<le> 4 * 1024 * 1024" using Some by (auto simp: drive_content_def split: option.splits if_splits)
      have "(t, r') = (drive_reply HttpStatus_OK [b], fst r, p)"
        unfolding d [symmetric] drive_perform_def Let_def m u up Some b_def using nl by simp
      then have t: "t = drive_reply HttpStatus_OK [b]" and r': "r' = (fst r, p)" by simp_all
      obtain j where j: "drive_json b = Some j" "file_info sample_drive j (length x) ''u''"
        using info_json [OF l] unfolding b_def by blast
      have b: "length b = 5" "takeWhile (\<lambda>c. c \<noteq> NUL) b = b"
        unfolding b_def by (simp_all only: list.size size_text_4(1)) (rule no_nul [OF size_text_4(2)], simp)
      have "short_reply t b" "replies t HttpStatus_OK" using b(1) by (auto simp: t short_reply_def replies_def drive_reply_def)
      moreover have "same_state sample_view r r'" "link sample_view r' p = ''u''"
        by (auto simp: r' drive_content_def same_state_def)
      ultimately show ?thesis using j Some by (intro conjI exI [of _ b]) (simp_all only: b(2) sample_sel option.case, blast+)
    qed
  qed
  show "answers_download sample_drive sample_view"
    unfolding answers_download_def
  proof (intro allI impI, elim conjE)
    fix os us r t r' p d
    assume t: "curl_perform sample_drive os us r = (t, r')" and m: "req_meth os = ''GET''"
      and u: "req_url us = link sample_view r p" and c: "content sample_view r (fold_case p) = Some d"
    have "drive_perform os us r = (drive_reply HttpStatus_OK [d], r)"
      unfolding drive_perform_def Let_def u m drive_link_path(2) c [unfolded sample_sel] using drive_link_path(1,3) [of r p] by simp
    with t show "same_state sample_view r r' \<and> replies t HttpStatus_OK \<and> concat (t_chunks t) = d"
      by (auto simp: replies_def drive_reply_def same_state_def)
  qed
  show "answers_upload sample_drive sample_view"
    unfolding answers_upload_def
  proof (intro allI impI, elim conjE)
    fix os us r t r' p
    assume p: "drive_path p" and t: "curl_perform sample_drive os us r = (t, r')" and m: "req_meth os = ''PUT''"
      and u: "req_url us = APP_ROOT @ '':'' @ p @ '':/content''" and l: "length (req_body os) \<le> 4 * 1024 * 1024"
    have "drive_perform os us r = (drive_reply HttpStatus_OK [],
        (fold_case p, req_body os) # filter (\<lambda>(q, _). q \<noteq> fold_case p) (fst r), snd r)"
      unfolding drive_perform_def Let_def m u url_path_of(2) [OF p] by simp
    with t content_put [OF drive_path_visible(1) [OF p] l, of "fst r" "snd r" "snd r"]
    show "content sample_view r' = (content sample_view r)(fold_case p \<mapsto> req_body os) \<and>
        (listing sample_view r \<noteq> None \<longrightarrow> listing sample_view r' \<noteq> None) \<and> (replies t HttpStatus_OK \<or> replies t HttpStatus_Created)"
      by (auto simp: replies_def drive_reply_def)
  qed
  show "answers_delete sample_drive sample_view"
    unfolding answers_delete_def
  proof (intro allI impI, elim conjE)
    fix os us r t r' p
    assume p: "drive_path p" and t: "curl_perform sample_drive os us r = (t, r')" and m: "req_meth os = ''DELETE''"
      and u: "req_url us = APP_ROOT @ '':'' @ p @ '':''"
    have "drive_perform os us r = (drive_reply (if drive_content r (fold_case p) = None then HttpStatus_NotFound
        else HttpStatus_NoContent) [], filter (\<lambda>(q, _). q \<noteq> fold_case p) (fst r), snd r)"
      unfolding drive_perform_def Let_def m u url_path_of(3) [OF p] by simp
    with t content_delete [of "fold_case p" "fst r" "snd r" "snd r"]
    show "content sample_view r' = (content sample_view r)(fold_case p := None) \<and>
        (listing sample_view r \<noteq> None \<longrightarrow> listing sample_view r' \<noteq> None) \<and>
        replies t (if content sample_view r (fold_case p) = None then HttpStatus_NotFound else HttpStatus_NoContent)"
      by (auto simp: replies_def drive_reply_def)
  qed
  show "answers_list sample_drive sample_view"
    unfolding answers_list_def
  proof (intro allI impI, elim conjE)
    fix os us r t r' names
    assume t: "curl_perform sample_drive os us r = (t, r')" and m: "req_meth os = ''GET''"
      and u: "req_url us = APP_ROOT @ '':'' @ FILES_DIR @ '':/children''"
      and n: "listing sample_view r = Some names" "length names \<le> 8"
    define b where "b = CHR ''l'' # join_names names"
    have ns: "names = drive_names r" using n(1) by simp
    have "drive_perform os us r = (drive_reply HttpStatus_OK [b], r)"
      unfolding drive_perform_def Let_def u m b_def ns by simp
    then have tr: "t = drive_reply HttpStatus_OK [b]" "r' = r" using t by simp_all
    obtain j where j: "drive_json b = Some j" "file_list sample_drive j names"
      using list_json unfolding b_def ns by blast
    have "NUL \<notin> set (join_names names)" using names_visible unfolding ns by (auto simp: join_names_def)
    then have b: "takeWhile (\<lambda>c. c \<noteq> NUL) b = b" unfolding b_def by (rule no_nul) simp
    have "length b < 2 ^ 14"
      using length_join [of names] names_visible n(2) unfolding b_def ns by fastforce
    then have "short_reply t b" by (simp add: tr short_reply_def drive_reply_def b_def)
    then show "same_state sample_view r r' \<and> replies t HttpStatus_OK \<and>
       (\<exists>b j. short_reply t b \<and> cJSON_Parse sample_drive (takeWhile (\<lambda>c. c \<noteq> NUL) b) = Some j \<and> file_list sample_drive j names)"
      using j b by (intro conjI exI [of _ b] exI [of _ j]) (simp_all only: tr sample_sel, simp_all add: same_state_def replies_def drive_reply_def)
  qed
  show "listing_agrees sample_view"
    unfolding listing_agrees_def using names_agree by auto
qed

lemma answers_run_Cons: "answers_run (a # as) m os \<longleftrightarrow> (\<exists>o1 os'. os = o1 # os' \<and> answers_with a m o1 \<and> answers_run as (effect a m) os')"
  by (cases os) simp_all

lemma one_name:
  assumes "distinct (map f xs)" "set (map f xs) = {y}"
  shows "\<exists>n. xs = [n] \<and> f n = y"
proof -
  have "length xs = 1" using distinct_card [OF assms(1)] assms(2) by simp
  then obtain n where "xs = [n]" by (auto simp: length_Suc_conv)
  then show ?thesis using assms(2) by auto
qed


end
