(* ===== verification/Hive_Swarm.thy ===== *)
theory Hive_Swarm
  imports Hive_Drive
begin

text \<open>
  The client API over IPFS, seen from above: on nodes that answer as their API documents it, the calls implement
  a store of blocks under the names that their contents give them, whatever nodes are down.

  \<open>swarm_laws\<close> states what a node answers to the four requests of \<open>src/src/vendors/ipfs\<close>, and that a node that is
  down answers none; \<open>api_refines_blocks\<close> says what every sequence of calls computes and how often a node that is
  down makes a call fail.  The last section builds nodes that obey the laws.
\<close>

section \<open>Nodes\<close>

text \<open>The query and the file of a request.\<close>

definition req_query :: "url_op list \<Rightarrow> string" where
  "req_query us = foldl (\<lambda>u z. case z of
     Url_set part v _ _ \<Rightarrow> if part = CURLUPART_QUERY then (case v of None \<Rightarrow> [] | Some s \<Rightarrow> s) else u) [] us"

definition req_file :: "curl_opt list \<Rightarrow> bytes" where
  "req_file os = foldl (\<lambda>b z. case z of CURLOPT_MIMEPOST ps \<Rightarrow> concat (map mp_data ps) | _ \<Rightarrow> b) [] os"

text \<open>The name that contents get, the blocks that the nodes hold together, and which nodes are up; a node is
  named by the beginning of its URLs.\<close>

record 'r swarm_view =
  cid_of :: "bytes \<Rightarrow> string"
  blocks :: "'r \<Rightarrow> string \<Rightarrow> bytes option"
  runs :: "string \<Rightarrow> bool"

definition refused :: "transfer \<Rightarrow> bool" where
  "refused t \<longleftrightarrow> RC_NODE_UNREACHABLE (t_code t) \<and> t_chunks t = []"

definition down_refuses :: "('j, 'r) ext \<Rightarrow> 'r swarm_view \<Rightarrow> bool" where
  "down_refuses X D \<longleftrightarrow> (\<forall>os us r t r' node path.
     curl_perform X os us r = (t, r') \<and> req_url us = node @ path \<and> \<not> runs D node
       \<and> path \<in> {''/version'', ''/api/v0/add'', ''/api/v0/file/ls'', ''/api/v0/cat''} \<longrightarrow>
       blocks D r' = blocks D r \<and> refused t)"

definition answers_version :: "('j, 'r) ext \<Rightarrow> 'r swarm_view \<Rightarrow> bool" where
  "answers_version X D \<longleftrightarrow> (\<forall>os us r t r' node.
     curl_perform X os us r = (t, r') \<and> req_url us = node @ ''/version'' \<and> runs D node \<longrightarrow>
       blocks D r' = blocks D r \<and> replies t HttpStatus_OK)"

definition answers_add :: "('j, 'r) ext \<Rightarrow> 'r swarm_view \<Rightarrow> bool" where
  "answers_add X D \<longleftrightarrow> (\<forall>os us r t r' node.
     curl_perform X os us r = (t, r') \<and> req_url us = node @ ''/api/v0/add'' \<and> runs D node
       \<and> length (req_file os) \<le> HIVE_MAX_FILE_SIZE \<longrightarrow>
       blocks D r' = (blocks D r)(cid_of D (req_file os) \<mapsto> req_file os) \<and> replies t HttpStatus_OK \<and>
       (\<exists>b j i. short_reply t b \<and> cJSON_Parse X (takeWhile (\<lambda>c. c \<noteq> NUL) b) = Some j \<and>
          cJSON_GetObjectItemCaseSensitive X j ''Hash'' = Some i \<and> cJSON_IsString X i \<and> j_string X i \<noteq> None \<and>
          j_valuestring X i = Some (cid_of D (req_file os))))"

text \<open>A block that is not there is an error of the server.\<close>

definition size_reply :: "('j, 'r) ext \<Rightarrow> 'j \<Rightarrow> string \<Rightarrow> nat \<Rightarrow> bool" where
  "size_reply X j cid n \<longleftrightarrow> (\<exists>objects entry sz.
     cJSON_GetObjectItemCaseSensitive X j ''Objects'' = Some objects \<and> cJSON_IsObject X objects \<and>
     cJSON_GetObjectItemCaseSensitive X objects cid = Some entry \<and> cJSON_IsObject X entry \<and>
     cJSON_GetObjectItemCaseSensitive X entry ''Size'' = Some sz \<and> cJSON_IsNumber X sz \<and> j_valuelong X sz = int n)"

definition answers_size :: "('j, 'r) ext \<Rightarrow> 'r swarm_view \<Rightarrow> bool" where
  "answers_size X D \<longleftrightarrow> (\<forall>os us r t r' node cid.
     curl_perform X os us r = (t, r') \<and> req_url us = node @ ''/api/v0/file/ls'' \<and> runs D node
       \<and> req_query us = ''arg='' @ cid \<longrightarrow>
       blocks D r' = blocks D r \<and>
       (\<exists>b. short_reply t b \<and>
         (case blocks D r cid of
            None \<Rightarrow> \<exists>status. replies t status \<and> status \<noteq> HttpStatus_OK
          | Some d \<Rightarrow> replies t HttpStatus_OK \<and>
              (\<exists>j. cJSON_Parse X (takeWhile (\<lambda>c. c \<noteq> NUL) b) = Some j \<and> size_reply X j cid (length d)))))"

definition answers_cat :: "('j, 'r) ext \<Rightarrow> 'r swarm_view \<Rightarrow> bool" where
  "answers_cat X D \<longleftrightarrow> (\<forall>os us r t r' node cid d.
     curl_perform X os us r = (t, r') \<and> req_url us = node @ ''/api/v0/cat'' \<and> runs D node
       \<and> req_query us = ''arg='' @ cid \<and> blocks D r cid = Some d \<longrightarrow>
       blocks D r' = blocks D r \<and> replies t HttpStatus_OK \<and> concat (t_chunks t) = d)"

definition swarm_laws :: "('j, 'r) ext \<Rightarrow> 'r swarm_view \<Rightarrow> bool" where
  "swarm_laws X D \<longleftrightarrow> down_refuses X D \<and> answers_version X D \<and> answers_add X D \<and> answers_size X D \<and> answers_cat X D
     \<and> (\<forall>d. cid_of D d \<noteq> [] \<and> length (cid_of D d) \<le> HIVE_MAX_IPFS_CID_LEN)"

text \<open>A world with memory enough, zeroed as it is given out.\<close>

definition easy :: "'r world \<Rightarrow> bool" where
  "easy w \<longleftrightarrow> network_up w \<and> (\<forall>t i. heap_junk w t i = NUL)"

section \<open>The nodes of a connection\<close>

definition node_base :: "string \<Rightarrow> 16 word \<Rightarrow> string" where
  "node_base ip port = node_url ip port []"

lemma node_url_base: "node_url ip port path = node_base ip port @ path"
  by (simp add: node_base_def node_url_def)

definition current_base :: "IPFSConnect \<Rightarrow> string" where
  "current_base cn = node_base (current_node_ip (ic_rpc cn)) (current_node_port (ic_rpc cn))"

text \<open>The current node is up; it was chosen and is down now.\<close>

definition seated :: "'r swarm_view \<Rightarrow> IPFSConnect \<Rightarrow> bool" where
  "seated D cn \<longleftrightarrow> current_node_ip (ic_rpc cn) \<noteq> [] \<and> runs D (current_base cn)"

definition stranded :: "'r swarm_view \<Rightarrow> IPFSConnect \<Rightarrow> bool" where
  "stranded D cn \<longleftrightarrow> current_node_ip (ic_rpc cn) \<noteq> [] \<and> \<not> runs D (current_base cn)"

text \<open>Addresses have the length the connect call checks, and some configured node is up.\<close>

definition served :: "'r swarm_view \<Rightarrow> IPFSConnect \<Rightarrow> bool" where
  "served D cn \<longleftrightarrow> length (current_node_ip (ic_rpc cn)) \<le> 47 \<and>
     (\<forall>n \<in> set (rpc_nodes (ic_rpc cn)). length (node_ipv4 n) \<le> 47 \<and> length (node_ipv6 n) \<le> 47) \<and>
     (\<exists>n \<in> set (rpc_nodes (ic_rpc cn)).
        node_ipv4 n \<noteq> [] \<and> runs D (node_base (node_ipv4 n) (node_port n))
        \<or> node_ipv6 n \<noteq> [] \<and> runs D (node_base (node_ipv6 n) (node_port n)))"

text \<open>The nodes hold \<open>m\<close>, and nothing else of the world that matters has changed.\<close>

definition swarm_at :: "'r swarm_view \<Rightarrow> (string \<Rightarrow> bytes option) \<Rightarrow> 'r world \<Rightarrow> bool" where
  "swarm_at D m w \<longleftrightarrow> easy w \<and> blocks D (remote w) = m"

lemma swarm_at_steps:
  "swarm_at D m (w\<lparr>tick := n\<rparr>) \<longleftrightarrow> swarm_at D m w" "swarm_at D m (w\<lparr>live_http := k\<rparr>) \<longleftrightarrow> swarm_at D m w"
  "swarm_at D m (w\<lparr>remote := r\<rparr>) \<longleftrightarrow> easy w \<and> blocks D r = m" "swarm_at D m (http_client_close w) \<longleftrightarrow> swarm_at D m w"
  "swarm_at D m (hive_set_error e w) \<longleftrightarrow> swarm_at D m w"
  by (auto simp: swarm_at_def easy_def network_up_def http_client_close_def hive_set_error_def)

lemma easy_new:
  "swarm_at D m w \<Longrightarrow> http_client_new X w = (Some fresh_client, w\<lparr>live_http := live_http w + 1\<rparr>)"
  by (cases w) (simp add: swarm_at_def easy_def network_up_def http_client_new_def c_alloc_def take_fault_def)

text \<open>The three kinds of requests: one that is refused, one whose answer is collected, and one whose answer
  goes to the block of the caller.\<close>

lemma refused_request:
  assumes "curl_perform X (hc_opts (prepare_request c)) (hc_url c) (remote w) = (t, r)" and "refused t"
  shows "\<exists>c'. http_client_request X c w = Some (t_code t, c', w\<lparr>remote := r\<rparr>) \<and> t_code t \<noteq> 0"
  using assms
  by (auto simp: http_client_request_def Let_def refused_def RC_NODE_UNREACHABLE_def hive_const prepare_request_sel)

lemma stored_request:
  assumes "write_fn_of (hc_opts c) = Eat_output"
    and "curl_perform X (hc_opts (prepare_request c)) (hc_url c) (remote w) = (t, r)" and "replies t status"
  shows "\<exists>c'. http_client_request X c w = Some (0, c', w\<lparr>remote := r\<rparr>) \<and> hc_info c' = (0, status)"
  using assms by (auto simp: http_client_request_def Let_def feed_eat replies_def)

lemma body_of_request:
  assumes "hc_body c = empty_body" and "swarm_at D m w"
    and "curl_perform X (hc_opts (prepare_request (http_client_enable_response_body c))) (hc_url c) (remote w) = (t, r)"
    and "replies t status" and "short_reply t b"
  shows "\<exists>c'. http_client_request X (http_client_enable_response_body c) w = Some (0, c', w\<lparr>remote := r, tick := Suc (tick w)\<rparr>)
    \<and> hc_info c' = (0, status) \<and> (\<forall>j. cJSON_Parse X (takeWhile (\<lambda>c. c \<noteq> NUL) b) = Some j \<longrightarrow> reply_json X c' = Some (Some j))"
proof -
  let ?c = "http_client_enable_response_body c" and ?w = "w\<lparr>remote := r\<rparr>"
  have wf: "write_fn_of (hc_opts ?c) = Response_body" "hc_body ?c = empty_body" "hc_url ?c = hc_url c"
    using assms(1) by (simp_all add: http_client_enable_response_body_def setopt_def write_fn_of_def)
  have "faults ?w = []" "\<forall>t i. heap_junk ?w t i = NUL" using assms(2) by (simp_all add: swarm_at_def easy_def network_up_def)
  then obtain d where "http_response_body_write_callback b empty_body ?w = Some (length b, d, ?w\<lparr>tick := Suc (tick ?w)\<rparr>)"
    "rb_used d \<noteq> 0" "c_string_in (rb_data d) = Some (takeWhile (\<lambda>c. c \<noteq> NUL) b)"
    using callback_once [of ?w b] assms(5) by (auto simp: short_reply_def)
  then show ?thesis
    using wf assms(3-5)
    by (auto simp: http_client_request_def Let_def write_cb_def short_reply_def replies_def reply_json_def
        http_client_move_response_body_def parse_block_def)
qed

lemma fed_whole:
  "length (sk_data k) + length (concat chs) \<le> sk_cap k \<Longrightarrow> sk_cap k \<le> room
    \<Longrightarrow> feed (get_response_body_cb room) chs k = Some (True, k\<lparr>sk_data := sk_data k @ concat chs\<rparr>)"
  by (induction chs arbitrary: k) (auto simp: get_response_body_cb_def)

lemma contents_request:
  assumes "curl_perform X (hc_opts (prepare_request (http_client_set_response_body c (get_response_body_cb room) \<lparr>sk_cap = n, sk_data = []\<rparr>)))
      (hc_url c) (remote w) = (t, r)" and "replies t status" and "length (concat (t_chunks t)) \<le> n" and "n \<le> room"
  shows "\<exists>c'. http_client_request X (http_client_set_response_body c (get_response_body_cb room) \<lparr>sk_cap = n, sk_data = []\<rparr>) w
    = Some (0, c', w\<lparr>remote := r\<rparr>) \<and> hc_info c' = (0, status) \<and> sk_data (hc_sink c') = concat (t_chunks t)"
proof -
  let ?d = "http_client_set_response_body c (get_response_body_cb room) \<lparr>sk_cap = n, sk_data = []\<rparr>"
  have "write_fn_of (hc_opts ?d) = Caller_cb (get_response_body_cb room)" "hc_sink ?d = \<lparr>sk_cap = n, sk_data = []\<rparr>" "hc_url ?d = hc_url c"
    by (simp_all add: http_client_set_response_body_def setopt_def write_fn_of_def)
  with assms show ?thesis
    using fed_whole [of "\<lparr>sk_cap = n, sk_data = []\<rparr>" "t_chunks t" room]
    by (auto simp: http_client_request_def Let_def feed_caller_cb replies_def)
qed

lemma node_tested:
  assumes "swarm_laws X D" "swarm_at D m w"
  shows "\<exists>rc w'. test_reachable X ip port w = Some (rc, w') \<and> swarm_at D m w'
    \<and> (rc = 0 \<longleftrightarrow> length (node_url ip port ''/version'') \<le> MAXPATHLEN \<and> runs D (node_base ip port))"
proof (cases "length (node_url ip port ''/version'') \<le> MAXPATHLEN")
  case False
  then show ?thesis using assms(2) by (auto simp: test_reachable_def c_snprintf_def Let_def)
next
  case True
  let ?url = "node_url ip port ''/version''" and ?w = "w\<lparr>live_http := live_http w + 1\<rparr>"
  have url: "?url \<noteq> []" by (simp add: node_url_def)
  define c where "c = fresh_client\<lparr>hc_url := [Url_set CURLUPART_URL (Some ?url) True False],
      hc_opts := hc_opts fresh_client @ [CURLOPT_POST 1, CURLOPT_POSTFIELDS None, CURLOPT_POSTFIELDSIZE 0, CURLOPT_TIMEOUT 5]\<rparr>"
  obtain t r where t: "curl_perform X (hc_opts (prepare_request c)) (hc_url c) (remote w) = (t, r)" by fastforce
  have u: "req_url (hc_url c) = node_base ip port @ ''/version''" by (simp add: c_def req_url_def node_url_base)
  have a: "blocks D r = m" "runs D (node_base ip port) \<Longrightarrow> replies t HttpStatus_OK" "\<not> runs D (node_base ip port) \<Longrightarrow> refused t"
    using assms t u unfolding swarm_laws_def answers_version_def down_refuses_def swarm_at_def by blast+
  have e: "write_fn_of (hc_opts c) = Eat_output" by (simp add: c_def write_fn_of_def fresh_client_def base_opts_def)
  have v: "swarm_at D m (http_client_close (?w\<lparr>remote := r\<rparr>))"
    using assms(2) a(1) by (simp add: swarm_at_steps) (simp add: swarm_at_def easy_def network_up_def)
  have step: "test_reachable X ip port w = (do {
      (rc, c4, w2) \<leftarrow> http_client_request X c ?w;
      if rc \<noteq> 0 then Some (int_of_error (HIVE_CURL_ERROR rc), http_client_close w2)
      else (case http_client_get_response_code c4 of (rc, resp) \<Rightarrow>
        let w3 = http_client_close w2 in
        if rc \<noteq> 0 then Some (int_of_error (HIVE_CURL_ERROR rc), w3)
        else if resp_code_of resp \<noteq> HttpStatus_OK
        then Some (int_of_error (HIVE_HTTP_STATUS_ERROR (resp_code_of resp)), w3)
        else Some (0, w3)) })"
    using True url
    by (simp add: test_reachable_def c_snprintf_def Let_def easy_new [OF assms(2)] http_client_set_url_def curl_url_set_def
        http_client_set_method_def http_client_set_timeout_def http_client_set_request_body_instant_def setopt_def c_def fresh_client_def)
  show ?thesis
  proof (cases "runs D (node_base ip port)")
    case up: True
    obtain c' where "http_client_request X c ?w = Some (0, c', ?w\<lparr>remote := r\<rparr>)" "hc_info c' = (0, HttpStatus_OK)"
      using stored_request [OF e _ a(2) [OF up], of X ?w r] t by auto
    with v True up show ?thesis by (simp add: step http_client_get_response_code_def resp_code_of_def Let_def hive_const)
  next
    case down: False
    obtain c' where "http_client_request X c ?w = Some (t_code t, c', ?w\<lparr>remote := r\<rparr>)" "t_code t \<noteq> 0"
      using refused_request [OF _ a(3) [OF down], of X c ?w r] t by auto
    with v down show ?thesis using error_codes_nonzero by (simp add: step)
  qed
qed

text \<open>Making sure of a node finds one that is up, unless the current one is down.\<close>

lemma first_reached_Some:
  "first_reached reach ns = Some (ip, port) \<Longrightarrow> ip \<noteq> [] \<and> reach ip port \<and> (\<exists>n \<in> set ns. ip = node_ipv4 n \<or> ip = node_ipv6 n)"
  by (induction ns) (auto simp: node_reached_def split: if_splits option.splits)

lemma first_reached_None:
  "first_reached reach ns = None \<longleftrightarrow> (\<forall>n \<in> set ns. node_reached reach n = None)"
  by (induction ns) (auto split: option.splits)

lemma chosen:
  assumes "swarm_laws X D" "swarm_at D m w" "served D cn" "\<not> stranded D cn"
  shows "\<exists>cn' w'. check_reachable X cn w = Some (0, cn', w') \<and> seated D cn' \<and> served D cn' \<and> swarm_at D m w'"
proof (cases "current_node_ip (ic_rpc cn) = []")
  case False
  with assms show ?thesis by (simp add: check_reachable_def ipfs_rpc_check_reachable_def seated_def stranded_def)
next
  case True
  define reach where "reach = (\<lambda>ip port. length (node_url ip port ''/version'') \<le> MAXPATHLEN \<and> runs D (node_base ip port))"
  let ?nodes = "rpc_nodes (ic_rpc cn)" and ?base = "fst (c_rand w)"
  have short: "length (node_url ip port ''/version'') \<le> MAXPATHLEN" if "length ip \<le> 47" for ip port
    using length_node_url [of ip port "''/version''"] that by (simp add: MAXPATHLEN_def)
  have tested: "\<exists>rc w'. test_reachable X ip port v = Some (rc, w') \<and> swarm_at D m w' \<and> (rc = 0 \<longleftrightarrow> reach ip port)"
    if "swarm_at D m v" for ip port v
    using node_tested [OF assms(1) that] unfolding reach_def by blast
  have rand: "swarm_at D m (snd (c_rand v))" if "swarm_at D m v" for v
    using that by (simp add: c_rand_def swarm_at_steps)
  have lens: "\<forall>n \<in> set ?nodes. length (node_ipv4 n) \<le> 47 \<and> length (node_ipv6 n) \<le> 47" and ne: "?nodes \<noteq> []"
    using assms(3) by (auto simp: served_def)
  obtain w' where w': "swarm_at D m w'" "select_bootstrap X ?nodes w =
     Some ((case first_reached reach (rotate ?base ?nodes) of
              None \<Rightarrow> (int_of_error (HIVE_GENERAL_ERROR HIVEERR_BAD_BOOTSTRAP_HOST), None)
            | Some sel \<Rightarrow> (0, Some sel)), w')"
    using select_first_answer [of "swarm_at D m" X reach, OF tested rand assms(2) ne lens] by blast
  obtain n where "n \<in> set ?nodes" "node_ipv4 n \<noteq> [] \<and> runs D (node_base (node_ipv4 n) (node_port n))
      \<or> node_ipv6 n \<noteq> [] \<and> runs D (node_base (node_ipv6 n) (node_port n))" and l: "length (node_ipv4 n) \<le> 47" "length (node_ipv6 n) \<le> 47"
    using assms(3) by (auto simp: served_def)
  then have "\<exists>n \<in> set (rotate ?base ?nodes). node_reached reach n \<noteq> None"
    using short [OF l(1)] short [OF l(2)] by (intro bexI [of _ n]) (auto simp: node_reached_def reach_def)
  then obtain ip port where sel: "first_reached reach (rotate ?base ?nodes) = Some (ip, port)"
    using first_reached_None [of reach "rotate ?base ?nodes"] by (cases "first_reached reach (rotate ?base ?nodes)") auto
  have ip: "ip \<noteq> []" "runs D (node_base ip port)" "length ip \<le> 47"
    using first_reached_Some [OF sel] lens by (auto simp: reach_def)
  let ?cn = "cn\<lparr>ic_rpc := (ic_rpc cn)\<lparr>current_node_ip := ip, current_node_port := port\<rparr>\<rparr>"
  have "check_reachable X cn w = Some (0, ?cn, w')"
    using True w'(2) sel by (simp add: check_reachable_def ipfs_rpc_check_reachable_def)
  moreover have "seated D ?cn" "served D ?cn" using ip assms(3) by (auto simp: seated_def served_def current_base_def)
  ultimately show ?thesis using w'(1) by blast
qed

text \<open>With a current node, up or down, nothing is asked.\<close>

lemma current:
  assumes "current_node_ip (ic_rpc cn) \<noteq> []"
  shows "check_reachable X cn w = Some (0, cn, w)"
  using assms by (simp add: check_reachable_def ipfs_rpc_check_reachable_def)

lemma current_url:
  assumes "served D cn" "length path \<le> 100"
  shows "api_url cn path = Some (current_base cn @ path)"
  using assms length_node_url [of "current_node_ip (ic_rpc cn)" "current_node_port (ic_rpc cn)" path]
  by (simp add: api_url_def served_def ipfs_rpc_get_current_node_ip_def ipfs_rpc_get_current_node_port_def MAX_URL_LEN_def
      node_url_base current_base_def)

section \<open>The methods of the backend\<close>

definition try_later :: int where
  "try_later = int_of_error (HIVE_GENERAL_ERROR HIVEERR_TRY_AGAIN)"

definition unset :: "IPFSConnect \<Rightarrow> IPFSConnect" where
  "unset cn = cn\<lparr>ic_rpc := ipfs_rpc_mark_node_unreachable (ic_rpc cn)\<rparr>"

lemma unset_free: "\<not> stranded D (unset cn)" "served D cn \<Longrightarrow> served D (unset cn)"
  by (auto simp: unset_def stranded_def served_def ipfs_rpc_mark_node_unreachable_def)

lemma stranded_request:
  assumes "swarm_laws X D" "swarm_at D m w" "stranded D cn" "req_url (hc_url c) = current_base cn @ path"
    and "path \<in> {''/version'', ''/api/v0/add'', ''/api/v0/file/ls'', ''/api/v0/cat''}"
  shows "\<exists>c' w'. node_request X c cn w = Some ((Some try_later, c'), unset cn, w') \<and> swarm_at D m w'"
proof -
  obtain t r where t: "curl_perform X (hc_opts (prepare_request c)) (hc_url c) (remote w) = (t, r)" by fastforce
  have a: "blocks D r = m" "refused t"
    using assms t unfolding swarm_laws_def down_refuses_def swarm_at_def stranded_def by blast+
  then have "swarm_at D m (w\<lparr>remote := r\<rparr>)" using assms(2) by (simp add: swarm_at_steps) (simp add: swarm_at_def)
  moreover obtain c' where "http_client_request X c w = Some (t_code t, c', w\<lparr>remote := r\<rparr>)" "t_code t \<noteq> 0"
    using refused_request [OF t a(2)] by blast
  ultimately show ?thesis
    using a(2) by (simp add: node_request_def refused_def try_later_def unset_def)
qed

text \<open>The clients of the three requests, as the methods make them.\<close>

definition client_for :: "string \<Rightarrow> http_client" where
  "client_for url = fresh_client\<lparr>hc_url := [Url_set CURLUPART_URL (Some url) True False], hc_opts := base_opts @ [CURLOPT_POST 1]\<rparr>"

definition add_client :: "string \<Rightarrow> bytes \<Rightarrow> http_client" where
  "add_client url d = (client_for url)\<lparr>hc_mime := Some [\<lparr>mp_name = Some ''file'', mp_filename = None, mp_type = None, mp_data = d\<rparr>]\<rparr>"

definition ask_client :: "string \<Rightarrow> string \<Rightarrow> http_client" where
  "ask_client url cid = (client_for url)\<lparr>hc_url := [Url_set CURLUPART_URL (Some url) True False,
     Url_set CURLUPART_QUERY (Some (''arg='' @ cid)) True True]\<rparr>"

lemmas client_defs = add_client_def ask_client_def client_for_def fresh_client_def base_opts_def

lemma clients:
  "req_url (hc_url (add_client url d)) = url" "req_url (hc_url (ask_client url cid)) = url"
  "req_query (hc_url (ask_client url cid)) = ''arg='' @ cid"
  "hc_body (add_client url d) = empty_body" "hc_body (ask_client url cid) = empty_body"
  "req_file (hc_opts (prepare_request (http_client_enable_response_body (add_client url d)))) = d"
  "hc_url (http_client_enable_response_body c) = hc_url c" "hc_url (http_client_set_response_body c f k) = hc_url c"
  "hc_url (http_client_set_request_body_instant c v n) = hc_url c"
  by (simp_all add: client_defs req_url_def req_query_def req_file_def prepare_request_def http_client_enable_response_body_def
      http_client_set_response_body_def http_client_set_request_body_instant_def setopt_def Let_def)

text \<open>Until the request, the methods come to these clients.\<close>

lemma put_reaches:
  assumes "check_reachable X cn w = Some (0, cn1, w1)" "served D cn1" "swarm_at D m w1"
  shows "ipfs_put_file_from_buffer X d enc cn w = (do {
     ((e, c3), cn3, w3) \<leftarrow> node_request X (http_client_enable_response_body (add_client (current_base cn1 @ ''/api/v0/add'') d)) cn1
        (w1\<lparr>live_http := live_http w1 + 1\<rparr>);
     let w4 = http_client_close w3;
     let oom = int_of_error (HIVE_GENERAL_ERROR HIVEERR_OUT_OF_MEMORY);
     case (case e of None \<Rightarrow> map_option int_of_error (reply_error c3) | Some e \<Rightarrow> Some e) of
       Some e \<Rightarrow> Some ((e, None), cn3, w4)
     | None \<Rightarrow> do {
         resp \<leftarrow> reply_json X c3;
         case resp of
           None \<Rightarrow> Some ((oom, None), cn3, w4)
         | Some j \<Rightarrow>
             (let cid_json = cJSON_GetObjectItemCaseSensitive X j ''Hash'';
                  bad = Some ((int_of_error (HIVE_GENERAL_ERROR HIVEERR_BAD_JSON_FORMAT), None), cn3, w4)
              in if \<not> is_string X cid_json \<or> (case cid_json of None \<Rightarrow> True | Some i \<Rightarrow> j_string X i = None)
                 then bad
                 else do {
                   v \<leftarrow> valuestring_of X cid_json;
                   if v = [] \<or> HIVE_MAX_IPFS_CID_LEN + 1 \<le> length v then bad
                   else do {
                     content \<leftarrow> c_strcpy (HIVE_MAX_IPFS_CID_LEN + 1) v;
                     Some ((0, Some content), cn3, w4)
                   }
                 })
       }
   })"
  using assms
  by (simp add: ipfs_put_file_from_buffer_def current_url easy_new http_client_set_url_def curl_url_set_def
      http_client_set_method_def http_client_set_mime_instant_def setopt_def client_defs Let_def)

lemma put_block:
  assumes "swarm_laws X D" "swarm_at D m w" "served D cn" "\<not> stranded D cn" "length d \<le> HIVE_MAX_FILE_SIZE"
  shows "\<exists>cn' w'. ipfs_put_file_from_buffer X d enc cn w = Some ((0, Some (cid_of D d)), cn', w')
    \<and> seated D cn' \<and> served D cn' \<and> swarm_at D (m(cid_of D d \<mapsto> d)) w'"
proof -
  obtain cn1 w1 where c1: "check_reachable X cn w = Some (0, cn1, w1)" "seated D cn1" "served D cn1" "swarm_at D m w1"
    using chosen [OF assms(1-4)] by blast
  let ?c = "add_client (current_base cn1 @ ''/api/v0/add'') d" and ?w = "w1\<lparr>live_http := live_http w1 + 1\<rparr>"
  obtain t r where t: "curl_perform X (hc_opts (prepare_request (http_client_enable_response_body ?c))) (hc_url ?c) (remote ?w) = (t, r)"
    by fastforce
  have "blocks D r = (blocks D (remote ?w))(cid_of D d \<mapsto> d) \<and> replies t HttpStatus_OK \<and>
       (\<exists>b j i. short_reply t b \<and> cJSON_Parse X (takeWhile (\<lambda>c. c \<noteq> NUL) b) = Some j \<and>
          cJSON_GetObjectItemCaseSensitive X j ''Hash'' = Some i \<and> cJSON_IsString X i \<and> j_string X i \<noteq> None \<and>
          j_valuestring X i = Some (cid_of D d))"
    using assms(1,5) t c1(2) clients(1,6) unfolding swarm_laws_def answers_add_def seated_def by metis
  then obtain b j i where a: "blocks D r = m(cid_of D d \<mapsto> d)" "replies t HttpStatus_OK" "short_reply t b"
      "cJSON_Parse X (takeWhile (\<lambda>c. c \<noteq> NUL) b) = Some j" "cJSON_GetObjectItemCaseSensitive X j ''Hash'' = Some i"
      "cJSON_IsString X i" "j_string X i \<noteq> None" "j_valuestring X i = Some (cid_of D d)"
    using c1(4) by (auto simp: swarm_at_def)
  have at: "swarm_at D m ?w" using c1(4) by (simp add: swarm_at_steps)
  obtain c' where c': "http_client_request X (http_client_enable_response_body ?c) ?w = Some (0, c', ?w\<lparr>remote := r, tick := Suc (tick ?w)\<rparr>)"
      "hc_info c' = (0, HttpStatus_OK)" "reply_json X c' = Some (Some j)"
    using body_of_request [OF clients(4) at t a(2,3)] a(4) by blast
  have "swarm_at D (m(cid_of D d \<mapsto> d)) (http_client_close (?w\<lparr>remote := r, tick := Suc (tick ?w)\<rparr>))"
    using c1(4) a(1) by (simp add: swarm_at_def easy_def network_up_def http_client_close_def)
  moreover have "cid_of D d \<noteq> []" "length (cid_of D d) \<le> HIVE_MAX_IPFS_CID_LEN" using assms(1) by (auto simp: swarm_laws_def)
  ultimately show ?thesis
    using c1 c' a by (auto simp: put_reaches [OF c1(1,3,4)] node_request_def reply_error_def http_client_get_response_code_def
        resp_code_of_def Let_def is_string_def valuestring_of_def hive_const)
qed

lemma length_reaches:
  assumes "check_reachable X cn w = Some (0, cn1, w1)" "served D cn1" "swarm_at D m w1" "cid \<noteq> []"
  shows "ipfs_get_file_length X cid cn w = (do {
     ((e, c4), cn3, w3) \<leftarrow> node_request X (http_client_enable_response_body (ask_client (current_base cn1 @ ''/api/v0/file/ls'') cid)) cn1
        (w1\<lparr>live_http := live_http w1 + 1\<rparr>);
     let w4 = http_client_close w3;
     case (case e of None \<Rightarrow> map_option int_of_error (reply_error c4) | Some e \<Rightarrow> Some e) of
       Some e \<Rightarrow> Some (e, cn3, w4)
     | None \<Rightarrow> do {
         resp \<leftarrow> reply_json X c4;
         Some (case resp of
           None \<Rightarrow> (ssize_of_error (HIVE_GENERAL_ERROR HIVEERR_OUT_OF_MEMORY), cn3, w4)
         | Some j \<Rightarrow> (case object_size X j cid of
             None \<Rightarrow> (ssize_of_error (HIVE_GENERAL_ERROR HIVEERR_BAD_JSON_FORMAT), cn3, w4)
           | Some fsize \<Rightarrow> (fsize, cn3, w4)))
       }
   })"
  using assms
  by (simp add: ipfs_get_file_length_def current_url easy_new http_client_set_url_def curl_url_set_def http_client_set_query_def
      http_client_set_method_def setopt_def client_defs Let_def)

text \<open>The length of a block; an error for one that is not there.\<close>

lemma block_length:
  assumes "swarm_laws X D" "swarm_at D m w" "served D cn" "\<not> stranded D cn" "cid \<noteq> []"
  shows "\<exists>n cn' w'. ipfs_get_file_length X cid cn w = Some (n, cn', w') \<and> seated D cn' \<and> served D cn' \<and> swarm_at D m w'
    \<and> (case m cid of None \<Rightarrow> n < 0 | Some d \<Rightarrow> n = int (length d))"
proof -
  obtain cn1 w1 where c1: "check_reachable X cn w = Some (0, cn1, w1)" "seated D cn1" "served D cn1" "swarm_at D m w1"
    using chosen [OF assms(1-4)] by blast
  let ?c = "ask_client (current_base cn1 @ ''/api/v0/file/ls'') cid" and ?w = "w1\<lparr>live_http := live_http w1 + 1\<rparr>"
  obtain t r where t: "curl_perform X (hc_opts (prepare_request (http_client_enable_response_body ?c))) (hc_url ?c) (remote ?w) = (t, r)"
    by fastforce
  have "blocks D r = blocks D (remote ?w) \<and>
       (\<exists>b. short_reply t b \<and>
         (case blocks D (remote ?w) cid of
            None \<Rightarrow> \<exists>status. replies t status \<and> status \<noteq> HttpStatus_OK
          | Some d \<Rightarrow> replies t HttpStatus_OK \<and>
              (\<exists>j. cJSON_Parse X (takeWhile (\<lambda>c. c \<noteq> NUL) b) = Some j \<and> size_reply X j cid (length d))))"
    using assms(1) t c1(2) clients(2,3) unfolding swarm_laws_def answers_size_def seated_def by blast
  then obtain b where a: "blocks D r = m" "short_reply t b"
      "case m cid of None \<Rightarrow> \<exists>status. replies t status \<and> status \<noteq> HttpStatus_OK
        | Some d \<Rightarrow> replies t HttpStatus_OK \<and>
            (\<exists>j. cJSON_Parse X (takeWhile (\<lambda>c. c \<noteq> NUL) b) = Some j \<and> size_reply X j cid (length d))"
    using c1(4) by (auto simp: swarm_at_def)
  have at: "swarm_at D m ?w" using c1(4) by (simp add: swarm_at_steps)
  have w: "swarm_at D m (http_client_close (?w\<lparr>remote := r, tick := Suc (tick ?w)\<rparr>))"
    using c1(4) a(1) by (simp add: swarm_at_def easy_def network_up_def http_client_close_def)
  note step = length_reaches [OF c1(1,3,4) assms(5)] node_request_def reply_error_def http_client_get_response_code_def
    resp_code_of_def Let_def hive_const
  show ?thesis
  proof (cases "m cid")
    case None
    then obtain status where s: "replies t status" "status \<noteq> HttpStatus_OK" using a(3) by auto
    obtain c' where "http_client_request X (http_client_enable_response_body ?c) ?w = Some (0, c', ?w\<lparr>remote := r, tick := Suc (tick ?w)\<rparr>)"
      "hc_info c' = (0, status)"
      using body_of_request [OF clients(5) at t s(1) a(2)] by blast
    with None w c1 s(2) error_codes_neg show ?thesis by (simp add: step)
  next
    case (Some d)
    then obtain j where j: "replies t HttpStatus_OK" "cJSON_Parse X (takeWhile (\<lambda>c. c \<noteq> NUL) b) = Some j" "size_reply X j cid (length d)"
      using a(3) by auto
    obtain c' where "http_client_request X (http_client_enable_response_body ?c) ?w = Some (0, c', ?w\<lparr>remote := r, tick := Suc (tick ?w)\<rparr>)"
      "hc_info c' = (0, HttpStatus_OK)" "reply_json X c' = Some (Some j)"
      using body_of_request [OF clients(5) at t j(1) a(2)] j(2) by blast
    moreover have "object_size X j cid = Some (int (length d))" using j(3) by (auto simp: size_reply_def object_size_def)
    ultimately show ?thesis using Some w c1 by (simp add: step)
  qed
qed

lemma get_reaches:
  assumes "ipfs_get_file_length X cid cn w = Some (fsize, cn1, w1)" "0 < fsize" "fsize \<le> int buflen"
    and "current_node_ip (ic_rpc cn1) \<noteq> []" "served D cn1" "swarm_at D m w1" "cid \<noteq> []"
  shows "ipfs_get_file_to_buffer X cid dec room buflen cn w = (do {
     ((e, c4), cn3, w3) \<leftarrow> node_request X
       (http_client_set_response_body (http_client_set_request_body_instant
           (ask_client (current_base cn1 @ ''/api/v0/cat'') cid) None 0)
          (get_response_body_cb room) \<lparr>sk_cap = buflen, sk_data = []\<rparr>) cn1 (w1\<lparr>live_http := live_http w1 + 1\<rparr>);
     let w4 = http_client_close w3;
     let got = sk_data (hc_sink c4);
     Some (case (case e of None \<Rightarrow> map_option ssize_of_error (reply_error c4) | Some e \<Rightarrow> Some e) of
       Some e \<Rightarrow> ((e, got), cn3, w4)
     | None \<Rightarrow>
         if fsize \<noteq> int (length got)
         then ((ssize_of_error (HIVE_GENERAL_ERROR HIVEERR_BAD_PERSISTENT_DATA), got), cn3, w4)
         else ((fsize, got), cn3, w4))
   })"
  using assms current [OF assms(4), of X w1]
  by (simp add: ipfs_get_file_to_buffer_def current_url easy_new http_client_set_url_def curl_url_set_def http_client_set_query_def
      http_client_set_method_def setopt_def client_defs Let_def)

lemma get_block:
  assumes "swarm_laws X D" "swarm_at D m w" "served D cn" "\<not> stranded D cn" "cid \<noteq> []" "0 < buflen" "buflen \<le> room"
    and "\<And>d. m cid = Some d \<Longrightarrow> length d \<le> buflen"
  shows "\<exists>n got cn' w'. ipfs_get_file_to_buffer X cid dec room buflen cn w = Some ((n, got), cn', w') \<and> seated D cn' \<and> served D cn'
    \<and> swarm_at D m w' \<and> (case m cid of None \<Rightarrow> n < 0 | Some d \<Rightarrow> n = int (length d) \<and> got = d)"
proof -
  obtain n cn1 w1 where l: "ipfs_get_file_length X cid cn w = Some (n, cn1, w1)" "seated D cn1" "served D cn1" "swarm_at D m w1"
    "case m cid of None \<Rightarrow> n < 0 | Some d \<Rightarrow> n = int (length d)"
    using block_length [OF assms(1-5)] by blast
  show ?thesis
  proof (cases "0 < n")
    case False
    with l show ?thesis by (auto simp: ipfs_get_file_to_buffer_def split: option.splits)
  next
    case True
    then obtain d where d: "m cid = Some d" "n = int (length d)" "length d \<le> buflen"
      using l(5) assms(8) by (cases "m cid") auto
    let ?c = "http_client_set_request_body_instant (ask_client (current_base cn1 @ ''/api/v0/cat'') cid) None 0"
      and ?w = "w1\<lparr>live_http := live_http w1 + 1\<rparr>" and ?k = "\<lparr>sk_cap = buflen, sk_data = []\<rparr>"
    let ?d = "http_client_set_response_body ?c (get_response_body_cb room) ?k"
    obtain t r where t: "curl_perform X (hc_opts (prepare_request ?d)) (hc_url ?c) (remote ?w) = (t, r)" by fastforce
    have "blocks D (remote ?w) cid = Some d" using l(4) d(1) by (simp add: swarm_at_def)
    then have a: "blocks D r = blocks D (remote ?w)" "replies t HttpStatus_OK" "concat (t_chunks t) = d"
      using assms(1) t l(2) clients(2,3,9) unfolding swarm_laws_def answers_cat_def seated_def by metis+
    obtain c' where c': "http_client_request X ?d ?w = Some (0, c', ?w\<lparr>remote := r\<rparr>)" "hc_info c' = (0, HttpStatus_OK)"
      "sk_data (hc_sink c') = d"
      using contents_request [OF t a(2) _ assms(7)] a(3) d(3) by auto
    have "swarm_at D m (http_client_close (?w\<lparr>remote := r\<rparr>))"
      using l(4) a(1) by (simp add: swarm_at_def easy_def network_up_def http_client_close_def)
    moreover have "0 < n" "n \<le> int buflen" "current_node_ip (ic_rpc cn1) \<noteq> []" using True d l(2) by (auto simp: seated_def)
    ultimately show ?thesis
      using l c' d
      by (simp add: get_reaches [OF l(1) _ _ _ l(3,4) assms(5)] node_request_def reply_error_def
          http_client_get_response_code_def resp_code_of_def Let_def hive_const)
  qed
qed

text \<open>When the current node is down, each of them fails once and the node is no longer the current one.\<close>

lemma stranded_ops:
  assumes "swarm_laws X D" "swarm_at D m w" "served D cn" "stranded D cn"
  shows "\<exists>w'. ipfs_put_file_from_buffer X d enc cn w = Some ((try_later, None), unset cn, w') \<and> swarm_at D m w'"
    and "cid \<noteq> [] \<Longrightarrow> \<exists>w'. ipfs_get_file_length X cid cn w = Some (try_later, unset cn, w') \<and> swarm_at D m w'"
    and "cid \<noteq> [] \<Longrightarrow> \<exists>w'. ipfs_get_file_to_buffer X cid dec room buflen cn w = Some ((try_later, []), unset cn, w') \<and> swarm_at D m w'"
proof -
  let ?w = "w\<lparr>live_http := live_http w + 1\<rparr>"
  have at: "swarm_at D m ?w" using assms(2) by (simp add: swarm_at_steps)
  have c: "check_reachable X cn w = Some (0, cn, w)" using assms(4) by (simp add: current stranded_def)
  obtain c' v where "node_request X (http_client_enable_response_body (add_client (current_base cn @ ''/api/v0/add'') d)) cn ?w
      = Some ((Some try_later, c'), unset cn, v)" "swarm_at D m v"
    using stranded_request [OF assms(1) at assms(4), of "http_client_enable_response_body (add_client (current_base cn @ ''/api/v0/add'') d)"
        "''/api/v0/add''"] by (auto simp: clients)
  then show "\<exists>w'. ipfs_put_file_from_buffer X d enc cn w = Some ((try_later, None), unset cn, w') \<and> swarm_at D m w'"
    by (simp add: put_reaches [OF c assms(3,2)] Let_def swarm_at_steps)
  show len: "\<exists>w'. ipfs_get_file_length X cid cn w = Some (try_later, unset cn, w') \<and> swarm_at D m w'" if "cid \<noteq> []"
  proof -
    obtain c' v where "node_request X (http_client_enable_response_body (ask_client (current_base cn @ ''/api/v0/file/ls'') cid)) cn ?w
        = Some ((Some try_later, c'), unset cn, v)" "swarm_at D m v"
      using stranded_request [OF assms(1) at assms(4), of "http_client_enable_response_body (ask_client (current_base cn @ ''/api/v0/file/ls'') cid)"
          "''/api/v0/file/ls''"] by (auto simp: clients)
    then show ?thesis by (simp add: length_reaches [OF c assms(3,2) that] Let_def swarm_at_steps)
  qed
  show "\<exists>w'. ipfs_get_file_to_buffer X cid dec room buflen cn w = Some ((try_later, []), unset cn, w') \<and> swarm_at D m w'" if "cid \<noteq> []"
    using len [OF that] by (auto simp: ipfs_get_file_to_buffer_def try_later_def less_imp_le)
qed

section \<open>The client API\<close>

text \<open>The calls of an application, each argument one the API takes; the answer is the C result with the name or
  the contents delivered.\<close>

datatype block_op = Add bytes | Length_of string | Fetch string nat

fun block_allowed :: "block_op \<Rightarrow> (string \<Rightarrow> bytes option) \<Rightarrow> bool" where
  "block_allowed (Add d) m \<longleftrightarrow> length d \<le> HIVE_MAX_FILE_SIZE"
| "block_allowed (Length_of cid) m \<longleftrightarrow> cid \<noteq> []"
| "block_allowed (Fetch cid buflen) m \<longleftrightarrow> cid \<noteq> [] \<and> 0 < buflen
     \<and> (case m cid of None \<Rightarrow> True | Some d \<Rightarrow> length d \<le> buflen)"

fun block_answer :: "(bytes \<Rightarrow> string) \<Rightarrow> block_op \<Rightarrow> (string \<Rightarrow> bytes option) \<Rightarrow> int \<times> bytes option" where
  "block_answer name (Add d) m = (0, Some (name d))"
| "block_answer name (Length_of cid) m = (case m cid of None \<Rightarrow> (-1, None) | Some d \<Rightarrow> (int (length d), None))"
| "block_answer name (Fetch cid buflen) m = (case m cid of None \<Rightarrow> (-1, None) | Some d \<Rightarrow> (int (length d), Some d))"

fun block_effect :: "(bytes \<Rightarrow> string) \<Rightarrow> block_op \<Rightarrow> (string \<Rightarrow> bytes option) \<Rightarrow> string \<Rightarrow> bytes option" where
  "block_effect name (Add d) m = m(name d \<mapsto> d)"
| "block_effect name _ m = m"

text \<open>A run of the store; when \<open>down\<close>, the first call fails and has no effect.\<close>

fun block_run :: "(bytes \<Rightarrow> string) \<Rightarrow> bool \<Rightarrow> block_op list \<Rightarrow> (string \<Rightarrow> bytes option)
    \<Rightarrow> (int \<times> bytes option) list \<times> (string \<Rightarrow> bytes option)" where
  "block_run name down [] m = ([], m)"
| "block_run name down (a # as) m =
     (if down then apfst ((#) (-1, None)) (block_run name False as m)
      else apfst ((#) (block_answer name a m)) (block_run name False as (block_effect name a m)))"

fun block_allowed_run :: "(bytes \<Rightarrow> string) \<Rightarrow> bool \<Rightarrow> block_op list \<Rightarrow> (string \<Rightarrow> bytes option) \<Rightarrow> bool" where
  "block_allowed_run name down [] m \<longleftrightarrow> True"
| "block_allowed_run name down (a # as) m \<longleftrightarrow> block_allowed a m
     \<and> block_allowed_run name False as (if down then m else block_effect name a m)"

fun block_call ::
  "(IPFSConnect, 'r, 'c) HiveConnect \<Rightarrow> block_op \<Rightarrow> ('r, int \<times> bytes option) ipfs_op" where
  "block_call C (Add d) = hive_ipfs_put_file_from_buffer (Some C) (Some d) (length d) False True"
| "block_call C (Length_of cid) = (\<lambda>cn w. do {
     (n, cn', w') \<leftarrow> hive_ipfs_get_file_length (Some C) (Some cid) cn w; Some ((n, None), cn', w') })"
| "block_call C (Fetch cid buflen) = (\<lambda>cn w. do {
     ((n, got), cn', w') \<leftarrow> hive_ipfs_get_file_to_buffer (Some C) (Some cid) False (Some buflen) buflen cn w;
     Some ((n, if n < 0 then None else Some got), cn', w') })"

fun block_calls ::
  "(IPFSConnect, 'r, 'c) HiveConnect \<Rightarrow> block_op list \<Rightarrow> ('r, (int \<times> bytes option) list) ipfs_op" where
  "block_calls C [] cn w = Some ([], cn, w)"
| "block_calls C (a # as) cn w = do {
     (o1, cn1, w1) \<leftarrow> block_call C a cn w;
     (os, cn2, w2) \<leftarrow> block_calls C as cn1 w1;
     Some (o1 # os, cn2, w2)
   }"

lemmas block_calls_defs = hive_ipfs_put_file_from_buffer_def hive_ipfs_get_file_length_def hive_ipfs_get_file_to_buffer_def
  api_call_def unplain_def plain_def ipfs_methods_def block_def int_result_def ssize_result_def null_or_empty_def

lemma call_served:
  assumes "swarm_laws X D" "swarm_at D m w" "served D cn" "\<not> stranded D cn" "block_allowed a m"
  shows "\<exists>cn' w'. block_call (ipfs_methods X) a cn w = Some (block_answer (cid_of D) a m, cn', w')
    \<and> \<not> stranded D cn' \<and> served D cn' \<and> swarm_at D (block_effect (cid_of D) a m) w'"
proof (cases a)
  case (Add d)
  with put_block [OF assms(1-4), of d False] assms(5) show ?thesis
    by (auto simp: block_calls_defs seated_def stranded_def)
next
  case (Length_of cid)
  with block_length [OF assms(1-4), of cid] assms(5) show ?thesis
    by (fastforce simp: block_calls_defs seated_def stranded_def swarm_at_steps split: option.splits)
next
  case (Fetch cid n)
  with get_block [OF assms(1-4), of cid n n False] assms(5) show ?thesis
    by (fastforce simp: block_calls_defs seated_def stranded_def swarm_at_steps split: option.splits)
qed

lemma call_stranded:
  assumes "swarm_laws X D" "swarm_at D m w" "served D cn" "stranded D cn" "block_allowed a m"
  shows "\<exists>w'. block_call (ipfs_methods X) a cn w = Some ((-1, None), unset cn, w') \<and> swarm_at D m w'"
proof -
  have neg: "try_later < 0" by (simp add: try_later_def)
  show ?thesis
  proof (cases a)
    case (Add d)
    with stranded_ops(1) [OF assms(1-4), of d False] assms(5) neg show ?thesis by (auto simp: block_calls_defs swarm_at_steps)
  next
    case (Length_of cid)
    with stranded_ops(2) [OF assms(1-4), of cid] assms(5) neg show ?thesis by (auto simp: block_calls_defs swarm_at_steps)
  next
    case (Fetch cid n)
    with stranded_ops(3) [OF assms(1-4), of cid False n n] assms(5) neg show ?thesis by (auto simp: block_calls_defs swarm_at_steps)
  qed
qed


section \<open>Nodes that behave as documented\<close>

text \<open>One node that is up, over a list of blocks; the name of a block is made of its length, and an answer
  writes numbers as text of four characters.\<close>

definition sample_base :: string where
  "sample_base = ''http://10.0.0.2:8080''"

definition sample_cid :: "bytes \<Rightarrow> string" where
  "sample_cid d = ''Qm'' @ size_text 4 (length d)"

definition swarm_content :: "(string \<times> bytes) list \<Rightarrow> string \<Rightarrow> bytes option" where
  "swarm_content r cid = (case map_of r cid of
     None \<Rightarrow> None | Some d \<Rightarrow> if length d < 128 ^ 4 \<and> NUL \<notin> set cid \<and> length cid \<le> 64 then Some d else None)"

definition good_reply :: "bytes \<Rightarrow> transfer" where
  "good_reply b = \<lparr>t_code = 0, t_chunks = [b], t_status = HttpStatus_OK, t_info = 0\<rparr>"

definition bad_reply :: transfer where
  "bad_reply = \<lparr>t_code = 0, t_chunks = [''no''], t_status = 500, t_info = 0\<rparr>"

definition swarm_perform ::
  "curl_opt list \<Rightarrow> url_op list \<Rightarrow> (string \<times> bytes) list \<Rightarrow> transfer \<times> (string \<times> bytes) list" where
  "swarm_perform os us r =
     (let u = req_url us; cid = drop 4 (req_query us); d = req_file os in
      if u = sample_base @ ''/version'' then (good_reply ''{}'', r)
      else if u = sample_base @ ''/api/v0/add'' then (good_reply (''h'' @ sample_cid d), (sample_cid d, d) # r)
      else if u = sample_base @ ''/api/v0/file/ls'' then
        (case swarm_content r cid of None \<Rightarrow> bad_reply | Some d \<Rightarrow> good_reply (''l'' @ size_text 4 (length d) @ cid), r)
      else if u = sample_base @ ''/api/v0/cat'' then
        (case swarm_content r cid of None \<Rightarrow> bad_reply | Some d \<Rightarrow> good_reply d, r)
      else (\<lparr>t_code = CURLE_COULDNT_CONNECT, t_chunks = [], t_status = 0, t_info = 0\<rparr>, r))"

definition swarm_json :: "string \<Rightarrow> json option" where
  "swarm_json s = (case s of [] \<Rightarrow> None | c # t \<Rightarrow>
     if c = CHR ''h'' then Some (JObj [(''Hash'', JStr t)])
     else if c = CHR ''l'' then Some (JObj [(''Objects'', JObj [(drop 4 t, JObj [(''Size'', JNum (int (text_size (take 4 t))))])])])
     else None)"

definition sample_swarm :: "(json, (string \<times> bytes) list) ext" where
  "sample_swarm = json_ext swarm_perform swarm_json (\<lambda>_. None)"

definition sample_blocks :: "(string \<times> bytes) list swarm_view" where
  "sample_blocks = \<lparr>cid_of = sample_cid, blocks = swarm_content, runs = (\<lambda>node. node = sample_base)\<rparr>"

lemma sample_swarm_sel [simp]:
  "curl_perform sample_swarm = swarm_perform" "cJSON_Parse sample_swarm = swarm_json"
  "cid_of sample_blocks = sample_cid" "blocks sample_blocks = swarm_content" "runs sample_blocks = (\<lambda>node. node = sample_base)"
  by (simp_all add: sample_swarm_def sample_blocks_def json_ext_def)

lemma sample_cid_shape: "sample_cid d \<noteq> []" "length (sample_cid d) = 6" "NUL \<notin> set (sample_cid d)"
  by (simp_all add: sample_cid_def size_text_4)

lemma good_replies: "replies (good_reply b) HttpStatus_OK" "b \<noteq> [] \<Longrightarrow> length b < 2 ^ 14 \<Longrightarrow> short_reply (good_reply b) b"
  "replies bad_reply 500" "short_reply bad_reply ''no''" "concat (t_chunks (good_reply b)) = b"
  by (simp_all add: replies_def short_reply_def good_reply_def bad_reply_def)

lemma content_added:
  "length d \<le> HIVE_MAX_FILE_SIZE \<Longrightarrow> swarm_content ((sample_cid d, d) # r) = (swarm_content r)(sample_cid d \<mapsto> d)"
  using sample_cid_shape [of d] by (auto simp: swarm_content_def hive_const)

lemma hash_json: "swarm_json (takeWhile (\<lambda>c. c \<noteq> NUL) (''h'' @ sample_cid d)) = Some (JObj [(''Hash'', JStr (sample_cid d))])"
  using sample_cid_shape [of d] by (simp add: no_nul swarm_json_def)

lemma size_json:
  assumes "swarm_content r cid = Some d"
  shows "\<exists>j. swarm_json (takeWhile (\<lambda>c. c \<noteq> NUL) (''l'' @ size_text 4 (length d) @ cid)) = Some j
    \<and> size_reply sample_swarm j cid (length d)"
proof -
  have d: "length d < 128 ^ 4" "NUL \<notin> set cid" using assms by (auto simp: swarm_content_def split: option.splits if_splits)
  have "NUL \<notin> set (''l'' @ size_text 4 (length d) @ cid)" using d(2) size_text_4 by simp
  then show ?thesis
    using text_size_text [OF d(1)] size_text_4(1) [of "length d"]
    by (simp add: no_nul swarm_json_def size_reply_def sample_swarm_def json_ext_def json_item_def)
qed

lemma last_path:
  "node @ p = sample_base @ q \<Longrightarrow> p \<in> {''/version'', ''/api/v0/add'', ''/api/v0/file/ls'', ''/api/v0/cat''}
    \<Longrightarrow> q \<in> {''/version'', ''/api/v0/add'', ''/api/v0/file/ls'', ''/api/v0/cat''} \<Longrightarrow> node = sample_base"
  by (drule arg_cong [where f = rev]) (auto simp: rev_swap)

lemma sample_swarm_laws: "swarm_laws sample_swarm sample_blocks"
  unfolding swarm_laws_def
proof (intro conjI allI)
  show "down_refuses sample_swarm sample_blocks"
    unfolding down_refuses_def
  proof (intro allI impI, elim conjE)
    fix os us r t r' node path
    assume p: "curl_perform sample_swarm os us r = (t, r')" "req_url us = node @ path" "\<not> runs sample_blocks node"
      "path \<in> {''/version'', ''/api/v0/add'', ''/api/v0/file/ls'', ''/api/v0/cat''}"
    have "req_url us \<noteq> sample_base @ q" if "q \<in> {''/version'', ''/api/v0/add'', ''/api/v0/file/ls'', ''/api/v0/cat''}" for q
      using p(2-4) last_path [of node path q] that by auto
    then have "swarm_perform os us r = (\<lparr>t_code = CURLE_COULDNT_CONNECT, t_chunks = [], t_status = 0, t_info = 0\<rparr>, r)"
      by (simp add: swarm_perform_def Let_def)
    with p(1) show "blocks sample_blocks r' = blocks sample_blocks r \<and> refused t"
      by (auto simp: refused_def RC_NODE_UNREACHABLE_def)
  qed
  show "answers_version sample_swarm sample_blocks"
    using good_replies by (auto simp: answers_version_def swarm_perform_def Let_def)
  show "answers_add sample_swarm sample_blocks"
  proof -
    have "\<exists>j i. swarm_json (takeWhile (\<lambda>c. c \<noteq> NUL) (''h'' @ sample_cid d)) = Some j \<and>
          cJSON_GetObjectItemCaseSensitive sample_swarm j ''Hash'' = Some i \<and> cJSON_IsString sample_swarm i \<and>
          j_string sample_swarm i \<noteq> None \<and> j_valuestring sample_swarm i = Some (sample_cid d)" for d
      unfolding hash_json by (simp add: sample_swarm_def json_ext_def json_item_def)
    moreover have "short_reply (good_reply (''h'' @ sample_cid d)) (''h'' @ sample_cid d)" for d
      using sample_cid_shape [of d] by (intro good_replies) simp_all
    moreover have "swarm_perform os us r = (good_reply (''h'' @ sample_cid (req_file os)), (sample_cid (req_file os), req_file os) # r)"
      if "req_url us = sample_base @ ''/api/v0/add''" for os us r
      using that by (simp add: swarm_perform_def Let_def)
    ultimately show ?thesis
      unfolding answers_add_def sample_swarm_sel using content_added good_replies(1) by (metis (no_types, lifting) prod.inject)
  qed
  show "answers_size sample_swarm sample_blocks"
    unfolding answers_size_def
  proof (intro allI impI, elim conjE)
    fix os us r t r' node cid
    assume p: "curl_perform sample_swarm os us r = (t, r')" "req_url us = node @ ''/api/v0/file/ls''" "runs sample_blocks node"
      "req_query us = ''arg='' @ cid"
    then have q: "(t, r') = (case swarm_content r cid of None \<Rightarrow> bad_reply | Some d \<Rightarrow> good_reply (''l'' @ size_text 4 (length d) @ cid), r)"
      by (auto simp: swarm_perform_def Let_def)
    show "blocks sample_blocks r' = blocks sample_blocks r \<and>
       (\<exists>b. short_reply t b \<and>
         (case blocks sample_blocks r cid of
            None \<Rightarrow> \<exists>status. replies t status \<and> status \<noteq> HttpStatus_OK
          | Some d \<Rightarrow> replies t HttpStatus_OK \<and>
              (\<exists>j. cJSON_Parse sample_swarm (takeWhile (\<lambda>c. c \<noteq> NUL) b) = Some j \<and> size_reply sample_swarm j cid (length d))))"
    proof (cases "swarm_content r cid")
      case None
      have "(500 :: int) \<noteq> HttpStatus_OK" by (simp add: hive_const)
      with None q good_replies(3,4) show ?thesis by auto
    next
      case (Some d)
      then have "length cid \<le> 64" by (auto simp: swarm_content_def split: option.splits if_splits)
      then have "short_reply (good_reply (''l'' @ size_text 4 (length d) @ cid)) (''l'' @ size_text 4 (length d) @ cid)"
        using size_text_4(1) by (intro good_replies) simp_all
      with Some q good_replies(1) size_json [OF Some] show ?thesis by auto
    qed
  qed
  show "answers_cat sample_swarm sample_blocks"
    using good_replies by (auto simp: answers_cat_def swarm_perform_def Let_def split: option.splits)
  show "cid_of sample_blocks d \<noteq> []" "length (cid_of sample_blocks d) \<le> HIVE_MAX_IPFS_CID_LEN" for d
    using sample_cid_shape [of d] by (simp_all add: hive_const)
qed


end
