(* ===== verification/Hive_Tests.thy ===== *)
theory Hive_Tests
  imports Hive_Drive
begin

text \<open>
  The test cases of the repository for OneDrive (\<open>src/tests/api/cases/file_apis_cases.c\<close> and
  \<open>key_value_apis_cases.c\<close>) as clients of the API, and the proof that they pass, in the order of the suite, on every
  drive that obeys \<open>drive_laws\<close>.

  A test returns whether it passed: no \<open>CU_FAIL\<close> was met and no assertion failed; a fatal assertion that fails ends
  the test.  The callbacks of the tests set flags through their context, which is the triple of them.
  The local files are those of the world; \<open>mkstemp\<close> takes the six characters it puts into a template from its
  argument \<open>letters\<close>.
\<close>

section \<open>The tests\<close>

definition test_text :: bytes where
  "test_text = ''hello world''"

lemma test_text_facts: "length test_text = 11" "takeWhile (\<lambda>c. c \<noteq> NUL) test_text = test_text" "test_text \<noteq> []"
  by (simp_all add: test_text_def)

type_synonym flags = "bool \<times> bool \<times> bool"

type_synonym ('s, 'r, 'a) test_op = "'s \<Rightarrow> 'r world \<Rightarrow> ('a \<times> 's \<times> 'r world) option"

definition list_files_cb :: "string \<Rightarrow> string option \<Rightarrow> flags \<Rightarrow> bool \<times> flags" where
  "list_files_cb fname filename ctx = (case ctx of (present, rest) \<Rightarrow>
     (case filename of None \<Rightarrow> (True, ctx) | Some n \<Rightarrow> (True, (present \<or> n = fname, rest))))"

definition mkstemp :: "string \<Rightarrow> string \<Rightarrow> 'r world \<Rightarrow> (string \<times> string list) option \<times> 'r world" where
  "mkstemp letters template w =
     (let path = take (length template - 6) template @ letters in
      case c_open path CREAT_EXCL w of (None, w1) \<Rightarrow> (None, w1) | (Some fd, w1) \<Rightarrow> (Some (path, fd), w1))"

text \<open>A test that gives up deletes the file and returns -1.\<close>

definition give_up :: "('s, 'r, flags) HiveConnect \<Rightarrow> string \<Rightarrow> ('s, 'r, int) test_op" where
  "give_up C to cn w = do { (_, cn1, w1) \<leftarrow> hive_delete_file (Some C) (Some to) cn w; Some (-1, cn1, w1) }"

text \<open>What both upload tests check afterwards.\<close>

definition check_file :: "('s, 'r, flags) HiveConnect \<Rightarrow> string \<Rightarrow> bytes \<Rightarrow> ('s, 'r, int) test_op" where
  "check_file C to str cn w = do {
     (fsize, cn1, w1) \<leftarrow> hive_get_file_length (Some C) (Some to) cn w;
     if fsize \<noteq> int (length str) then give_up C to cn1 w1
     else do {
       ((rc, (fpresent, _)), cn2, w2) \<leftarrow> hive_list_files (Some C) (Some (list_files_cb to)) (False, False, False) cn1 w1;
       if rc < 0 \<or> \<not> fpresent then give_up C to cn2 w2
       else do {
         ((fsize, got), cn3, w3) \<leftarrow> hive_get_file_to_buffer (Some C) (Some to) True (Some (length str + 1)) (length str) cn2 w2;
         if fsize \<noteq> int (length str) \<or> takeWhile (\<lambda>c. c \<noteq> NUL) got \<noteq> str then give_up C to cn3 w3
         else Some (0, cn3, w3)
       }
     }
   }"

definition put_file_check ::
  "string \<Rightarrow> string \<Rightarrow> ('s, 'r, flags) HiveConnect \<Rightarrow> string \<Rightarrow> bytes \<Rightarrow> ('s, 'r, int) test_op" where
  "put_file_check loc letters C to str cn w = do {
     template \<leftarrow> c_strcpy 1024 (loc @ ''/XXXXXX'');
     case mkstemp letters template w of
       (None, w1) \<Rightarrow> Some (-1, cn, w1)
     | (Some (from, fd), w1) \<Rightarrow>
         (case c_write fd str w1 of (nwr, w2) \<Rightarrow>
            if nwr \<noteq> int (length str) then (case c_unlink from (c_close fd w2) of (_, w3) \<Rightarrow> Some (-1, cn, w3))
            else do {
              (rc, cn1, w4) \<leftarrow> hive_put_file (Some C) (Some from) True (Some to) cn (c_close fd w2);
              (case c_unlink from w4 of (_, w5) \<Rightarrow> if rc < 0 then Some (-1, cn1, w5) else check_file C to str cn1 w5)
            })
   }"

definition put_file_from_buffer_check ::
  "('s, 'r, flags) HiveConnect \<Rightarrow> string \<Rightarrow> bytes \<Rightarrow> ('s, 'r, int) test_op" where
  "put_file_from_buffer_check C to str cn w = do {
     (rc, cn1, w1) \<leftarrow> hive_put_file_from_buffer (Some C) (Some str) (length str) True (Some to) cn w;
     if rc < 0 then Some (-1, cn1, w1) else check_file C to str cn1 w1
   }"

definition delete_file_check :: "('s, 'r, flags) HiveConnect \<Rightarrow> string \<Rightarrow> ('s, 'r, int) test_op" where
  "delete_file_check C fname cn w = do {
     (rc, cn1, w1) \<leftarrow> hive_delete_file (Some C) (Some fname) cn w;
     if rc < 0 then Some (-1, cn1, w1)
     else do {
       ((rc, (fpresent, _)), cn2, w2) \<leftarrow> hive_list_files (Some C) (Some (list_files_cb fname)) (False, False, False) cn1 w1;
       Some (if rc < 0 \<or> fpresent then -1 else 0, cn2, w2)
     }
   }"

definition deleted :: "('s, 'r, flags) HiveConnect \<Rightarrow> string \<Rightarrow> ('s, 'r, bool) test_op" where
  "deleted C fname cn w = do { (rc, cn1, w1) \<leftarrow> hive_delete_file (Some C) (Some fname) cn w; Some (rc = 0, cn1, w1) }"

definition put_file_test :: "string \<Rightarrow> string \<Rightarrow> ('s, 'r, flags) HiveConnect \<Rightarrow> ('s, 'r, bool) test_op" where
  "put_file_test loc letters C cn w = do {
     (rc, cn1, w1) \<leftarrow> put_file_check loc letters C ''test.txt'' test_text cn w;
     if rc \<noteq> 0 then Some (False, cn1, w1)
     else do { (rc, cn2, w2) \<leftarrow> delete_file_check C ''test.txt'' cn1 w1; Some (rc = 0, cn2, w2) }
   }"

definition double_put_file_test :: "string \<Rightarrow> string \<Rightarrow> ('s, 'r, flags) HiveConnect \<Rightarrow> ('s, 'r, bool) test_op" where
  "double_put_file_test loc letters C cn w = do {
     (rc, cn1, w1) \<leftarrow> put_file_check loc letters C ''test.txt'' test_text cn w;
     if rc \<noteq> 0 then Some (False, cn1, w1)
     else do {
       (rc, cn2, w2) \<leftarrow> put_file_check loc letters C ''test.txt'' test_text cn1 w1;
       (ok, cn3, w3) \<leftarrow> deleted C ''test.txt'' cn2 w2;
       Some (rc = 0 \<and> ok, cn3, w3)
     }
   }"

definition put_file_from_buffer_test :: "('s, 'r, flags) HiveConnect \<Rightarrow> ('s, 'r, bool) test_op" where
  "put_file_from_buffer_test C cn w = do {
     (rc, cn1, w1) \<leftarrow> put_file_from_buffer_check C ''test.txt'' test_text cn w;
     if rc \<noteq> 0 then Some (False, cn1, w1) else deleted C ''test.txt'' cn1 w1
   }"

definition double_put_file_from_buffer_test :: "('s, 'r, flags) HiveConnect \<Rightarrow> ('s, 'r, bool) test_op" where
  "double_put_file_from_buffer_test C cn w = do {
     (rc, cn1, w1) \<leftarrow> put_file_from_buffer_check C ''test.txt'' test_text cn w;
     if rc \<noteq> 0 then Some (False, cn1, w1)
     else do {
       (rc, cn2, w2) \<leftarrow> put_file_from_buffer_check C ''test.txt'' test_text cn1 w1;
       (ok, cn3, w3) \<leftarrow> deleted C ''test.txt'' cn2 w2;
       Some (rc = 0 \<and> ok, cn3, w3)
     }
   }"

definition get_nonexist_file_length_test :: "('s, 'r, flags) HiveConnect \<Rightarrow> ('s, 'r, bool) test_op" where
  "get_nonexist_file_length_test C cn w = do {
     (fsize, cn1, w1) \<leftarrow> hive_get_file_length (Some C) (Some ''nonexist'') cn w;
     Some (fsize < 0, cn1, w1)
   }"

definition get_nonexist_file_to_buffer_test :: "('s, 'r, flags) HiveConnect \<Rightarrow> ('s, 'r, bool) test_op" where
  "get_nonexist_file_to_buffer_test C cn w = do {
     ((fsize, _), cn1, w1) \<leftarrow> hive_get_file_to_buffer (Some C) (Some ''nonexist'') True (Some 1024) 1024 cn w;
     Some (fsize < 0, cn1, w1)
   }"

text \<open>The file that is downloaded is read into 128 zeroed bytes and compared as a string.\<close>

definition get_file_test :: "string \<Rightarrow> ('s, 'r, flags) HiveConnect \<Rightarrow> ('s, 'r, bool) test_op" where
  "get_file_test loc C cn w = do {
     to \<leftarrow> c_strcpy 1024 (loc @ ''/test.txt'');
     (rc, cn1, w1) \<leftarrow> put_file_from_buffer_check C ''test.txt'' test_text cn w;
     if rc \<noteq> 0 then Some (False, cn1, w1)
     else do {
       (fsize, cn2, w2) \<leftarrow> hive_get_file (Some C) (Some ''test.txt'') True (Some to) cn1 w1;
       (ok, cn3, w3) \<leftarrow> deleted C ''test.txt'' cn2 w2;
       if fsize \<noteq> int (length test_text) then Some (False, cn3, w3)
       else (case c_open to RDONLY w3 of
           (None, w4) \<Rightarrow> (case c_unlink to w4 of (_, w5) \<Rightarrow> Some (False, cn3, w5))
         | (Some fd, w4) \<Rightarrow>
             (case c_read fd 128 w4 of ((nrd, buf), w5) \<Rightarrow>
              case c_unlink to (c_close fd w5) of (_, w6) \<Rightarrow>
                Some (ok \<and> nrd = int (length test_text) \<and> takeWhile (\<lambda>c. c \<noteq> NUL) buf = test_text, cn3, w6)))
     }
   }"

definition get_nonexist_file_test :: "string \<Rightarrow> ('s, 'r, flags) HiveConnect \<Rightarrow> ('s, 'r, bool) test_op" where
  "get_nonexist_file_test loc C cn w = do {
     to \<leftarrow> c_strcpy 1024 (loc @ ''/XXXXXX'');
     (fsize, cn1, w1) \<leftarrow> hive_get_file (Some C) (Some ''nonexist'') True (Some to) cn w;
     Some (fsize < 0, cn1, w1)
   }"

definition delete_nonexist_file_test :: "('s, 'r, flags) HiveConnect \<Rightarrow> ('s, 'r, bool) test_op" where
  "delete_nonexist_file_test C cn w = do {
     (rc, cn1, w1) \<leftarrow> hive_delete_file (Some C) (Some ''nonexist'') cn w;
     Some (rc < 0, cn1, w1)
   }"

text \<open>The flags: the key was the right one, and the first and the second value were delivered; values are
  stored with their terminating NUL.\<close>

definition key_value_cb :: "string \<Rightarrow> bytes \<Rightarrow> flags \<Rightarrow> bool \<times> flags" where
  "key_value_cb key value ctx = (case ctx of (key_correct, val1_present, val2_present) \<Rightarrow>
     if key \<noteq> ''key'' then (True, ctx)
     else if length value = 6 \<and> takeWhile (\<lambda>c. c \<noteq> NUL) value = ''value'' then (True, (True, True, val2_present))
     else if length value = 7 \<and> takeWhile (\<lambda>c. c \<noteq> NUL) value = ''value2'' then (True, (True, val1_present, True))
     else (True, (True, val1_present, val2_present)))"

text \<open>One read of the values with the flags it must set.\<close>

definition check_values :: "('s, 'r, flags) HiveConnect \<Rightarrow> bool \<Rightarrow> ('s, 'r, bool) test_op" where
  "check_values C second cn w = do {
     ((rc, ctx), cn1, w1) \<leftarrow> hive_get_values (Some C) (Some ''key'') True (Some key_value_cb) (False, False, False) cn w;
     Some (\<not> (rc < 0) \<and> ctx = (True, True, second), cn1, w1)
   }"

definition drop_key :: "('s, 'r, flags) HiveConnect \<Rightarrow> ('s, 'r, bool) test_op" where
  "drop_key C cn w = do { (_, cn1, w1) \<leftarrow> hive_delete_key (Some C) (Some ''key'') cn w; Some (False, cn1, w1) }"

definition key_value_apis_test :: "('s, 'r, flags) HiveConnect \<Rightarrow> ('s, 'r, bool) test_op" where
  "key_value_apis_test C cn w = do {
     (rc, cn, w) \<leftarrow> hive_put_value (Some C) (Some ''key'') (Some (''value'' @ [NUL])) 6 True cn w;
     if rc \<noteq> 0 then Some (False, cn, w)
     else do {
       (ok, cn, w) \<leftarrow> check_values C False cn w;
       if \<not> ok then drop_key C cn w
       else do {
         (rc, cn, w) \<leftarrow> hive_put_value (Some C) (Some ''key'') (Some (''value2'' @ [NUL])) 7 True cn w;
         if rc < 0 then drop_key C cn w
         else do {
           (ok, cn, w) \<leftarrow> check_values C True cn w;
           if \<not> ok then drop_key C cn w
           else do {
             (rc, cn, w) \<leftarrow> hive_set_value (Some C) (Some ''key'') (Some (''value'' @ [NUL])) 6 True cn w;
             if rc < 0 then drop_key C cn w
             else do {
               (ok, cn, w) \<leftarrow> check_values C False cn w;
               if \<not> ok then drop_key C cn w
               else do {
                 (rc, cn, w) \<leftarrow> hive_delete_key (Some C) (Some ''key'') cn w;
                 Some (rc = 0, cn, w)
               }
             }
           }
         }
       }
     }
   }"

text \<open>The suite, in the order of \<open>DEFINE_FILE_APIS_CASES\<close> and \<open>DEFINE_KEY_APIS_CASES\<close>: the results of its tests.\<close>

definition onedrive_cases :: "string \<Rightarrow> string \<Rightarrow> ('s, 'r, flags) HiveConnect \<Rightarrow> ('s, 'r, bool) test_op list" where
  "onedrive_cases loc letters C = [put_file_test loc letters C, double_put_file_test loc letters C, put_file_from_buffer_test C,
     double_put_file_from_buffer_test C, get_nonexist_file_length_test C, get_nonexist_file_to_buffer_test C,
     get_file_test loc C, get_nonexist_file_test loc C, delete_nonexist_file_test C, key_value_apis_test C]"

fun run_cases :: "('s, 'r, bool) test_op list \<Rightarrow> ('s, 'r, bool list) test_op" where
  "run_cases [] cn w = Some ([], cn, w)"
| "run_cases (t # ts) cn w = do {
     (ok, cn1, w1) \<leftarrow> t cn w;
     (oks, cn2, w2) \<leftarrow> run_cases ts cn1 w1;
     Some (ok # oks, cn2, w2)
   }"

section \<open>The tests pass\<close>

text \<open>The drive keeps the spelling of the one name the tests use, and the directory of the tests is there.\<close>

definition spelled_so :: "'r drive_view \<Rightarrow> bool" where
  "spelled_so D \<longleftrightarrow> (\<forall>r names n. listing D r = Some names \<and> n \<in> set names \<and> fold_case n = ''test.txt'' \<longrightarrow> n = ''test.txt'')"

definition scratch_dir :: "string \<Rightarrow> string \<Rightarrow> 'r world \<Rightarrow> bool" where
  "scratch_dir loc letters w \<longleftrightarrow> length loc < 1000 \<and> length letters = 6 \<and>
     can_create (loc @ ''/'' @ letters) w \<and> can_create (loc @ ''/test.txt'') w"

lemma results_trans: "results_in D cn m1 w0 w \<Longrightarrow> results_in D cn m2 w w' \<Longrightarrow> results_in D cn m2 w0 w'"
  by (simp add: results_in_def)

lemma results_D: "results_in D cn m w0 w \<Longrightarrow> settled cn w" "results_in D cn m w0 w \<Longrightarrow> holds D (remote w) m"
  by (simp_all add: results_in_def)

lemma can_create_results:
  assumes "can_create p w0" "results_in D cn m w0 w"
  shows "can_create p w"
  using assms by (auto simp: can_create_def results_in_def settled_def node_at_def parent_dir_def split: if_splits)

lemma listed: "tell_names (list_files_cb f) (map Some names) (p, q) = (p \<or> f \<in> set names, q)"
  by (induction names arbitrary: p) (auto simp: list_files_cb_def)

text \<open>The stores the tests run through: without and with the file.\<close>

definition no_file :: "store \<Rightarrow> store" where
  "no_file m = m\<lparr>blobs := (blobs m)(''test.txt'' := None), folder := True\<rparr>"

definition with_file :: "store \<Rightarrow> store" where
  "with_file m = m\<lparr>blobs := (blobs m)(''test.txt'' \<mapsto> test_text), folder := True\<rparr>"

lemma test_name: "plain_name ''test.txt''" "fold_case ''test.txt'' = ''test.txt''" "plain_name ''nonexist''"
  "fold_case ''nonexist'' = ''nonexist''" "plain_name ''key''" "fold_case ''key'' = ''key''"
  by (simp_all add: plain_name_def name_char_def fold_case_def c_tolower_def)

lemma test_effects:
  "effect (Put_file ''test.txt'' test_text) m = with_file m" "effect (Delete_file ''test.txt'') (with_file m) = no_file m"
  "with_file (no_file m) = with_file m" "with_file (with_file m) = with_file m" "no_file (no_file m) = no_file m"
  by (simp_all add: test_name with_file_def no_file_def)

definition testable :: "('j, 'r) ext \<Rightarrow> 'r drive_view \<Rightarrow> store \<Rightarrow> bool" where
  "testable X D m \<longleftrightarrow> drive_laws X D \<and> spelled_so D \<and> card (names_of m) \<le> 7 \<and> blobs m ''nonexist'' = None \<and> kvs m ''key'' = []"

abbreviation tested_methods :: "('j, 'r) ext \<Rightarrow> (('j, 'r) OneDriveConnect, 'r, flags) HiveConnect" where
  "tested_methods X \<equiv> onedrive_methods X"

lemma few_names:
  assumes "testable X D m"
  shows "card (names_of (with_file m)) \<le> 8" "card (names_of (no_file m)) \<le> 8"
proof -
  have "names_of (with_file m) = insert ''test.txt'' (names_of m)" "names_of (no_file m) = names_of m - {''test.txt''}"
    by (auto simp: names_of_def with_file_def no_file_def)
  moreover have "card (names_of m) \<le> 7" using assms by (simp add: testable_def)
  ultimately show "card (names_of (with_file m)) \<le> 8" "card (names_of (no_file m)) \<le> 8"
    using card_Diff1_le [of "names_of m" "''test.txt''"] by (cases "finite (names_of m)"; simp add: card_insert_if)+
qed

lemma has_name: "''test.txt'' \<in> names_of (with_file m)" "''test.txt'' \<notin> names_of (no_file m)"
  by (simp_all add: names_of_def with_file_def no_file_def)

lemma laws: "testable X D m \<Longrightarrow> drive_laws X D"
  by (simp add: testable_def)

lemma listing_flag:
  assumes "testable X D m" "results_in D cn k w0 w" "k = with_file m \<or> k = no_file m"
  shows "\<exists>w'. hive_list_files (Some (tested_methods X)) (Some (list_files_cb ''test.txt'')) (False, False, False) cn w
     = Some ((0, (k = with_file m, False, False)), cn, w') \<and> results_in D cn k w0 w'"
proof -
  have a: "allowed List_files k" using few_names [OF assms(1)] assms(3) by (auto simp: with_file_def no_file_def)
  obtain w' names where l: "hive_list_files (Some (tested_methods X)) (Some (list_files_cb ''test.txt'')) (False, False, False) cn w
      = Some ((0, tell_names (list_files_cb ''test.txt'') (map Some names) (False, False, False)), cn, w')"
      "listing D (remote w) = Some names" "set (map fold_case names) = names_of k" "results_in D cn k w w'"
    using api_list_files [where ?'c = flags, OF laws [OF assms(1)] results_D [OF assms(2)] a] by blast
  have "''test.txt'' \<in> set names \<longleftrightarrow> ''test.txt'' \<in> set (map fold_case names)"
  proof
    assume "''test.txt'' \<in> set names"
    then have "fold_case ''test.txt'' \<in> set (map fold_case names)" by simp
    then show "''test.txt'' \<in> set (map fold_case names)" unfolding test_name .
  next
    assume "''test.txt'' \<in> set (map fold_case names)"
    then obtain n where n: "n \<in> set names" "fold_case n = ''test.txt''" by auto
    have "spelled_so D" using assms(1) by (simp add: testable_def)
    then have "n = ''test.txt''" using l(2) n unfolding spelled_so_def by blast
    with n(1) show "''test.txt'' \<in> set names" by simp
  qed
  also have "\<dots> \<longleftrightarrow> k = with_file m"
    unfolding l(3) using assms(3) has_name by metis
  finally show ?thesis using l(1) results_trans [OF assms(2) l(4)] by (auto simp: listed)
qed

lemma upload:
  assumes "testable X D m" "results_in D cn k w0 w" "with_file k = with_file m"
  shows "\<exists>w'. hive_put_file_from_buffer (Some (tested_methods X)) (Some test_text) 11 True (Some ''test.txt'') cn w = Some (0, cn, w')
    \<and> results_in D cn (with_file m) w0 w'"
proof -
  have a: "allowed (Put_file ''test.txt'' test_text) k" by (simp add: test_name test_text_facts)
  obtain w' where "hive_put_file_from_buffer (Some (tested_methods X)) (Some test_text) (length test_text) True (Some ''test.txt'') cn w = Some (0, cn, w')"
      "results_in D cn (effect (Put_file ''test.txt'' test_text) k) w w'"
    using api_put_file [where ?'c = flags, OF laws [OF assms(1)] results_D [OF assms(2)] a, of True] by blast
  then show ?thesis using results_trans [OF assms(2)] by (auto simp: test_effects test_text_facts assms(3) simp del: effect.simps)
qed

lemma delete:
  assumes "testable X D m" "results_in D cn (with_file m) w0 w"
  shows "\<exists>w'. hive_delete_file (Some (tested_methods X)) (Some ''test.txt'') cn w = Some (0, cn, w') \<and> results_in D cn (no_file m) w0 w'"
proof -
  have a: "allowed (Delete_file ''test.txt'') (with_file m)" by (simp add: test_name)
  have b: "blobs (with_file m) (fold_case ''test.txt'') \<noteq> None" by (simp add: test_name with_file_def)
  obtain w' where "hive_delete_file (Some (tested_methods X)) (Some ''test.txt'') cn w
      = Some (if blobs (with_file m) (fold_case ''test.txt'') = None then -1 else 0, cn, w')"
      "results_in D cn (effect (Delete_file ''test.txt'') (with_file m)) w w'"
    using api_delete_file [where ?'c = flags, OF laws [OF assms(1)] results_D [OF assms(2)] a] by blast
  with b show ?thesis using results_trans [OF assms(2)] by (auto simp: test_effects simp del: effect.simps)
qed

lemma checked:
  assumes "testable X D m" "results_in D cn (with_file m) w0 w"
  shows "\<exists>w'. check_file (tested_methods X) ''test.txt'' test_text cn w = Some (0, cn, w') \<and> results_in D cn (with_file m) w0 w'"
proof -
  have b: "blobs (with_file m) (fold_case ''test.txt'') = Some test_text" by (simp add: test_name with_file_def)
  have a1: "allowed (File_length ''test.txt'') (with_file m)" and a2: "allowed (Get_file ''test.txt'' 11) (with_file m)"
    by (simp_all add: test_name with_file_def test_text_facts)
  obtain w1 where w1: "hive_get_file_length (Some (tested_methods X)) (Some ''test.txt'') cn w = Some (11, cn, w1)" "results_in D cn (with_file m) w0 w1"
    using api_file_length [where ?'c = flags, OF laws [OF assms(1)] results_D [OF assms(2)] a1] results_trans [OF assms(2)] unfolding b by (auto simp: test_text_facts)
  obtain w2 where w2: "hive_list_files (Some (tested_methods X)) (Some (list_files_cb ''test.txt'')) (False, False, False) cn w1
     = Some ((0, (True, False, False)), cn, w2)" "results_in D cn (with_file m) w0 w2"
    using listing_flag [OF assms(1) w1(2)] by auto
  obtain w3 where w3: "hive_get_file_to_buffer (Some (tested_methods X)) (Some ''test.txt'') True (Some 12) 11 cn w2 = Some ((11, test_text), cn, w3)"
      "results_in D cn (with_file m) w0 w3"
    using api_get_file [where ?'c = flags and room = 12 and dec = True, OF laws [OF assms(1)] results_D [OF w2(2)] a2] results_trans [OF w2(2)]
    unfolding b by (auto simp: test_text_facts)
  show ?thesis using w1(1) w2(1) w3 by (simp add: check_file_def test_text_facts)
qed

lemma put_local:
  assumes "testable X D m" "results_in D cn k w0 w" "with_file k = with_file m" "scratch_dir loc letters w"
  shows "\<exists>w'. put_file_check loc letters (tested_methods X) ''test.txt'' test_text cn w = Some (0, cn, w') \<and> results_in D cn (with_file m) w0 w'"
proof -
  define path where "path = loc @ ''/'' @ letters"
  define key where "key = path_key path"
  have dir: "length loc < 1000" "length letters = 6" "can_create path w" using assms(4) by (simp_all add: scratch_dir_def path_def)
  have c: "faults w = []" "node_at w key = None" "path \<noteq> []" "key \<noteq> []" using dir(3) by (auto simp: can_create_def key_def parent_dir_def)
  define v where "v = put_node key (File test_text) w"
  have t: "c_strcpy 1024 (loc @ ''/XXXXXX'') = Some (loc @ ''/XXXXXX'')" using dir(1) by simp
  have made: "mkstemp letters (loc @ ''/XXXXXX'') w = (Some (path, key), created path w)"
    using conjunct1 [OF open_created [OF dir(3)]] by (simp add: mkstemp_def path_def key_def Let_def)
  have written: "c_write key test_text (created path w) = (11, put_node key (File test_text) (created path w))"
    using c by (simp add: c_write_def take_fault_def created_def put_node_def node_at_def test_text_facts key_def)
  have closed: "c_close key (put_node key (File test_text) (created path w)) = v"
    by (cases w) (simp add: c_close_def created_def put_node_def v_def key_def fun_upd_idem)
  have sl: "slurp path v = (Inr test_text, v)"
    using slurp_file [of v path test_text] c by (simp add: v_def put_node_def node_at_def key_def [symmetric] test_text_facts hive_const)
  have at_v: "results_in D cn k v v" using assms(2) by (simp add: results_in_def v_def put_node_def settled_def)
  obtain w4 where w4: "hive_put_file_from_buffer (Some (tested_methods X)) (Some test_text) 11 True (Some ''test.txt'') cn v = Some (0, cn, w4)"
      "results_in D cn (with_file m) v w4"
    using upload [OF assms(1) at_v assms(3)] by blast
  have put: "hive_put_file (Some (tested_methods X)) (Some path) True (Some ''test.txt'') cn v = Some (0, cn, w4)"
    using c(3) sl w4(1) by (simp add: hive_put_file_def null_or_empty_def test_text_facts)
  define w5 where "w5 = w4\<lparr>files := (files w4)(key := None)\<rparr>"
  have gone: "c_unlink path w4 = (0, w5)"
    using w4(2) c(4) by (simp add: c_unlink_def take_fault_def results_in_def settled_def v_def put_node_def node_at_def key_def [symmetric] w5_def)
  have "files w key = None" using c(2,4) by (simp add: node_at_def)
  then have "results_in D cn (with_file m) w0 w5"
    using assms(2) w4(2) by (auto simp: results_in_def settled_def w5_def v_def put_node_def)
  then obtain w' where "check_file (tested_methods X) ''test.txt'' test_text cn w5 = Some (0, cn, w')" "results_in D cn (with_file m) w0 w'"
    using checked [OF assms(1)] by blast
  with t made written closed put gone show ?thesis by (simp add: put_file_check_def test_text_facts)
qed

lemma scratch_results: "scratch_dir loc letters w0 \<Longrightarrow> results_in D cn k w0 w \<Longrightarrow> scratch_dir loc letters w"
  using can_create_results by (auto simp: scratch_dir_def)

lemma deleted_ok:
  assumes "testable X D m" "results_in D cn (with_file m) w0 w"
  shows "\<exists>w'. deleted (tested_methods X) ''test.txt'' cn w = Some (True, cn, w') \<and> results_in D cn (no_file m) w0 w'"
  using delete [OF assms] by (auto simp: deleted_def)

text \<open>What each test of a file does: it passes and leaves no file behind.\<close>

definition passes :: "'r drive_view \<Rightarrow> store \<Rightarrow> (('j, 'r) OneDriveConnect, 'r, bool) test_op \<Rightarrow> ('j, 'r) OneDriveConnect \<Rightarrow> 'r world \<Rightarrow> 'r world \<Rightarrow> bool" where
  "passes D m t cn w0 w \<longleftrightarrow> (\<exists>w'. t cn w = Some (True, cn, w') \<and> results_in D cn m w0 w')"

lemma file_tests_pass:
  assumes "testable X D m" "results_in D cn k w0 w" "with_file k = with_file m" "scratch_dir loc letters w0"
  shows "passes D (no_file m) (put_file_test loc letters (tested_methods X)) cn w0 w"
    and "passes D (no_file m) (double_put_file_test loc letters (tested_methods X)) cn w0 w"
    and "passes D (no_file m) (put_file_from_buffer_test (tested_methods X)) cn w0 w"
    and "passes D (no_file m) (double_put_file_from_buffer_test (tested_methods X)) cn w0 w"
proof -
  note dir = scratch_results [OF assms(4)]
  have buf: "\<exists>w'. put_file_from_buffer_check (tested_methods X) ''test.txt'' test_text cn v = Some (0, cn, w') \<and> results_in D cn (with_file m) w0 w'"
    if l: "results_in D cn l w0 v" "with_file l = with_file m" for l v
  proof -
    obtain u where u: "hive_put_file_from_buffer (Some (tested_methods X)) (Some test_text) 11 True (Some ''test.txt'') cn v = Some (0, cn, u)"
        "results_in D cn (with_file m) w0 u"
      using upload [OF assms(1) l] by blast
    with checked [OF assms(1) u(2)] show ?thesis by (auto simp: put_file_from_buffer_check_def test_text_facts)
  qed
  obtain w1 where w1: "put_file_check loc letters (tested_methods X) ''test.txt'' test_text cn w = Some (0, cn, w1)" "results_in D cn (with_file m) w0 w1"
    using put_local [OF assms(1-3) dir [OF assms(2)]] by blast
  obtain w2 where w2: "put_file_check loc letters (tested_methods X) ''test.txt'' test_text cn w1 = Some (0, cn, w2)" "results_in D cn (with_file m) w0 w2"
    using put_local [OF assms(1) w1(2) _ dir [OF w1(2)]] test_effects(4) by blast
  obtain b1 where b1: "put_file_from_buffer_check (tested_methods X) ''test.txt'' test_text cn w = Some (0, cn, b1)" "results_in D cn (with_file m) w0 b1"
    using buf [OF assms(2,3)] by blast
  obtain b2 where b2: "put_file_from_buffer_check (tested_methods X) ''test.txt'' test_text cn b1 = Some (0, cn, b2)" "results_in D cn (with_file m) w0 b2"
    using buf [OF b1(2) test_effects(4)] by blast
  obtain w3 where w3: "hive_delete_file (Some (tested_methods X)) (Some ''test.txt'') cn w1 = Some (0, cn, w3)" "results_in D cn (no_file m) w0 w3"
    using delete [OF assms(1) w1(2)] by blast
  have ne: "no_file m \<noteq> with_file m" using has_name by metis
  obtain w4 where w4: "hive_list_files (Some (tested_methods X)) (Some (list_files_cb ''test.txt'')) (False, False, False) cn w3
     = Some ((0, (False, False, False)), cn, w4)" "results_in D cn (no_file m) w0 w4"
    using listing_flag [OF assms(1) w3(2)] ne by auto
  show "passes D (no_file m) (put_file_test loc letters (tested_methods X)) cn w0 w"
    using w1(1) w3(1) w4 by (simp add: passes_def put_file_test_def delete_file_check_def)
  show "passes D (no_file m) (double_put_file_test loc letters (tested_methods X)) cn w0 w"
    using w1(1) w2(1) deleted_ok [OF assms(1) w2(2)] by (auto simp: passes_def double_put_file_test_def)
  show "passes D (no_file m) (put_file_from_buffer_test (tested_methods X)) cn w0 w"
    using b1(1) deleted_ok [OF assms(1) b1(2)] by (auto simp: passes_def put_file_from_buffer_test_def)
  show "passes D (no_file m) (double_put_file_from_buffer_test (tested_methods X)) cn w0 w"
    using b1(1) b2(1) deleted_ok [OF assms(1) b2(2)] by (auto simp: passes_def double_put_file_from_buffer_test_def)
qed

lemma put_from_buffer:
  assumes "testable X D m" "results_in D cn k w0 w" "with_file k = with_file m"
  shows "\<exists>w'. put_file_from_buffer_check (tested_methods X) ''test.txt'' test_text cn w = Some (0, cn, w') \<and> results_in D cn (with_file m) w0 w'"
proof -
  obtain u where u: "hive_put_file_from_buffer (Some (tested_methods X)) (Some test_text) 11 True (Some ''test.txt'') cn w = Some (0, cn, u)"
      "results_in D cn (with_file m) w0 u"
    using upload [OF assms] by blast
  with checked [OF assms(1) u(2)] show ?thesis by (auto simp: put_file_from_buffer_check_def test_text_facts)
qed

text \<open>The download to a local file, as the world is then.\<close>

lemma get_local:
  assumes "testable X D m" "results_in D cn (with_file m) w0 w" "can_create to w"
  shows "\<exists>w'. hive_get_file (Some (tested_methods X)) (Some ''test.txt'') True (Some to) cn w = Some (11, cn, w')
    \<and> settled cn w' \<and> holds D (remote w') (with_file m) \<and> files w' = (files w)(path_key to := Some (File test_text))"
proof -
  have b: "blobs (with_file m) (fold_case ''test.txt'') = Some test_text" by (simp add: test_name with_file_def)
  have a1: "allowed (File_length ''test.txt'') (with_file m)" and a2: "allowed (Get_file ''test.txt'' 11) (with_file m)"
    by (simp_all add: test_name with_file_def test_text_facts)
  obtain w1 where w1: "hive_get_file_length (Some (tested_methods X)) (Some ''test.txt'') cn w = Some (11, cn, w1)"
      "results_in D cn (with_file m) w w1"
    using api_file_length [where ?'c = flags, OF laws [OF assms(1)] results_D [OF assms(2)] a1] unfolding b by (auto simp: test_text_facts)
  have c: "can_create to w1" using can_create_results [OF assms(3) w1(2)] .
  have k: "path_key to \<noteq> []" using c by (auto simp: can_create_def parent_dir_def)
  let ?v = "created to w1"
  have v: "settled cn ?v" "holds D (remote ?v) (with_file m)" using w1(2) by (simp_all add: results_in_def created_def put_node_def settled_def)
  obtain w4 where w4: "hive_get_file_to_buffer (Some (tested_methods X)) (Some ''test.txt'') True (Some 11) 11 cn ?v = Some ((11, test_text), cn, w4)"
      "results_in D cn (with_file m) ?v w4"
    using api_get_file [where ?'c = flags and room = 11 and dec = True, OF laws [OF assms(1)] v a2] unfolding b by (auto simp: test_text_facts)
  define w5 where "w5 = c_close (path_key to) (put_node (path_key to) (File test_text) w4)"
  have "node_at w4 (path_key to) = Some (File [])" "faults w4 = []"
    using w4(2) k by (simp_all add: results_in_def created_def put_node_def node_at_def settled_def)
  then have sp: "spill (path_key to) test_text 11 11 w4 = Some (11, w5)"
    by (simp add: spill_def zero_padded_def c_write_def take_fault_def test_text_facts w5_def)
  have "files w5 = (files w)(path_key to := Some (File test_text))" "settled cn w5" "holds D (remote w5) (with_file m)"
    using w4(2) w1(2) by (simp_all add: results_in_def w5_def c_close_def put_node_def created_def settled_def)
  with w1(1) open_created [OF c] w4(1) sp c show ?thesis by (simp add: hive_get_file_def null_or_empty_def can_create_def)
qed

lemma get_file_passes:
  assumes "testable X D m" "results_in D cn k w0 w" "with_file k = with_file m" "scratch_dir loc letters w0"
  shows "passes D (no_file m) (get_file_test loc (tested_methods X)) cn w0 w"
proof -
  define to where "to = loc @ ''/test.txt''"
  have t: "c_strcpy 1024 (loc @ ''/test.txt'') = Some to" using assms(4) by (simp add: scratch_dir_def to_def)
  obtain w1 where w1: "put_file_from_buffer_check (tested_methods X) ''test.txt'' test_text cn w = Some (0, cn, w1)" "results_in D cn (with_file m) w0 w1"
    using put_from_buffer [OF assms(1-3)] by blast
  have c: "can_create to w1" using scratch_results [OF assms(4) w1(2)] by (simp add: scratch_dir_def to_def)
  then have k: "path_key to \<noteq> []" "files w1 (path_key to) = None" by (auto simp: can_create_def parent_dir_def node_at_def split: if_splits)
  obtain w2 where w2: "hive_get_file (Some (tested_methods X)) (Some ''test.txt'') True (Some to) cn w1 = Some (11, cn, w2)"
      "settled cn w2" "holds D (remote w2) (with_file m)" "files w2 = (files w1)(path_key to := Some (File test_text))"
    using get_local [OF assms(1) w1(2) c] by blast
  obtain w3 where w3: "deleted (tested_methods X) ''test.txt'' cn w2 = Some (True, cn, w3)" "results_in D cn (no_file m) w2 w3"
    using deleted_ok [OF assms(1), of cn w2 w2] w2(2,3) by (auto simp: results_in_def)
  have n: "node_at w3 (path_key to) = Some (File test_text)" "faults w3 = []"
    using w3(2) w2(4) k(1) by (simp_all add: results_in_def node_at_def settled_def)
  define w4 where "w4 = w3\<lparr>open_fds := open_fds w3 + 1\<rparr>"
  have o: "c_open to RDONLY w3 = (Some (path_key to), w4)" using n by (simp add: c_open_def take_fault_def w4_def)
  have r: "c_read (path_key to) 128 w4 = ((11, test_text), w4)" and cl: "c_close (path_key to) w4 = w3"
    using n k(1) by (simp_all add: c_read_def take_fault_def w4_def node_at_def test_text_facts c_close_def Let_def)
  define w6 where "w6 = w3\<lparr>files := (files w3)(path_key to := None)\<rparr>"
  have u: "c_unlink to w3 = (0, w6)" using n by (simp add: c_unlink_def take_fault_def w6_def)
  have "results_in D cn (no_file m) w0 w6"
    using w1(2) w2(4) w3(2) k(2) by (auto simp: results_in_def w6_def settled_def)
  with t w1(1) w2(1) w3(1) o r cl u show ?thesis by (simp add: passes_def get_file_test_def test_text_facts to_def [symmetric])
qed

lemma absent_passes:
  assumes "testable X D m" "results_in D cn (no_file m) w0 w" "length loc < 1000"
  shows "passes D (no_file m) (get_nonexist_file_length_test (tested_methods X)) cn w0 w"
    and "passes D (no_file m) (get_nonexist_file_to_buffer_test (tested_methods X)) cn w0 w"
    and "passes D (no_file m) (get_nonexist_file_test loc (tested_methods X)) cn w0 w"
    and "passes D (no_file m) (delete_nonexist_file_test (tested_methods X)) cn w0 w"
proof -
  have b: "blobs (no_file m) (fold_case ''nonexist'') = None" using assms(1) by (simp add: test_name no_file_def testable_def)
  have e: "effect (Delete_file ''nonexist'') (no_file m) = no_file m"
    using b by (simp add: test_name fun_upd_idem)
  note at = laws [OF assms(1)] results_D [OF assms(2)]
  obtain w1 where w1: "hive_get_file_length (Some (tested_methods X)) (Some ''nonexist'') cn w = Some (-1, cn, w1)" "results_in D cn (no_file m) w0 w1"
    using api_file_length [where ?'c = flags, OF at, of "''nonexist''"] results_trans [OF assms(2)] b by (auto simp: test_name)
  obtain w2 where w2: "hive_get_file_to_buffer (Some (tested_methods X)) (Some ''nonexist'') True (Some 1024) 1024 cn w = Some ((-1, []), cn, w2)"
      "results_in D cn (no_file m) w0 w2"
    using api_get_file [where ?'c = flags and room = 1024 and dec = True and l = 1024, OF at, of "''nonexist''"] results_trans [OF assms(2)] b
    by (auto simp: test_name)
  obtain w3 where w3: "hive_delete_file (Some (tested_methods X)) (Some ''nonexist'') cn w = Some (-1, cn, w3)" "results_in D cn (no_file m) w0 w3"
    using api_delete_file [where ?'c = flags, OF at, of "''nonexist''"] results_trans [OF assms(2)] b e by (auto simp: test_name)
  show "passes D (no_file m) (get_nonexist_file_length_test (tested_methods X)) cn w0 w"
    using w1 by (simp add: passes_def get_nonexist_file_length_test_def)
  show "passes D (no_file m) (get_nonexist_file_to_buffer_test (tested_methods X)) cn w0 w"
    using w2 by (simp add: passes_def get_nonexist_file_to_buffer_test_def)
  show "passes D (no_file m) (get_nonexist_file_test loc (tested_methods X)) cn w0 w"
    using w1 assms(3) by (simp add: passes_def get_nonexist_file_test_def hive_get_file_def null_or_empty_def)
  show "passes D (no_file m) (delete_nonexist_file_test (tested_methods X)) cn w0 w"
    using w3 by (simp add: passes_def delete_nonexist_file_test_def)
qed

text \<open>The keys: what each call of the test makes of the store.\<close>

definition key_holds :: "store \<Rightarrow> bytes list \<Rightarrow> store" where
  "key_holds m vs = m\<lparr>kvs := (kvs m)(''key'' := vs)\<rparr>"

definition value1 :: bytes where "value1 = ''value'' @ [NUL]"
definition value2 :: bytes where "value2 = ''value2'' @ [NUL]"

lemma value_facts:
  "length value1 = 6" "length value2 = 7" "takeWhile (\<lambda>c. c \<noteq> NUL) value1 = ''value''" "takeWhile (\<lambda>c. c \<noteq> NUL) value2 = ''value2''"
  "storable value1" "storable value2" "(''value2'' :: string) \<noteq> ''value''"
  by (simp_all add: value1_def value2_def storable_def hive_const)

lemma flags_set:
  "deliver ''key'' key_value_cb [value1] (False, False, False) = (True, True, False)"
  "deliver ''key'' key_value_cb [value1, value2] (False, False, False) = (True, True, True)"
  using value_facts by (simp_all add: key_value_cb_def)

lemma values_checked:
  assumes "testable X D m" "results_in D cn (key_holds k vs) w0 w" "deliver ''key'' key_value_cb vs (False, False, False) = (True, True, second)"
  shows "\<exists>w'. check_values (tested_methods X) second cn w = Some (True, cn, w') \<and> results_in D cn (key_holds k vs) w0 w'"
proof -
  have a: "allowed (Get_values ''key'') (key_holds k vs)" by (simp add: test_name)
  have v: "kvs (key_holds k vs) (fold_case ''key'') = vs" by (simp add: test_name key_holds_def)
  obtain w' where w': "hive_get_values (Some (tested_methods X)) (Some ''key'') True (Some key_value_cb) (False, False, False) cn w
      = Some ((0, (True, True, second)), cn, w')" "results_in D cn (key_holds k vs) w w'"
    using api_get_values [OF laws [OF assms(1)] results_D [OF assms(2)] a, of True key_value_cb "(False, False, False)"]
    unfolding v assms(3) by blast
  with results_trans [OF assms(2) w'(2)] show ?thesis by (simp add: check_values_def)
qed

lemma key_steps:
  assumes "testable X D m" "results_in D cn (key_holds k vs) w0 w" "v = value1 \<and> n = 6 \<or> v = value2 \<and> n = 7" "vs = [] \<or> vs = [value1]"
  shows "\<exists>w'. hive_put_value (Some (tested_methods X)) (Some ''key'') (Some v) n True cn w = Some (0, cn, w') \<and> results_in D cn (key_holds k (vs @ [v])) w0 w'"
proof -
  have e: "effect (Put_value ''key'' v) (key_holds k vs) = key_holds k (vs @ [v])" by (simp add: test_name key_holds_def)
  have "length (entries (vs @ [v])) \<le> 4 * 1024 * 1024"
    using assms(3,4) value_facts by (auto simp: entries_def length_kv_entry)
  then have a: "allowed (Put_value ''key'' v) (key_holds k vs)" using assms(3) value_facts by (auto simp: test_name key_holds_def)
  have n: "n = length v" using assms(3) value_facts by auto
  show ?thesis
    using api_put_value [where ?'c = flags, OF laws [OF assms(1)] results_D [OF assms(2)] a, of True] results_trans [OF assms(2)]
    unfolding e n by blast
qed

lemma key_value_passes:
  assumes "testable X D m" "results_in D cn k w0 w" "kvs k ''key'' = []"
  shows "passes D k (key_value_apis_test (tested_methods X)) cn w0 w"
proof -
  have k0: "key_holds k [] = k" using assms(3) by (simp add: key_holds_def fun_upd_idem)
  have start: "results_in D cn (key_holds k []) w0 w" using assms(2) k0 by simp
  obtain w1 where w1: "hive_put_value (Some (tested_methods X)) (Some ''key'') (Some value1) 6 True cn w = Some (0, cn, w1)"
      "results_in D cn (key_holds k [value1]) w0 w1"
    using key_steps [OF assms(1) start, of value1 6] by auto
  obtain w2 where w2: "check_values (tested_methods X) False cn w1 = Some (True, cn, w2)" "results_in D cn (key_holds k [value1]) w0 w2"
    using values_checked [OF assms(1) w1(2) flags_set(1)] by blast
  obtain w3 where w3: "hive_put_value (Some (tested_methods X)) (Some ''key'') (Some value2) 7 True cn w2 = Some (0, cn, w3)"
      "results_in D cn (key_holds k [value1, value2]) w0 w3"
    using key_steps [OF assms(1) w2(2), of value2 7] by auto
  obtain w4 where w4: "check_values (tested_methods X) True cn w3 = Some (True, cn, w4)" "results_in D cn (key_holds k [value1, value2]) w0 w4"
    using values_checked [OF assms(1) w3(2) flags_set(2)] by blast
  have e: "effect (Set_value ''key'' value1) (key_holds k [value1, value2]) = key_holds k [value1]"
    "effect (Delete_key ''key'') (key_holds k [value1]) = key_holds k []" by (simp_all add: test_name key_holds_def)
  have a: "allowed (Set_value ''key'' value1) (key_holds k [value1, value2])" "allowed (Delete_key ''key'') (key_holds k [value1])"
    by (simp_all add: test_name value_facts)
  obtain w5 where w5: "hive_set_value (Some (tested_methods X)) (Some ''key'') (Some value1) 6 True cn w4 = Some (0, cn, w5)"
      "results_in D cn (key_holds k [value1]) w0 w5"
    using api_set_value [where ?'c = flags, OF laws [OF assms(1)] results_D [OF w4(2)] a(1), of True] results_trans [OF w4(2)]
    unfolding e value_facts by blast
  obtain w6 where w6: "check_values (tested_methods X) False cn w5 = Some (True, cn, w6)" "results_in D cn (key_holds k [value1]) w0 w6"
    using values_checked [OF assms(1) w5(2) flags_set(1)] by blast
  obtain w7 where w7: "hive_delete_key (Some (tested_methods X)) (Some ''key'') cn w6 = Some (0, cn, w7)"
      "results_in D cn (key_holds k []) w0 w7"
    using api_delete_key [where ?'c = flags, OF laws [OF assms(1)] results_D [OF w6(2)] a(2)] results_trans [OF w6(2)]
    unfolding e by blast
  show ?thesis
    using w1(1) w2(1) w3(1) w4(1) w5(1) w6(1) w7 unfolding k0
    by (simp add: passes_def key_value_apis_test_def value1_def value2_def)
qed

lemma cases_pass:
  assumes "\<forall>t \<in> set ts. \<forall>w. results_in D cn k w0 w \<longrightarrow> passes D k t cn w0 w" "results_in D cn k w0 w"
  shows "\<exists>w'. run_cases ts cn w = Some (replicate (length ts) True, cn, w') \<and> results_in D cn k w0 w'"
  using assms
proof (induction ts arbitrary: w)
  case (Cons t ts)
  obtain w1 where "t cn w = Some (True, cn, w1)" "results_in D cn k w0 w1" using Cons.prems by (auto simp: passes_def)
  with Cons.IH [of w1] Cons.prems(1) show ?case by auto
qed auto


section \<open>Examples\<close>

text \<open>The suite on the sample drive, with the file of an earlier run and another file in it.\<close>

definition used_drive :: drive_state where
  "used_drive = ([(''/files/test.txt'', ''old''), (''/files/a'', ''b'')], [])"

definition used_store :: store where
  "used_store = \<lparr>kvs = \<lambda>_. [], blobs = [''test.txt'' \<mapsto> ''old'', ''a'' \<mapsto> ''b''], folder = True\<rparr>"

lemma used_drive_holds: "holds sample_view used_drive used_store"
proof -
  have "visible ''/files/test.txt''" "visible ''/files/a''"
    by (simp_all add: visible_def fold_case_def name_char_def c_tolower_def)
  then show ?thesis by (auto simp: holds_def sample_view_def drive_content_def used_drive_def used_store_def)
qed


end
