(* ===== verification/Hive_Config.thy ===== *)
theory Hive_Config
  imports Hive_Mkdirs Hive_Ipfs
begin

text \<open>
  The configuration file of the command-line client (\<open>src/apps/cmd/config.c\<close>).

  libconfig is the parameter \<open>libconfig\<close>: a file that can be parsed is a value of type \<open>'k\<close>, and so
  is every setting in it.  What is printed to \<open>stderr\<close> is left out.  The environment variable
  \<open>HOME\<close> and the working directory are arguments.
\<close>

section \<open>libconfig\<close>

record 'k libconfig =
  lc_read_file :: "string \<Rightarrow> (string list \<Rightarrow> fnode option) \<Rightarrow> 'k option"
  lc_string :: "'k \<Rightarrow> string \<Rightarrow> string option"
  lc_int :: "'k \<Rightarrow> string \<Rightarrow> int option"
  lc_list :: "'k \<Rightarrow> string \<Rightarrow> 'k list option"

record cmd_cfg =
  cfg_loglevel :: int
  cfg_logfile :: "string option"
  cfg_data_location :: "string option"
  cfg_nodes :: "IPFSNode list"

section \<open>Paths\<close>

text \<open>The part of \<open>ref\<close> in front of its last slash.\<close>

definition dir_part :: "string \<Rightarrow> string" where
  "dir_part ref = rev (drop 1 (dropWhile (\<lambda>c. c \<noteq> CHR ''/'') (rev ref)))"

text \<open>\<open>qualified\<close> is an array of \<open>PATH_MAX\<close> bytes.\<close>

definition qualified_path :: "string option \<Rightarrow> string \<Rightarrow> string \<Rightarrow> string option \<Rightarrow> string option" where
  "qualified_path home cwd path ref =
     (if path \<noteq> [] \<and> hd path = CHR ''/'' then c_strcpy PATH_MAX path
      else if path \<noteq> [] \<and> hd path = CHR ''~''
      then c_strcpy PATH_MAX ((case home of None \<Rightarrow> ''(null)'' | Some h \<Rightarrow> h) @ tl path)
      else do {
        q \<leftarrow> c_strcpy PATH_MAX (case ref of None \<Rightarrow> cwd | Some r \<Rightarrow> dir_part r);
        q' \<leftarrow> c_strcpy PATH_MAX (if q \<noteq> [] then q @ ''/'' else q);
        c_strcpy PATH_MAX (q' @ path)
      })"

section \<open>Loading\<close>

definition c_strdup :: "string \<Rightarrow> 'r world \<Rightarrow> string option \<times> 'r world" where
  "c_strdup s w = (case c_alloc w of (ok, w1) \<Rightarrow> (if ok then Some s else None, w1))"

text \<open>An option that is a string: absent and empty are the same.\<close>

definition string_option :: "'k libconfig \<Rightarrow> 'k \<Rightarrow> string \<Rightarrow> 'r world \<Rightarrow> string option \<times> 'r world" where
  "string_option L k name w =
     (case lc_string L k name of None \<Rightarrow> (None, w) | Some s \<Rightarrow> if s = [] then (None, w) else c_strdup s w)"

definition load_node :: "'k libconfig \<Rightarrow> 'k \<Rightarrow> 'r world \<Rightarrow> IPFSNode option \<times> 'r world" where
  "load_node L nd w =
     (let (ok, w1) = c_alloc w in
      if \<not> ok then (None, w1)
      else (let (ipv4, w2) = string_option L nd ''ipv4'' w1; (ipv6, w3) = string_option L nd ''ipv6'' w2 in
        if ipv4 = None \<and> ipv6 = None then (None, w3)
        else (let (port, w4) = (case lc_int L nd ''port'' of
                None \<Rightarrow> (None, w3) | Some n \<Rightarrow> if n = 0 then (None, w3) else c_strdup (show_int n) w3)
              in (Some \<lparr>in_ipv4 = ipv4, in_ipv6 = ipv6, in_port = port\<rparr>, w4))))"

fun load_nodes :: "'k libconfig \<Rightarrow> 'k list \<Rightarrow> 'r world \<Rightarrow> IPFSNode list option \<times> 'r world" where
  "load_nodes L [] w = (Some [], w)"
| "load_nodes L (nd # nds) w =
     (case load_node L nd w of
        (None, w1) \<Rightarrow> (None, w1)
      | (Some node, w1) \<Rightarrow> (case load_nodes L nds w1 of (r, w2) \<Rightarrow> (map_option ((#) node) r, w2)))"

definition load_config ::
  "'k libconfig \<Rightarrow> string option \<Rightarrow> string \<Rightarrow> string \<Rightarrow> 'r world \<Rightarrow> (cmd_cfg option \<times> 'r world) option" where
  "load_config L home cwd config_file w =
     (case lc_read_file L config_file (files w) of
        None \<Rightarrow> Some (None, w)
      | Some cfg \<Rightarrow>
          (let (ok, w1) = c_alloc w in
           if \<not> ok then Some (None, w1)
           else (let loglevel = (case lc_int L cfg ''loglevel'' of None \<Rightarrow> 3 | Some n \<Rightarrow> n);
                     (logfile, w2) = string_option L cfg ''logfile'' w1
                 in if null_or_empty (lc_string L cfg ''data_location'') then Some (None, w2)
             else do {
               path \<leftarrow> qualified_path home cwd (the (lc_string L cfg ''data_location'')) (Some config_file);
               let (location, w3) = c_strdup path w2;
               case lc_list L cfg ''ipfs_rpc_nodes'' of
                 None \<Rightarrow> Some (None, w3)
               | Some entries \<Rightarrow>
                   if entries = [] then Some (None, w3)
                   else (let (ok, w4) = c_alloc w3 in
                     if \<not> ok then Some (None, w4)
                     else (case load_nodes L entries w4 of
                       (None, w5) \<Rightarrow> Some (None, w5)
                     | (Some nodes, w5) \<Rightarrow>
                         Some (Some \<lparr>cfg_loglevel = loglevel, cfg_logfile = logfile, cfg_data_location = location,
                                 cfg_nodes = nodes\<rparr>, w5)))
             })))"

section \<open>What is loaded\<close>

lemma string_held:
  "c_strdup s w = (r, w') \<Longrightarrow> held w' = held w"
  "string_option L k name w = (r, w') \<Longrightarrow> held w' = held w"
  by (auto simp: c_strdup_def string_option_def dest!: c_alloc_held split: option.splits prod.splits if_splits)

lemma load_node_held: "load_node L nd w = (r, w') \<Longrightarrow> held w' = held w"
  by (auto simp: load_node_def Let_def dest!: c_alloc_held string_held split: option.splits prod.splits if_splits)

lemma load_nodes_held: "load_nodes L nds w = (r, w') \<Longrightarrow> held w' = held w"
  by (induction nds arbitrary: w r) (auto dest!: load_node_held split: option.splits prod.splits)

lemma load_config_held: "post (load_config L home cwd file w) (\<lambda>(r, w'). held w' = held w)"
  unfolding load_config_def
  by (intro hive_post | rule postI | ((auto dest!: c_alloc_held string_held load_nodes_held split: prod.splits)[1]; fail))+

text \<open>The node a setting describes, with an absent string for an empty one and no port for 0.\<close>

definition setting_node :: "'k libconfig \<Rightarrow> 'k \<Rightarrow> IPFSNode" where
  "setting_node L nd =
     (let str = (\<lambda>name. case lc_string L nd name of None \<Rightarrow> None | Some s \<Rightarrow> if s = [] then None else Some s)
      in \<lparr>in_ipv4 = str ''ipv4'', in_ipv6 = str ''ipv6'',
          in_port = (case lc_int L nd ''port'' of None \<Rightarrow> None | Some n \<Rightarrow> if n = 0 then None else Some (show_int n))\<rparr>)"

definition has_address :: "IPFSNode \<Rightarrow> bool" where
  "has_address node \<longleftrightarrow> in_ipv4 node \<noteq> None \<or> in_ipv6 node \<noteq> None"

lemma string_option_calm:
  "faults w = [] \<Longrightarrow> string_option L k name w = (case lc_string L k name of None \<Rightarrow> None | Some s \<Rightarrow> if s = [] then None else Some s, w)"
  by (simp add: string_option_def c_strdup_def libc_defs split: option.splits)

lemma load_node_calm:
  assumes "faults w = []"
  shows "load_node L nd w = (if has_address (setting_node L nd) then Some (setting_node L nd) else None, w)"
  using assms
  by (auto simp: load_node_def string_option_calm setting_node_def has_address_def c_strdup_def libc_defs split: option.splits)

lemma load_nodes_calm:
  "faults w = [] \<Longrightarrow> load_nodes L nds w
     = (if list_all (\<lambda>nd. has_address (setting_node L nd)) nds then Some (map (setting_node L) nds) else None, w)"
  by (induction nds) (simp_all add: load_node_calm)

text \<open>A configuration with a data location and a non-empty list of nodes loads when every node has
  an address, with the nodes in order, absent for empty strings and no port for port 0; with a node
  that has none it is refused.\<close>

theorem load_config_loads:
  assumes "faults w = []" and "lc_read_file L file (files w) = Some cfg" and "lc_string L cfg ''data_location'' = Some loc"
    and "loc \<noteq> []" and "qualified_path home cwd loc (Some file) = Some path" and "lc_list L cfg ''ipfs_rpc_nodes'' = Some nds"
  shows "\<exists>c. load_config L home cwd file w = Some (c, w) \<and>
    (if nds \<noteq> [] \<and> list_all (\<lambda>nd. has_address (setting_node L nd)) nds
     then \<exists>c'. c = Some c' \<and> cfg_data_location c' = Some path \<and> cfg_nodes c' = map (setting_node L) nds
     else c = None)"
  using assms by (auto simp: load_config_def load_nodes_calm string_option_calm c_strdup_def libc_defs)

section \<open>Relative locations\<close>

lemma dir_part_slash: "CHR ''/'' \<notin> set f \<Longrightarrow> dir_part (d @ ''/'' @ f) = d"
proof -
  assume "CHR ''/'' \<notin> set f"
  then have "dropWhile (\<lambda>c. c \<noteq> CHR ''/'') (rev f @ CHR ''/'' # rev d) = CHR ''/'' # rev d"
    by (subst dropWhile_append2) auto
  then show ?thesis by (simp add: dir_part_def)
qed

text \<open>A relative path is resolved against the directory of the configuration file, except in the
  root directory, where it stays relative to the working directory; a result of
  \<open>PATH_MAX\<close> characters or more overruns the array.\<close>

theorem location_beside_config:
  assumes "path \<noteq> []" and "hd path \<noteq> CHR ''/''" and "hd path \<noteq> CHR ''~''" and "CHR ''/'' \<notin> set f"
  shows "qualified_path home cwd path (Some (d @ ''/'' @ f)) =
    (let q = (if d = [] then path else d @ ''/'' @ path) in if length q < PATH_MAX then Some q else None)"
  using assms by (auto simp: qualified_path_def dir_part_slash [OF assms(4), simplified] c_strcpy_def Let_def bind_eq_Some_iff)

section \<open>Examples\<close>

text \<open>Settings whose strings and numbers are given by association lists.\<close>

datatype setting = Setting "(string \<times> string) list" "(string \<times> int) list" "setting list"

definition sample_libconfig :: "setting \<Rightarrow> setting libconfig" where
  "sample_libconfig root = \<lparr>lc_read_file = (\<lambda>_ _. Some root), lc_string = (\<lambda>k n. case k of Setting ss _ _ \<Rightarrow> map_of ss n),
     lc_int = (\<lambda>k n. case k of Setting _ ns _ \<Rightarrow> map_of ns n), lc_list = (\<lambda>k _. case k of Setting _ _ nds \<Rightarrow> Some nds)\<rparr>"

definition sample_setting :: setting where
  "sample_setting = Setting [(''data_location'', ''data'')] []
     [Setting [(''ipv4'', ''1.2.3.4''), (''ipv6'', [])] [(''port'', 0)] []]"

lemma location_beside_config_witness:
  "qualified_path None ''/w'' ''data'' (Some ''/etc/hive.conf'') = Some ''/etc/data''
   \<and> qualified_path None ''/w'' ''data'' (Some ''/hive.conf'') = Some ''data''"
  using location_beside_config [of "''data''" "''hive.conf''" None "''/w''" "''/etc''"]
    location_beside_config [of "''data''" "''hive.conf''" None "''/w''" "[]"]
  by (simp add: PATH_MAX_def)

lemma load_config_loads_witness:
  "\<exists>c. load_config (sample_libconfig sample_setting) None ''/w'' ''/etc/hive.conf'' (calm_world ()) = Some (Some c, calm_world ())
     \<and> cfg_data_location c = Some ''/etc/data''
     \<and> cfg_nodes c = [\<lparr>in_ipv4 = Some ''1.2.3.4'', in_ipv6 = None, in_port = None\<rparr>]"
proof -
  have "qualified_path None ''/w'' ''data'' (Some ''/etc/hive.conf'') = Some ''/etc/data''"
    by (simp add: qualified_path_def dir_part_def PATH_MAX_def)
  from load_config_loads [OF _ _ _ _ this, of "calm_world ()" "sample_libconfig sample_setting" sample_setting
      "[Setting [(''ipv4'', ''1.2.3.4''), (''ipv6'', [])] [(''port'', 0)] []]"]
  show ?thesis by (auto simp: sample_libconfig_def sample_setting_def setting_node_def has_address_def)
qed

end
