(* ===== verification/Hive_Getopt.thy ===== *)
theory Hive_Getopt
  imports Hive_Prelude
begin

text \<open>
  What the two programs use of the C library to read their command lines: \<open>getopt_long\<close> of the GNU library in
  its default mode, which lets options and operands alternate, and the loop over its results that both
  \<open>main\<close> functions have.
\<close>

section \<open>The function getopt_long\<close>

text \<open>A long option: its name, whether it takes an argument, and the value reported for it.\<close>

type_synonym long_option = "string \<times> bool \<times> int"

text \<open>What one call reports: a value, and the argument when there is one.\<close>

type_synonym reported = "int \<times> string option"

definition opt_char :: "char \<Rightarrow> int" where
  "opt_char c = int (of_char c)"

definition bad_option :: reported where
  "bad_option = (opt_char CHR ''?'', None)"

text \<open>A short option in the option string: whether a colon follows it.\<close>

fun short_option :: "string \<Rightarrow> char \<Rightarrow> bool option" where
  "short_option [] c = None"
| "short_option (x # xs) c = (if x = c \<and> c \<noteq> CHR '':'' then Some (take 1 xs = '':'') else short_option xs c)"

text \<open>A long option by its name, or by a prefix that leaves no doubt.\<close>

definition long_option_of :: "long_option list \<Rightarrow> string \<Rightarrow> long_option option" where
  "long_option_of opts name =
     (case filter (\<lambda>z. fst z = name) opts of
        z # _ \<Rightarrow> Some z
      | [] \<Rightarrow> (case filter (\<lambda>z. take (length name) (fst z) = name) opts of
          [] \<Rightarrow> None
        | z # zs \<Rightarrow> if list_all (\<lambda>y. snd y = snd z) zs then Some z else None))"

text \<open>The options of one element \<open>-abc\<close>, and of one element \<open>--name\<close> or \<open>--name=arg\<close>; an argument that is not in
  the element is the next one.\<close>

fun short_element :: "string \<Rightarrow> string \<Rightarrow> string list \<Rightarrow> reported list \<times> string list" where
  "short_element opts [] rest = ([], rest)"
| "short_element opts (c # cs) rest =
     (case short_option opts c of
        None \<Rightarrow> apfst ((#) bad_option) (short_element opts cs rest)
      | Some False \<Rightarrow> apfst ((#) (opt_char c, None)) (short_element opts cs rest)
      | Some True \<Rightarrow>
          if cs \<noteq> [] then ([(opt_char c, Some cs)], rest)
          else (case rest of [] \<Rightarrow> ([bad_option], []) | a # rest' \<Rightarrow> ([(opt_char c, Some a)], rest')))"

definition long_element :: "long_option list \<Rightarrow> string \<Rightarrow> string list \<Rightarrow> reported list \<times> string list" where
  "long_element opts body rest =
     (let name = takeWhile (\<lambda>c. c \<noteq> CHR ''='') body in
      case long_option_of opts name of
        None \<Rightarrow> ([bad_option], rest)
      | Some (_, takes_arg, val) \<Rightarrow>
          if name \<noteq> body then ([if takes_arg then (val, Some (drop (length name + 1) body)) else bad_option], rest)
          else if \<not> takes_arg then ([(val, None)], rest)
          else (case rest of [] \<Rightarrow> ([bad_option], []) | a # rest' \<Rightarrow> ([(val, Some a)], rest')))"

lemma short_element_rest: "length (snd (short_element opts cs rest)) \<le> length rest"
  by (induction opts cs rest rule: short_element.induct) (auto split: option.split bool.split list.split)

lemma long_element_rest: "length (snd (long_element opts body rest)) \<le> length rest"
  by (auto simp: long_element_def Let_def split: option.split list.split)

definition element :: "string \<Rightarrow> long_option list \<Rightarrow> string \<Rightarrow> string list \<Rightarrow> reported list \<times> string list" where
  "element opts longopts a rest =
     (if take 2 a = ''--'' then long_element longopts (drop 2 a) rest else short_element opts (drop 1 a) rest)"

lemma element_rest: "length (snd (element opts longopts a rest)) \<le> length rest"
  by (simp add: element_def short_element_rest long_element_rest)

text \<open>All the values that are reported until \<open>-1\<close>, and the operands that are left behind \<open>optind\<close>.\<close>

function getopt_long :: "string \<Rightarrow> long_option list \<Rightarrow> string list \<Rightarrow> reported list \<times> string list" where
  "getopt_long opts longopts [] = ([], [])"
| "getopt_long opts longopts (a # rest) =
     (if a = ''--'' then ([], rest)
      else if take 1 a = ''-'' \<and> a \<noteq> ''-'' then
        apfst ((@) (fst (element opts longopts a rest))) (getopt_long opts longopts (snd (element opts longopts a rest)))
      else apsnd ((#) a) (getopt_long opts longopts rest))"
  by pat_completeness auto

termination
  by (relation "measure (\<lambda>(_, _, args). length args)") (auto simp: le_imp_less_Suc element_rest)

section \<open>The loop over the options\<close>

text \<open>An option with the value \<open>letter\<close> names a file, which is copied into an array of 2048 bytes; the option
  \<open>--debug\<close> has the value 2; anything else ends in the usage text.  \<open>None\<close> inside is the end of the program.\<close>

fun option_loop :: "int \<Rightarrow> reported list \<Rightarrow> string \<Rightarrow> bool \<Rightarrow> (string \<times> bool) option option" where
  "option_loop letter [] path wait = Some (Some (path, wait))"
| "option_loop letter ((val, arg) # vals) path wait =
     (if val = letter then
        (case arg of
           None \<Rightarrow> None
         | Some a \<Rightarrow> do { path1 \<leftarrow> c_strcpy 2048 a; option_loop letter vals path1 wait })
      else if val = 2 then option_loop letter vals path True
      else Some None)"

text \<open>The text for a debugger; the character that is waited for is taken from the input.\<close>

definition debug_text :: "int \<Rightarrow> string" where
  "debug_text pid = ''Wait for debugger attaching, process id is: '' @ show_int pid @ ''.'' @ [CHR 0x0A]
     @ ''After debugger attached, press any key to continue......'' @ [CHR 0x0A]"

text \<open>The four ways to write an option with an argument.\<close>

definition spellings :: "char \<Rightarrow> string \<Rightarrow> string \<Rightarrow> string list list" where
  "spellings c name arg = [[''-'' @ [c], arg], [''-'' @ [c] @ arg], [''--'' @ name, arg], [''--'' @ name @ ''='' @ arg]]"

text \<open>An argument that is not an option.\<close>

definition operand :: "string \<Rightarrow> bool" where
  "operand a \<longleftrightarrow> take 1 a \<noteq> ''-'' \<or> a = ''-''"

lemma operands:
  "list_all operand ns \<Longrightarrow> getopt_long opts longopts (ns @ rest) = apsnd ((@) ns) (getopt_long opts longopts rest)"
  by (induction ns) (auto simp: operand_def apsnd_def map_prod_def case_prod_unfold)

lemma spelled:
  assumes "short_option opts c = Some True" and "long_option_of longopts name = Some (n, True, opt_char c)"
    and "c \<noteq> CHR ''-''" and "CHR ''='' \<notin> set name" and "name \<noteq> []" and "arg \<noteq> []" and "sp \<in> set (spellings c name arg)"
  shows "getopt_long opts longopts (sp @ rest) = apfst ((#) (opt_char c, Some arg)) (getopt_long opts longopts rest)"
proof -
  have body: "takeWhile (\<lambda>c. c \<noteq> CHR ''='') name = name" "takeWhile (\<lambda>c. c \<noteq> CHR ''='') (name @ CHR ''='' # arg) = name"
    using assms(4) by (auto simp: takeWhile_eq_all_conv takeWhile_append)
  show ?thesis
    using assms body
    by (auto simp: spellings_def element_def long_element_def Let_def apfst_def map_prod_def)
qed

end
