(* ===== verification/Hive_Cmd.thy ===== *)
theory Hive_Cmd
  imports Hive_Config Hive_Api Hive_Strerror Hive_Getopt
begin

text \<open>
  The command-line client (\<open>src/apps/cmd/cmd.c\<close>): reading a line, splitting it into words, the
  commands over the client API, and \<open>main\<close> with its command line.

  \<^item> Standard input is a list of characters, standard output a string; what goes to \<open>stderr\<close> is left
    out.  The context a callback of the API passes on is the output so far, \<open>None\<close> when one has read
    outside its argument.
  \<^item> \<open>shell_env\<close> gathers what the program does not define itself: the libraries, the table of error
    texts, and what \<open>system\<close> starts when it is given a command.
  \<^item> A handler of a command that works on the connection gets the table of operations, the method
    table and the state of the connection when there is one, and returns its output and the state.
\<close>

record ('j, 'r) shell_env =
  se_ext :: "('j, 'r) ext"
  se_inet_pton :: "bool \<Rightarrow> string \<Rightarrow> bool"
  se_strerror :: facility_table
  se_net :: net
  se_thread_rc :: int
  se_system :: "string \<Rightarrow> 'r \<Rightarrow> poll_env list \<times> 'r"

datatype ops = general_ops | ipfs_ops

record ('j, 'r) ctx =
  cx_nodes :: "IPFSNode list"
  cx_client :: "string option"
  cx_connect :: "('j, 'r) connection option"
  cx_ops :: "ops option"
  cx_stop :: bool

section \<open>Output\<close>

definition console :: "string \<Rightarrow> string" where
  "console s = s @ [LF]"

definition prompt :: string where
  "prompt = ''# ''"

text \<open>\<open>hive_get_strerror(hive_get_error(), errbuf, sizeof(errbuf))\<close> in a message.\<close>

definition reason :: "facility_table \<Rightarrow> string \<Rightarrow> 'r world \<Rightarrow> (string \<times> 'r world) option" where
  "reason T what w = do {
     (s, w1) \<leftarrow> hive_get_strerror T (hive_get_error w) True 1024 w;
     Some (console (''Error: '' @ what @ '' failed. Reason: '' @ (case s of None \<Rightarrow> ''(null)'' | Some t \<Rightarrow> t) @ ''.''), w1)
   }"

text \<open>A number below zero is an error that is reported.\<close>

definition report ::
  "facility_table \<Rightarrow> string \<Rightarrow> int \<Rightarrow> string \<Rightarrow> 's \<Rightarrow> 'r world \<Rightarrow> (string \<times> 's \<times> 'r world) option" where
  "report T what rc out s w =
     (if rc < 0 then do { (msg, w1) \<leftarrow> reason T what w; Some (out @ msg, s, w1) } else Some (out, s, w))"

section \<open>The table of operations\<close>

definition ipfs_put_result ::
  "string \<Rightarrow> (int \<times> string option) \<times> 's \<times> 'r world \<Rightarrow> ((int \<times> string) \<times> 's \<times> 'r world) option" where
  "ipfs_put_result what r =
     (case r of ((rc, cid), s, w) \<Rightarrow>
        if rc < 0 then Some ((rc, console (''Error: failed to put file'' @ what @ ''.'')), s, w)
        else do { c \<leftarrow> cid; Some ((0, console (''CID: '' @ c @ ''.'')), s, w) })"

fun ops_put_file ::
  "ops \<Rightarrow> ('s, 'r, string option) HiveConnect \<Rightarrow> string \<Rightarrow> string option \<Rightarrow> ('s, 'r, int \<times> string) hive_op" where
  "ops_put_file general_ops V from filename s w = do {
     (rc, s', w') \<leftarrow> hive_put_file (Some V) (Some from) True filename s w; Some ((rc, []), s', w') }"
| "ops_put_file ipfs_ops V from filename s w = do {
     r \<leftarrow> hive_ipfs_put_file (Some V) (Some from) True True s w; ipfs_put_result [] r }"

fun ops_put_file_from_buffer ::
  "ops \<Rightarrow> ('s, 'r, string option) HiveConnect \<Rightarrow> bytes \<Rightarrow> string option \<Rightarrow> ('s, 'r, int \<times> string) hive_op" where
  "ops_put_file_from_buffer general_ops V from filename s w = do {
     (rc, s', w') \<leftarrow> hive_put_file_from_buffer (Some V) (Some from) (length from) True filename s w; Some ((rc, []), s', w') }"
| "ops_put_file_from_buffer ipfs_ops V from filename s w = do {
     r \<leftarrow> hive_ipfs_put_file_from_buffer (Some V) (Some from) (length from) True True s w;
     ipfs_put_result '' from buffer'' r }"

fun ops_get_file_length :: "ops \<Rightarrow> ('s, 'r, string option) HiveConnect \<Rightarrow> string \<Rightarrow> ('s, 'r, int) hive_op" where
  "ops_get_file_length general_ops V fn = hive_get_file_length (Some V) (Some fn)"
| "ops_get_file_length ipfs_ops V fn = hive_ipfs_get_file_length (Some V) (Some fn)"

fun ops_get_file :: "ops \<Rightarrow> ('s, 'r, string option) HiveConnect \<Rightarrow> string \<Rightarrow> string \<Rightarrow> ('s, 'r, int) hive_op" where
  "ops_get_file general_ops V fn to = hive_get_file (Some V) (Some fn) True (Some to)"
| "ops_get_file ipfs_ops V fn to = hive_ipfs_get_file (Some V) (Some fn) True (Some to)"

fun ops_get_file_to_buffer :: "ops \<Rightarrow> ('s, 'r, string option) HiveConnect \<Rightarrow> string \<Rightarrow> nat \<Rightarrow> ('s, 'r, int \<times> bytes) hive_op" where
  "ops_get_file_to_buffer general_ops V fn len = hive_get_file_to_buffer (Some V) (Some fn) True (Some len) len"
| "ops_get_file_to_buffer ipfs_ops V fn len = hive_ipfs_get_file_to_buffer (Some V) (Some fn) True (Some len) len"

section \<open>Commands on a connection\<close>

type_synonym ('s, 'r) target = "(ops \<times> ('s, 'r, string option) HiveConnect \<times> 's) option"
type_synonym ('s, 'r) handler = "string list \<Rightarrow> ('s, 'r) target \<Rightarrow> 'r world \<Rightarrow> (string \<times> 's option \<times> 'r world) option"

text \<open>The beginning of the handlers: the number of arguments, then the connection.\<close>

definition connected ::
  "bool \<Rightarrow> (ops \<Rightarrow> ('s, 'r, string option) HiveConnect \<Rightarrow> ('s, 'r, string) hive_op) \<Rightarrow> ('s, 'r) target \<Rightarrow> 'r world
     \<Rightarrow> (string \<times> 's option \<times> 'r world) option" where
  "connected valid f t w =
     (if \<not> valid then Some (console ''Error: invalid command syntax.'', map_option (\<lambda>(_, _, s). s) t, w)
      else (case t of
        None \<Rightarrow> Some (console ''Error: No HiveConnect instance created.'', None, w)
      | Some (ops, V, s) \<Rightarrow> do { (out, s', w') \<leftarrow> f ops V s w; Some (out, Some s', w') }))"

text \<open>An operation whose entry in \<open>ipfs_ops\<close> is a null pointer.\<close>

definition supported :: "ops \<Rightarrow> ('s, 'r, string) hive_op \<Rightarrow> ('s, 'r, string) hive_op" where
  "supported ops f s w =
     (if ops = ipfs_ops then Some (console ''Error: HiveConnect instance does not support this operation.'', s, w) else f s w)"

definition disconnect :: "('s, 'r) handler" where
  "disconnect argv t w =
     (if length argv \<noteq> 1 then Some (console ''Error: invalid command syntax.'', map_option (\<lambda>(_, _, s). s) t, w)
      else (case t of
        None \<Rightarrow> Some ([], None, w)
      | Some (ops, V, s) \<Rightarrow> do { (_, _, w') \<leftarrow> hive_client_disconnect (Some V) s w; Some ([], None, w') }))"

definition put_file :: "facility_table \<Rightarrow> ('s, 'r) handler" where
  "put_file T argv = connected (length argv \<in> {2, 3, 4}) (\<lambda>ops V s w.
     let (from_file, from, to) =
       (case argv of
          [_, a] \<Rightarrow> (False, a, None)
        | [_, a, b] \<Rightarrow> if a = ''<'' then (True, b, None) else (False, a, Some b)
        | _ \<Rightarrow> (True, argv ! 2, Some (argv ! 3)))
     in do {
       ((rc, out), s', w') \<leftarrow> (if from_file then ops_put_file ops V from to s w
                               else ops_put_file_from_buffer ops V from to s w);
       report T ''put file'' rc out s' w'
     })"

definition get_length :: "facility_table \<Rightarrow> ('s, 'r) handler" where
  "get_length T argv = connected (length argv = 2) (\<lambda>ops V s w. do {
     (len, s', w') \<leftarrow> ops_get_file_length ops V (argv ! 1) s w;
     if len < 0 then report T ''get length'' len [] s' w'
     else Some (console (''file '' @ argv ! 1 @ '' length is '' @ show_int len @ '' bytes.''), s', w')
   })"

text \<open>A file that is printed: its length, then its contents in a block fresh from \<open>malloc\<close> that is
  one byte longer.\<close>

definition print_file :: "facility_table \<Rightarrow> ops \<Rightarrow> ('s, 'r, string option) HiveConnect \<Rightarrow> string \<Rightarrow> ('s, 'r, string) hive_op" where
  "print_file T ops V fn s w = do {
     (len, s1, w1) \<leftarrow> ops_get_file_length ops V fn s w;
     if len < 0 then report T ''get length'' len [] s1 w1
     else if len = 0 then Some (console (''file '' @ fn @ '' length is 0 bytes.''), s1, w1)
     else (let (ok, w2) = c_alloc w1 in
       if \<not> ok then Some (console ''Error: OOM.'', s1, w2)
       else do {
         ((n, got), s2, w3) \<leftarrow> ops_get_file_to_buffer ops V fn (nat len) s1 w2;
         if n < 0 then report T ''get file to buffer'' n [] s2 w3
         else do {
           buf \<leftarrow> store_at (nat n) [NUL] (resize_block (heap_junk w3 (tick w3)) (nat len + 1) got);
           Some (console (takeWhile (\<lambda>c. c \<noteq> NUL) buf), s2, w3\<lparr>tick := Suc (tick w3)\<rparr>)
         }
       })
   }"

definition get_file :: "facility_table \<Rightarrow> ('s, 'r) handler" where
  "get_file T argv = connected (length argv \<in> {2, 3}) (\<lambda>ops V s w.
     if length argv = 2 then print_file T ops V (argv ! 1) s w
     else do {
       (len, s1, w1) \<leftarrow> ops_get_file ops V (argv ! 1) (argv ! 2) s w;
       report T ''get file'' len [] s1 w1
     })"

definition delete_file :: "facility_table \<Rightarrow> ('s, 'r) handler" where
  "delete_file T argv = connected (length argv = 2) (\<lambda>ops V. supported ops (\<lambda>s w. do {
     (rc, s', w') \<leftarrow> hive_delete_file (Some V) (Some (argv ! 1)) s w;
     report T ''delete file'' rc [] s' w'
   }))"

definition list_files_cb :: "string option \<Rightarrow> string option \<Rightarrow> bool \<times> string option" where
  "list_files_cb filename out = (True, case filename of None \<Rightarrow> out | Some f \<Rightarrow> map_option (\<lambda>o'. o' @ console f) out)"

definition list_files :: "facility_table \<Rightarrow> ('s, 'r) handler" where
  "list_files T argv = connected (length argv = 1) (\<lambda>ops V. supported ops (\<lambda>s w. do {
     ((rc, out), s', w') \<leftarrow> hive_list_files (Some V) (Some list_files_cb) (Some []) s w;
     printed \<leftarrow> out;
     report T ''list files'' rc printed s' w'
   }))"

definition put_value :: "facility_table \<Rightarrow> ('s, 'r) handler" where
  "put_value T argv = connected (length argv = 3) (\<lambda>ops V. supported ops (\<lambda>s w. do {
     (rc, s', w') \<leftarrow> hive_put_value (Some V) (Some (argv ! 1)) (Some (argv ! 2 @ [NUL])) (length (argv ! 2) + 1) True s w;
     report T ''put value'' rc [] s' w'
   }))"

definition set_value :: "facility_table \<Rightarrow> ('s, 'r) handler" where
  "set_value T argv = connected (length argv = 3) (\<lambda>ops V. supported ops (\<lambda>s w. do {
     (rc, s', w') \<leftarrow> hive_set_value (Some V) (Some (argv ! 1)) (Some (argv ! 2 @ [NUL])) (length (argv ! 2) + 1) True s w;
     report T ''set value'' rc [] s' w'
   }))"

text \<open>A value is printed as a C string, which reads past a value with no NUL in it; \<open>put_value\<close> and
  \<open>set_value\<close> of this program store one.\<close>

definition get_values_cb :: "string \<Rightarrow> bytes \<Rightarrow> string option \<Rightarrow> bool \<times> string option" where
  "get_values_cb key val out =
     (True, if NUL \<in> set val then map_option (\<lambda>o'. o' @ console (takeWhile (\<lambda>c. c \<noteq> NUL) val)) out else None)"

definition get_values :: "facility_table \<Rightarrow> ('s, 'r) handler" where
  "get_values T argv = connected (length argv = 2) (\<lambda>ops V. supported ops (\<lambda>s w. do {
     ((rc, out), s', w') \<leftarrow> hive_get_values (Some V) (Some (argv ! 1)) True (Some get_values_cb) (Some []) s w;
     printed \<leftarrow> out;
     report T ''get values'' rc printed s' w'
   }))"

definition delete_key :: "facility_table \<Rightarrow> ('s, 'r) handler" where
  "delete_key T argv = connected (length argv = 2) (\<lambda>ops V. supported ops (\<lambda>s w. do {
     (rc, s', w') \<leftarrow> hive_delete_key (Some V) (Some (argv ! 1)) s w;
     report T ''delete key'' rc [] s' w'
   }))"

section \<open>The other commands\<close>

text \<open>The array is as long as \<open>"open "\<close> or \<open>"xdg-open "\<close>, the URL and three more.\<close>

definition open_url :: "string \<Rightarrow> string option" where
  "open_url url = c_strcpy (length ''xdg-open '' + length url + 3) (''xdg-open '' @ [CHR 0x27] @ url @ [CHR 0x27])"

definition browser :: "('j, 'r) shell_env \<Rightarrow> 'r auth_env" where
  "browser E = \<lparr>ae_net = se_net E, ae_thread_rc = se_thread_rc E,
     ae_polls = (\<lambda>url r. case open_url url of None \<Rightarrow> ([], r) | Some cmd \<Rightarrow> se_system E cmd r)\<rparr>"

definition HIVETEST_REDIRECT_URL :: string where "HIVETEST_REDIRECT_URL = ''http://localhost:12345''"
definition HIVETEST_SCOPE :: string where "HIVETEST_SCOPE = ''Files.ReadWrite.AppFolder offline_access''"
definition HIVETEST_ONEDRIVE_CLIENT_ID :: string where
  "HIVETEST_ONEDRIVE_CLIENT_ID = ''afd3d647-a8b7-4723-bf9d-1b832f43b881''"

definition client_connect ::
  "('j, 'r) shell_env \<Rightarrow> string list \<Rightarrow> ('j, 'r) ctx \<Rightarrow> 'r world \<Rightarrow> (string \<times> ('j, 'r) ctx \<times> 'r world) option" where
  "client_connect E argv cx w =
     (let failure = console (''create HiveConnect instance failure.'' @ [LF]) in
      if length argv \<noteq> 2 then Some (console ''Error: invalid command syntax.'', cx, w)
      else if cx_connect cx \<noteq> None then Some (console ''Error: a HiveConnect instance already exists.'', cx, w)
      else if argv ! 1 = ''onedrive'' then do {
        (c, w1) \<leftarrow> hive_client_connect (se_ext E) (se_inet_pton E) (cx_client cx) (Some (OneDrive_options
           \<lparr>odo_backendType = HiveBackendType_OneDrive, odo_client_id = Some HIVETEST_ONEDRIVE_CLIENT_ID,
            odo_scope = Some HIVETEST_SCOPE, odo_redirect_url = Some HIVETEST_REDIRECT_URL,
            odo_callback = Some (browser E)\<rparr>)) w;
        Some (if c = None then (failure, cx, w1) else ([], cx\<lparr>cx_connect := c, cx_ops := Some general_ops\<rparr>, w1))
      }
      else if argv ! 1 = ''ipfs'' then
        (let (ok, w1) = c_alloc w in
         if \<not> ok then Some (failure, cx, w1)
         else do {
           (c, w2) \<leftarrow> hive_client_connect (se_ext E) (se_inet_pton E) (cx_client cx) (Some (IPFS_options
              \<lparr>ico_backendType = HiveBackendType_IPFS, rpcNodes = cx_nodes cx\<rparr>)) w1;
           Some (if c = None then (failure, cx, w2) else ([], cx\<lparr>cx_connect := c, cx_ops := Some ipfs_ops\<rparr>, w2))
         })
      else Some (console ''Error: unsupported backend type.'', cx, w))"

datatype cmd_cb =
    cb_help | cb_client_connect | cb_disconnect | cb_put_file | cb_get_length | cb_get_file | cb_delete_file
  | cb_list_files | cb_put_value | cb_set_value | cb_get_values | cb_delete_key | cb_exit_app

definition commands :: "(string \<times> cmd_cb \<times> string) list" where
  "commands = [
     (''help'', cb_help, ''help [cmd]''),
     (''connect'', cb_client_connect, ''connect type''),
     (''disconnect'', cb_disconnect, ''disconnect''),
     (''put_file'', cb_put_file, ''put_file {string | < file} [to]''),
     (''get_len'', cb_get_length, ''get_len file''),
     (''get_file'', cb_get_file, ''get_file {file | cid} [to]''),
     (''del_file'', cb_delete_file, ''del_file file''),
     (''ls'', cb_list_files, ''ls''),
     (''put_val'', cb_put_value, ''put_val key value''),
     (''set_val'', cb_set_value, ''set_val key value''),
     (''get_val'', cb_get_values, ''get_val key''),
     (''del_key'', cb_delete_key, ''del_key key''),
     (''exit'', cb_exit_app, ''exit'')]"

definition help_cmd :: "string list \<Rightarrow> string" where
  "help_cmd argv =
     (if length argv = 1
      then console ''available commands list:'' @ console (''  '' @ concat (map (\<lambda>c. fst c @ '' '') commands))
      else (case map_of commands (argv ! 1) of
        Some (_, usage) \<Rightarrow> console (''usage: '' @ usage)
      | None \<Rightarrow> console (''unknown command: '' @ argv ! 1 @ [LF])))"

fun conn_cmd :: "facility_table \<Rightarrow> cmd_cb \<Rightarrow> ('s, 'r) handler" where
  "conn_cmd T cb_disconnect = disconnect"
| "conn_cmd T cb_put_file = put_file T"
| "conn_cmd T cb_get_length = get_length T"
| "conn_cmd T cb_get_file = get_file T"
| "conn_cmd T cb_delete_file = delete_file T"
| "conn_cmd T cb_list_files = list_files T"
| "conn_cmd T cb_put_value = put_value T"
| "conn_cmd T cb_set_value = set_value T"
| "conn_cmd T cb_get_values = get_values T"
| "conn_cmd T cb_delete_key = delete_key T"
| "conn_cmd T _ = (\<lambda>_ _ _. None)"

text \<open>\<open>p->cmd_cb(&cmd_ctx, count, args)\<close>.\<close>

definition run_cmd ::
  "('j, 'r) shell_env \<Rightarrow> cmd_cb \<Rightarrow> string list \<Rightarrow> ('j, 'r) ctx \<Rightarrow> 'r world \<Rightarrow> (string \<times> ('j, 'r) ctx \<times> 'r world) option" where
  "run_cmd E cb argv cx w =
     (let T = se_strerror E in
      case cb of
        cb_help \<Rightarrow> Some (help_cmd argv, cx, w)
      | cb_client_connect \<Rightarrow> client_connect E argv cx w
      | cb_exit_app \<Rightarrow> Some ([], cx\<lparr>cx_stop := True\<rparr>, w)
      | _ \<Rightarrow>
          (case cx_connect cx of
             None \<Rightarrow> do { (out, _, w') \<leftarrow> conn_cmd T cb argv (None :: (unit, 'r) target) w; Some (out, cx, w') }
           | Some (OneDrive cn) \<Rightarrow> do {
               ops \<leftarrow> cx_ops cx;
               (out, s, w') \<leftarrow> conn_cmd T cb argv (Some (ops, onedrive_methods (se_ext E), cn)) w;
               Some (out, cx\<lparr>cx_connect := map_option OneDrive s\<rparr>, w')
             }
           | Some (IPFS cn) \<Rightarrow> do {
               ops \<leftarrow> cx_ops cx;
               (out, s, w') \<leftarrow> conn_cmd T cb argv (Some (ops, ipfs_methods (se_ext E), cn)) w;
               Some (out, cx\<lparr>cx_connect := map_option IPFS s\<rparr>, w')
             }))"

section \<open>Lines\<close>

definition c_isprint :: "char \<Rightarrow> bool" where
  "c_isprint c \<longleftrightarrow> (let n = of_char c :: nat in 32 \<le> n \<and> n \<le> 126)"

text \<open>The trimming of a line: trailing spaces, of which the first character is never one, then
  leading ones.\<close>

definition trim_line :: "string \<Rightarrow> string" where
  "trim_line line =
     (let p = (case line of [] \<Rightarrow> [] | c # cs \<Rightarrow> c # rev (dropWhile c_isspace (rev cs)))
      in dropWhile c_isspace p)"

text \<open>\<open>cmd_line\<close> holds what was read of the line; the results are the command, what was printed, and
  the rest of the input.\<close>

fun read_cmd :: "string \<Rightarrow> string \<Rightarrow> (string option \<times> string \<times> string) option" where
  "read_cmd cmd_line [] = Some (None, [], [])"
| "read_cmd cmd_line (ch # input) =
     (if ch = NUL then Some (None, [], input)
      else if c_isprint ch then
        (if length cmd_line < 1024 then read_cmd (cmd_line @ [ch]) input else None)
      else if ch = LF \<or> ch = CR then
        (if length cmd_line < 1024 then
           (let p = trim_line cmd_line in
            if p \<noteq> [] then Some (Some p, [], input)
            else map_option (\<lambda>(cmd, out, rest). (cmd, prompt @ out, rest)) (read_cmd [] input))
         else None)
      else read_cmd cmd_line input)"

lemma read_cmd_rest: "read_cmd acc input = Some (Some cmd, out, rest) \<Longrightarrow> length rest < length input"
  by (induction acc input arbitrary: cmd out rest rule: read_cmd.induct) (fastforce simp: Let_def split: if_splits)+

text \<open>The loop of \<open>do_cmd\<close> over the line; an argument is the text from its first character to the NUL
  that replaced the space behind it.\<close>

fun split_line :: "string list \<Rightarrow> bool \<Rightarrow> string \<Rightarrow> string list option" where
  "split_line args word [] = Some args"
| "split_line args word (c # p) =
     (if c_isspace c then split_line args False p
      else if word then split_line (butlast args @ [last args @ [c]]) True p
      else if length args < 64 then split_line (args @ [[c]]) True p else None)"

definition do_cmd ::
  "('j, 'r) shell_env \<Rightarrow> string \<Rightarrow> ('j, 'r) ctx \<Rightarrow> 'r world \<Rightarrow> (string \<times> ('j, 'r) ctx \<times> 'r world) option" where
  "do_cmd E line cx w = do {
     args \<leftarrow> split_line [] False line;
     if args = [] then Some ([], cx, w)
     else (case map_of commands (hd args) of
       Some (cb, _) \<Rightarrow> run_cmd E cb args cx w
     | None \<Rightarrow> Some (console (''unknown command: '' @ hd args), cx, w))
   }"

section \<open>The program\<close>

function shell_loop ::
  "('j, 'r) shell_env \<Rightarrow> string \<Rightarrow> ('j, 'r) ctx \<Rightarrow> 'r world \<Rightarrow> (string \<times> ('j, 'r) ctx \<times> 'r world) option" where
  "shell_loop E input cx w =
     (case read_cmd [] input of
        None \<Rightarrow> None
      | Some (None, out, _) \<Rightarrow> Some (out, cx, w)
      | Some (Some cmd, out, rest) \<Rightarrow>
          (case do_cmd E cmd cx w of
             None \<Rightarrow> None
           | Some (out1, cx1, w1) \<Rightarrow>
               if cx_stop cx1 then Some (out @ out1, cx1, w1)
               else map_option (\<lambda>(out2, cx2, w2). (out @ out1 @ prompt @ out2, cx2, w2)) (shell_loop E rest cx1 w1)))"
  by pat_completeness auto

termination
  by (relation "measure (\<lambda>(E, input, cx, w). length input)") (auto dest: read_cmd_rest)

declare shell_loop.simps [simp del]

definition deinit :: "('j, 'r) shell_env \<Rightarrow> ('j, 'r) ctx \<Rightarrow> 'r world \<Rightarrow> 'r world option" where
  "deinit E cx w =
     (case cx_connect cx of
        None \<Rightarrow> Some w
      | Some (OneDrive cn) \<Rightarrow> do {
          (_, _, w') \<leftarrow> hive_client_disconnect (Some (onedrive_methods (se_ext E) :: (_, _, string option) HiveConnect)) cn w; Some w' }
      | Some (IPFS cn) \<Rightarrow> do {
          (_, _, w') \<leftarrow> hive_client_disconnect (Some (ipfs_methods (se_ext E) :: (_, _, string option) HiveConnect)) cn w; Some w' })"

text \<open>\<open>main\<close> from the check of the configuration file on; \<open>mkdir\<close> of a location that could not be
  duplicated fails.\<close>

definition hivecmd ::
  "('j, 'r) shell_env \<Rightarrow> 'k libconfig \<Rightarrow> string option \<Rightarrow> string \<Rightarrow> string \<Rightarrow> string \<Rightarrow> 'r world
     \<Rightarrow> (int \<times> string \<times> 'r world) option" where
  "hivecmd E L home cwd path input w =
     (case c_stat path w of
        (None, w1) \<Rightarrow> Some (-1, [], w1)
      | (Some _, w1) \<Rightarrow> do {
          (cfg, w2) \<leftarrow> load_config L home cwd path w1;
          case cfg of
            None \<Rightarrow> Some (-1, [], w2)
          | Some c \<Rightarrow>
              (case cfg_data_location c of
                 None \<Rightarrow> Some (-1, [], w2)
               | Some loc \<Rightarrow> (case c_mkdir loc w2 of (rc, w3) \<Rightarrow>
                   if rc < 0 \<and> errno w3 \<noteq> EEXIST then Some (-1, [], w3)
                   else (case hive_client_new (Some (Some loc)) w3 of
                     (None, w4) \<Rightarrow> Some (-1, [], w4)
                   | (Some client, w4) \<Rightarrow> do {
                       (out, cx, w5) \<leftarrow> shell_loop E input \<lparr>cx_nodes = cfg_nodes c, cx_client = Some client,
                          cx_connect = None, cx_ops = None, cx_stop = False\<rparr> w4;
                       w6 \<leftarrow> deinit E cx w5;
                       Some (0, prompt @ out, w6)
                     })))
        })"

text \<open>The options, and the text for those that are wrong.\<close>

definition cmd_shortopts :: string where
  "cmd_shortopts = ''c:t:s:h?''"

definition cmd_longopts :: "long_option list" where
  "cmd_longopts = [(''config'', True, opt_char CHR ''c''), (''debug'', False, 2), (''help'', False, opt_char CHR ''h'')]"

definition cmd_usage :: string where
  "cmd_usage = concat (map console
     [''hivecmd, a CLI application to demonstrate use of hive apis.'', ''Usage: hivecmd [OPTION]...'', [],
      ''First run options:'', ''  -c, --config=CONFIG_FILE      Set config file path.'', [],
      ''Debugging options:'', ''      --debug                   Wait for debugger attach after start.'', []])"

text \<open>What a process is given: its environment, its number, and \<open>realpath\<close>; the buffer has no defined
  contents when \<open>realpath\<close> fails.\<close>

record process =
  p_home :: "string option"
  p_cwd :: string
  p_pid :: int
  p_realpath :: "string \<Rightarrow> string option"

definition config_path :: "process \<Rightarrow> string list \<Rightarrow> string \<Rightarrow> string option" where
  "config_path P argv path =
     (if path \<noteq> [] then Some path
      else case argv of [] \<Rightarrow> None | program # _ \<Rightarrow> do { r \<leftarrow> p_realpath P program; c_strcpy 2048 (r @ ''.conf'') })"

definition cmd_main ::
  "('j, 'r) shell_env \<Rightarrow> 'k libconfig \<Rightarrow> process \<Rightarrow> string list \<Rightarrow> string \<Rightarrow> 'r world
     \<Rightarrow> (int \<times> string \<times> 'r world) option" where
  "cmd_main E L P argv input w = do {
     opts \<leftarrow> option_loop (opt_char CHR ''c'') (fst (getopt_long cmd_shortopts cmd_longopts (tl argv))) [] False;
     case opts of
       None \<Rightarrow> Some (-1, cmd_usage, w)
     | Some (given, wait) \<Rightarrow> do {
         path \<leftarrow> config_path P argv given;
         (rc, out, w1) \<leftarrow> hivecmd E L (p_home P) (p_cwd P) path (if wait then drop 1 input else input) w;
         Some (rc, (if wait then debug_text (p_pid P) else []) @ out, w1)
       }
   }"

section \<open>Reading a command\<close>

text \<open>The words of a line, as a recursion over the line.\<close>

function line_words :: "string \<Rightarrow> string list" where
  "line_words [] = []"
| "line_words (c # p) =
     (if c_isspace c then line_words p
      else (c # takeWhile (\<lambda>c. \<not> c_isspace c) p) # line_words (dropWhile (\<lambda>c. \<not> c_isspace c) p))"
  by pat_completeness auto

termination
  by (relation "measure length") (auto simp: le_imp_less_Suc length_dropWhile_le)

lemma split_line_words:
  "length args \<le> 64 \<Longrightarrow> split_line args False p
     = (if length (args @ line_words p) \<le> 64 then Some (args @ line_words p) else None)"
  "length args < 64 \<Longrightarrow> split_line (args @ [a]) True p
     = (let ws = args @ (a @ takeWhile (\<lambda>c. \<not> c_isspace c) p) # line_words (dropWhile (\<lambda>c. \<not> c_isspace c) p)
        in if length ws \<le> 64 then Some ws else None)"
proof (induction p arbitrary: args a)
  case (Cons c p)
  {
    case 1
    then show ?case using Cons.IH(1) [of args] Cons.IH(2) [of args "[c]"] by (simp add: Let_def)
  next
    case 2
    then show ?case using Cons.IH(1) [of "args @ [a]"] Cons.IH(2) [of args "a @ [c]"] by (simp add: Let_def)
  }
qed (auto simp: Let_def)

lemma words_of_line: "split_line [] False line = (if length (line_words line) \<le> 64 then Some (line_words line) else None)"
  using split_line_words(1) [of "[]" line] by simp

text \<open>What one command does, by its words.\<close>

definition command ::
  "('j, 'r) shell_env \<Rightarrow> string list \<Rightarrow> ('j, 'r) ctx \<Rightarrow> 'r world \<Rightarrow> (string \<times> ('j, 'r) ctx \<times> 'r world) option" where
  "command E vs cx w =
     (case map_of commands (hd vs) of
        None \<Rightarrow> Some (console (''unknown command: '' @ hd vs), cx, w)
      | Some (cb, _) \<Rightarrow> run_cmd E cb vs cx w)"

lemma do_cmd_words:
  "do_cmd E line cx w =
     (if 64 < length (line_words line) then None
      else if line_words line = [] then Some ([], cx, w) else command E (line_words line) cx w)"
  by (auto simp: do_cmd_def command_def words_of_line split: list.splits option.splits)

lemma read_printable:
  "list_all c_isprint l \<Longrightarrow> length acc + length l < 1024 \<Longrightarrow> read_cmd acc (l @ LF # input) =
     (let p = trim_line (acc @ l) in
      if p \<noteq> [] then Some (Some p, [], input) else map_option (\<lambda>(cmd, out, rest). (cmd, prompt @ out, rest)) (read_cmd [] input))"
proof (induction l arbitrary: acc)
  case (Cons c l)
  then have "c \<noteq> NUL" "c_isprint c" by (auto simp: c_isprint_def)
  with Cons show ?case by simp
qed (simp add: c_isprint_def)

lemma read_too_long:
  "list_all c_isprint l \<Longrightarrow> length acc \<le> 1024 \<Longrightarrow> 1024 \<le> length acc + length l \<Longrightarrow> read_cmd acc (l @ LF # input) = None"
proof (induction l arbitrary: acc)
  case (Cons c l)
  then have "c \<noteq> NUL" "c_isprint c" by (auto simp: c_isprint_def)
  with Cons show ?case by simp
qed (simp add: c_isprint_def)

text \<open>A line of words with one space between them.\<close>

fun unwords :: "string list \<Rightarrow> string" where
  "unwords [] = []"
| "unwords [v] = v"
| "unwords (v # vs) = v @ CHR '' '' # unwords vs"

definition typed_word :: "string \<Rightarrow> bool" where
  "typed_word v \<longleftrightarrow> v \<noteq> [] \<and> list_all (\<lambda>c. c_isprint c \<and> \<not> c_isspace c) v"

lemma line_words_word:
  assumes "typed_word v" "rest = [] \<or> c_isspace (hd rest)"
  shows "line_words (v @ rest) = v # line_words rest"
proof (cases v)
  case (Cons c u)
  have u: "\<forall>x \<in> set u. \<not> c_isspace x" "\<not> c_isspace c" using assms(1) by (auto simp: typed_word_def Cons list_all_iff)
  then have "takeWhile (\<lambda>c. \<not> c_isspace c) (u @ rest) = u" "dropWhile (\<lambda>c. \<not> c_isspace c) (u @ rest) = rest"
    using assms(2) by (cases rest; auto simp: takeWhile_append dropWhile_append)+
  then show ?thesis using Cons u(2) by simp
qed (use assms(1) in \<open>simp add: typed_word_def\<close>)

lemma line_words_unwords: "list_all typed_word vs \<Longrightarrow> line_words (unwords vs) = vs"
proof (induction vs rule: unwords.induct)
  case (2 v)
  then show ?case using line_words_word [of v "[]"] by simp
next
  case (3 v u vs)
  then have "line_words (v @ CHR '' '' # unwords (u # vs)) = v # line_words (CHR '' '' # unwords (u # vs))"
    by (intro line_words_word) (auto simp: c_isspace_def)
  with 3 show ?case by (simp add: c_isspace_def)
qed simp

lemma unwords_shape:
  "vs \<noteq> [] \<Longrightarrow> list_all typed_word vs \<Longrightarrow> unwords vs \<noteq> [] \<and> list_all c_isprint (unwords vs)
     \<and> \<not> c_isspace (hd (unwords vs)) \<and> \<not> c_isspace (last (unwords vs))"
proof (induction vs rule: unwords.induct)
  case (2 v)
  then show ?case using hd_in_set [of v] last_in_set [of v] by (auto simp: typed_word_def list_all_iff)
next
  case (3 v u vs)
  then show ?case by (cases v) (auto simp: typed_word_def list_all_iff c_isprint_def)
qed simp

lemma trim_trimmed: "l \<noteq> [] \<Longrightarrow> \<not> c_isspace (hd l) \<Longrightarrow> \<not> c_isspace (last l) \<Longrightarrow> trim_line l = l"
proof -
  assume l: "l \<noteq> []" "\<not> c_isspace (hd l)" "\<not> c_isspace (last l)"
  then obtain c cs where c: "l = c # cs" by (cases l) auto
  have "rev (dropWhile c_isspace (rev cs)) = cs"
    using l c by (cases cs rule: rev_cases) auto
  then show ?thesis using l c by (simp add: trim_line_def)
qed

lemma read_typed:
  assumes "vs \<noteq> []" and "list_all typed_word vs" and "length (unwords vs) < 1024"
  shows "read_cmd [] (unwords vs @ LF # input) = Some (Some (unwords vs), [], input)"
proof -
  note s = unwords_shape [OF assms(1,2)]
  then have "trim_line (unwords vs) = unwords vs" by (blast intro: trim_trimmed)
  then show ?thesis
    using s read_printable [of "unwords vs" "[]" input] assms(3) by (simp add: Let_def)
qed

text \<open>C37: Words typed with one space between them are read and split into the same words, exactly as
  long as the line has fewer than 1024 characters and the command at most 64 words; beyond that the
  arrays of the program are overrun.\<close>

theorem typed_line_roundtrip:
  assumes "vs \<noteq> []" and "list_all typed_word vs"
  shows "read_cmd [] (unwords vs @ LF # input) =
      (if length (unwords vs) < 1024 then Some (Some (unwords vs), [], input) else None)
    \<and> split_line [] False (unwords vs) = (if length vs \<le> 64 then Some vs else None)"
  using read_typed [OF assms] unwords_shape [OF assms] read_too_long [of "unwords vs" "[]" input] assms(2)
  by (simp add: words_of_line line_words_unwords)

text \<open>A session of typed commands: each runs after the other, up to \<open>exit\<close>.\<close>

fun session ::
  "('j, 'r) shell_env \<Rightarrow> string list list \<Rightarrow> ('j, 'r) ctx \<Rightarrow> 'r world \<Rightarrow> (string \<times> ('j, 'r) ctx \<times> 'r world) option" where
  "session E [] cx w = Some ([], cx, w)"
| "session E (vs # rest) cx w = do {
     (out, cx1, w1) \<leftarrow> command E vs cx w;
     if cx_stop cx1 then Some (out, cx1, w1)
     else do { (out2, cx2, w2) \<leftarrow> session E rest cx1 w1; Some (out @ prompt @ out2, cx2, w2) }
   }"

definition typed_cmd :: "string list \<Rightarrow> bool" where
  "typed_cmd vs \<longleftrightarrow> vs \<noteq> [] \<and> list_all typed_word vs \<and> length (unwords vs) < 1024 \<and> length vs \<le> 64"

text \<open>C36: The shell computes what its commands compute: typing commands of at most 64 printable words
  and fewer than 1024 characters, one per line, runs each of them in turn on the state the one
  before left, with a prompt between them, up to the first exit.\<close>

theorem shell_runs_session:
  assumes "list_all typed_cmd cmds"
  shows "shell_loop E (concat (map (\<lambda>vs. unwords vs @ [LF]) cmds)) cx w = session E cmds cx w"
  using assms
proof (induction cmds arbitrary: cx w)
  case (Cons vs cmds)
  then have r: "read_cmd [] (unwords vs @ LF # rest) = Some (Some (unwords vs), [], rest)" for rest
    by (intro read_typed) (auto simp: typed_cmd_def)
  have d: "do_cmd E (unwords vs) cx w = command E vs cx w"
    using Cons.prems by (simp add: typed_cmd_def do_cmd_words line_words_unwords)
  show ?case
    using Cons.IH Cons.prems shell_loop.simps [of E _ cx w]
    by (auto simp: r d map_option_case split: option.splits prod.splits bind_splits)
qed (simp add: shell_loop.simps)

section \<open>Nothing is left open\<close>

lemma strerror_held: "hive_get_strerror T e b n w = Some (r, w') \<Longrightarrow> held w' = held w"
  by (auto simp: hive_get_strerror_def Let_def bind_eq_Some_iff hive_set_error_def split: if_splits prod.splits option.splits)

lemma report_preserves: "preserves good (report T what rc out)"
  by (rule preservesI) (auto simp: report_def reason_def post_def bind_eq_Some_iff dest!: strerror_held)

lemma preserves_then:
  fixes m :: "('s, 'r, 'a) hive_op"
  assumes "preserves good m" "\<And>r. preserves good (f r)"
  shows "preserves good (\<lambda>s w. do { (r, s', w') \<leftarrow> m s w; f r s' w' })"
proof (rule preservesI)
  fix s :: 's and w :: "'r world"
  assume "good s"
  have "post (f r s' w') (\<lambda>(a, s'', w''). good s'' \<and> held w'' = held w)" if "good s'" "held w' = held w" for r s' w'
    by (rule post_call [OF preservesD [OF assms(2) that(1)]]) (use that(2) in auto)
  then show "post (do { (r, s', w') \<leftarrow> m s w; f r s' w' }) (\<lambda>(a, s', w'). good s' \<and> held w' = held w)"
    by (intro hive_post post_call [OF preservesD [OF assms(1) \<open>good s\<close>]]) auto
qed

lemma preserves_if:
  "(b \<Longrightarrow> preserves good f) \<Longrightarrow> (\<not> b \<Longrightarrow> preserves good g) \<Longrightarrow> preserves good (\<lambda>s w. if b then f s w else g s w)"
  by (cases b) simp_all

lemma preserves_alloc:
  fixes f :: "bool \<Rightarrow> ('s, 'r, 'a) hive_op"
  assumes "\<And>ok. preserves good (f ok)"
  shows "preserves good (\<lambda>s w. let (ok, w') = c_alloc w in f ok s w')"
proof (rule preservesI)
  fix s :: 's and w :: "'r world"
  assume "good s"
  obtain ok w' where "c_alloc w = (ok, w')" by fastforce
  then show "post (let (ok, w') = c_alloc w in f ok s w') (\<lambda>(a, s', w'). good s' \<and> held w' = held w)"
    using preservesD [OF assms \<open>good s\<close>, of ok w'] c_alloc_held [of w ok w'] by simp
qed

lemma preserves_then2:
  fixes m :: "('s, 'r, 'a \<times> 'b) hive_op"
  assumes "preserves good m" "\<And>a b. preserves good (f a b)"
  shows "preserves good (\<lambda>s w. do { ((a, b), s', w') \<leftarrow> m s w; f a b s' w' })"
  using preserves_then [OF assms(1), of "\<lambda>r. f (fst r) (snd r)"] assms(2) unfolding case_prod_unfold by simp

lemma preserves_let3:
  "(\<And>a b c. preserves good (f a b c)) \<Longrightarrow> preserves good (\<lambda>s w. let (a, b, c) = x in f a b c s w)"
  by (cases x) simp

lemma preserves_need:
  fixes f :: "'a \<Rightarrow> ('s, 'r, 'b) hive_op"
  shows "(\<And>x. preserves good (f x)) \<Longrightarrow> preserves good (\<lambda>s w. do { x \<leftarrow> v; f x s w })"
  by (cases v) (simp_all add: preserves_def post_None)

lemmas hive_op_rules = preserves_need preserves_then preserves_then2 preserves_if preserves_alloc preserves_let3 preserves_return
  report_preserves

lemma preserves_pass: "preserves good m \<Longrightarrow> preserves good (\<lambda>s w. do { r \<leftarrow> m s w; ipfs_put_result what r })"
  by (rule preservesI, intro hive_post, rule post_call [OF preservesD], assumption+)
    (auto simp: ipfs_put_result_def post_def bind_eq_Some_iff split: if_splits)

text \<open>On a table that keeps its contract, so do the operations of both tables of the program.\<close>

lemma ops_preserve:
  fixes V :: "('s, 'r, string option) HiveConnect"
  assumes "backend V good"
  shows "preserves good (ops_put_file ops V fr fn)" "preserves good (ops_put_file_from_buffer ops V buf fn)"
    "preserves good (ops_get_file_length ops V nm)" "preserves good (ops_get_file ops V nm to)"
    "preserves good (ops_get_file_to_buffer ops V nm len)"
proof -
  note calls = backend.calls [OF assms] and files = backend.file_calls [OF assms] backend.download_calls [OF assms]
  have general: "ops_put_file general_ops V fr fn = (\<lambda>s w. do { (rc, s', w') \<leftarrow> hive_put_file (Some V) (Some fr) True fn s w;
      Some ((rc, []), s', w') })"
    "ops_put_file_from_buffer general_ops V buf fn = (\<lambda>s w. do {
      (rc, s', w') \<leftarrow> hive_put_file_from_buffer (Some V) (Some buf) (length buf) True fn s w; Some ((rc, []), s', w') })"
    by (intro ext; simp)+
  have ipfs: "ops_put_file ipfs_ops V fr fn = (\<lambda>s w. do { r \<leftarrow> hive_ipfs_put_file (Some V) (Some fr) True True s w; ipfs_put_result [] r })"
    "ops_put_file_from_buffer ipfs_ops V buf fn = (\<lambda>s w. do {
      r \<leftarrow> hive_ipfs_put_file_from_buffer (Some V) (Some buf) (length buf) True True s w; ipfs_put_result '' from buffer'' r })"
    by (intro ext; simp)+
  show "preserves good (ops_put_file ops V fr fn)"
    by (cases ops) (simp_all only: general ipfs preserves_then preserves_return preserves_pass files)
  show "preserves good (ops_put_file_from_buffer ops V buf fn)"
    by (cases ops) (simp_all only: general ipfs preserves_then preserves_return preserves_pass calls)
  show "preserves good (ops_get_file_length ops V nm)" "preserves good (ops_get_file ops V nm to)"
    "preserves good (ops_get_file_to_buffer ops V nm len)"
    by (cases ops; simp add: calls files)+
qed

text \<open>A handler keeps the connection good, drops it or has none.\<close>

definition keeps_target :: "('s \<Rightarrow> bool) \<Rightarrow> 'r world \<Rightarrow> string \<times> 's option \<times> 'r world \<Rightarrow> bool" where
  "keeps_target good w r \<longleftrightarrow> (case r of (out, s, w') \<Rightarrow> pred_option good s \<and> held w' = held w)"

lemma connected_keeps:
  assumes "preserves good (f ops V)" "good s"
  shows "post (connected valid f (Some (ops, V, s)) w) (keeps_target good w)"
  unfolding connected_def keeps_target_def option.case prod.case
  by (intro hive_post | rule post_call [OF preservesD [OF assms]] | ((use assms(2) in auto)[1]; fail))+

lemma connected_none: "post (connected valid f None w) (keeps_target good w)"
  unfolding connected_def keeps_target_def by (intro hive_post) auto

lemma preserves_supported: "preserves good f \<Longrightarrow> preserves good (supported ops f)"
  by (rule preservesI) (auto simp: supported_def post_def preserves_def)

lemma print_file_preserves:
  fixes V :: "('s, 'r, string option) HiveConnect"
  assumes "backend V good"
  shows "preserves good (print_file T ops V fn)"
proof -
  note p = ops_preserve [OF assms]
  have "preserves good (\<lambda>s w. do {
      buf \<leftarrow> store_at k d (resize_block (heap_junk w (tick w)) m got); Some (h buf, s, w\<lparr>tick := Suc (tick w)\<rparr>) })" for k d m got h
    by (rule preservesI) (auto simp: post_def bind_eq_Some_iff)
  then show ?thesis
    unfolding print_file_def [abs_def]
    by (intro hive_op_rules p | assumption)+
qed

lemma handlers_keep:
  fixes V :: "('s, 'r, string option) HiveConnect"
  assumes "backend V good" "good s"
  shows "post (put_file T argv (Some (ops, V, s)) w) (keeps_target good w)"
    "post (get_length T argv (Some (ops, V, s)) w) (keeps_target good w)"
    "post (get_file T argv (Some (ops, V, s)) w) (keeps_target good w)"
    "post (delete_file T argv (Some (ops, V, s)) w) (keeps_target good w)"
    "post (list_files T argv (Some (ops, V, s)) w) (keeps_target good w)"
    "post (put_value T argv (Some (ops, V, s)) w) (keeps_target good w)"
    "post (set_value T argv (Some (ops, V, s)) w) (keeps_target good w)"
    "post (get_values T argv (Some (ops, V, s)) w) (keeps_target good w)"
    "post (delete_key T argv (Some (ops, V, s)) w) (keeps_target good w)"
  unfolding put_file_def get_length_def get_file_def delete_file_def list_files_def put_value_def set_value_def get_values_def delete_key_def
  by (rule connected_keeps, intro hive_op_rules preserves_supported ops_preserve [OF assms(1)]
      backend.calls [OF assms(1)] print_file_preserves [OF assms(1)], rule assms(2))+

lemma disconnect_keeps:
  fixes V :: "('s, 'r, string option) HiveConnect"
  assumes "backend V good" "good s"
  shows "post (disconnect argv (Some (ops, V, s)) w) (keeps_target good w)"
  using preservesD [OF backend.other_calls(3) [OF assms(1)] assms(2), of w] assms(2)
  by (fastforce simp: disconnect_def keeps_target_def post_def bind_eq_Some_iff)

lemma conn_cmd_keeps:
  fixes V :: "('s, 'r, string option) HiveConnect"
  assumes "backend V good" "good s"
  shows "post (conn_cmd T cb argv (Some (ops, V, s)) w) (keeps_target good w)"
  by (cases cb) (simp_all add: handlers_keep [OF assms] disconnect_keeps [OF assms] post_None)

lemma conn_cmd_none: "post (conn_cmd T cb argv None w) (\<lambda>(out, s, w'). s = None \<and> w' = w)"
  by (cases cb) (auto simp: post_def disconnect_def put_file_def get_length_def get_file_def delete_file_def list_files_def
      put_value_def set_value_def get_values_def delete_key_def connected_def split: if_splits)

text \<open>The connection of the program is one of the two, with its own table of operations.\<close>

definition cx_good :: "('j, 'r) ctx \<Rightarrow> bool" where
  "cx_good cx \<longleftrightarrow>
     (case cx_connect cx of
        None \<Rightarrow> True
      | Some (OneDrive cn) \<Rightarrow> cx_ops cx = Some general_ops \<and> onedrive_good cn cn
      | Some (IPFS cn) \<Rightarrow> cx_ops cx = Some ipfs_ops \<and> ipfs_good (rpc_nodes (ic_rpc cn)) cn)"

definition cx_keeps :: "'r world \<Rightarrow> string \<times> ('j, 'r) ctx \<times> 'r world \<Rightarrow> bool" where
  "cx_keeps w r \<longleftrightarrow> (case r of (out, cx, w') \<Rightarrow> cx_good cx \<and> held w' = held w)"

lemma connect_onedrive_post:
  "post (hive_client_connect X ip cl (Some (OneDrive_options opts)) w) (\<lambda>(c, w'). held w' = held w \<and>
      (\<forall>k. c = Some k \<longrightarrow> (\<exists>cn. k = OneDrive cn \<and> onedrive_good cn cn)))"
  by (rule postI) (auto simp: hive_client_connect_def bind_eq_Some_iff onedrive_good_def same_config_def hive_set_error_def
      dest!: postD [OF connect_keeps] split: option.splits if_splits)

lemma connect_ipfs_post:
  "post (hive_client_connect X ip cl (Some (IPFS_options opts)) w) (\<lambda>(c, w'). held w' = held w \<and>
      (\<forall>k. c = Some k \<longrightarrow> (\<exists>cn. k = IPFS cn \<and> ipfs_good (rpc_nodes (ic_rpc cn)) cn)))"
  by (rule postI) (auto simp: hive_client_connect_def bind_eq_Some_iff ipfs_good_def hive_set_error_def
      dest!: postD [OF connect_post] split: option.splits if_splits)

lemma client_connect_keeps:
  assumes "cx_good cx"
  shows "post (client_connect E argv cx w) (cx_keeps w)"
  by (rule postI) (use assms in \<open>auto simp: client_connect_def cx_keeps_def cx_good_def bind_eq_Some_iff Let_def
      dest!: c_alloc_held postD [OF connect_onedrive_post] postD [OF connect_ipfs_post] split: prod.splits if_splits\<close>)

lemma run_cmd_keeps:
  assumes "cx_good cx"
  shows "post (run_cmd E cb argv cx w) (cx_keeps w)"
proof -
  have od: "post (conn_cmd T cb argv (Some (general_ops, onedrive_methods (se_ext E), cn)) w)
      (\<lambda>r. keeps_target (\<lambda>cn. onedrive_good cn cn) w r)"
    if "onedrive_good cn cn" for cn T cb
    by (rule post_call [OF conn_cmd_keeps [OF onedrive.backend_axioms that]])
      (auto simp: keeps_target_def onedrive_good_def same_config_def pred_option_def)
  have ip: "post (conn_cmd T cb argv (Some (ipfs_ops, ipfs_methods (se_ext E), cn)) w)
      (\<lambda>r. keeps_target (\<lambda>cn. ipfs_good (rpc_nodes (ic_rpc cn)) cn) w r)"
    if "ipfs_good (rpc_nodes (ic_rpc cn)) cn" for cn T cb
    by (rule post_call [OF conn_cmd_keeps [OF ipfs.backend_axioms that]])
      (auto simp: keeps_target_def ipfs_good_def pred_option_def)
  have on_conn: "post (case cx_connect cx of
        None \<Rightarrow> do { (out, _, w') \<leftarrow> conn_cmd T cb argv (None :: (unit, _) target) w; Some (out, cx, w') }
      | Some (OneDrive cn) \<Rightarrow> do {
          ops \<leftarrow> cx_ops cx;
          (out, s, w') \<leftarrow> conn_cmd T cb argv (Some (ops, onedrive_methods (se_ext E), cn)) w;
          Some (out, cx\<lparr>cx_connect := map_option OneDrive s\<rparr>, w') }
      | Some (IPFS cn) \<Rightarrow> do {
          ops \<leftarrow> cx_ops cx;
          (out, s, w') \<leftarrow> conn_cmd T cb argv (Some (ops, ipfs_methods (se_ext E), cn)) w;
          Some (out, cx\<lparr>cx_connect := map_option IPFS s\<rparr>, w') }) (cx_keeps w)" for T cb
  proof (cases "cx_connect cx")
    case None
    then show ?thesis
      using assms by simp (intro hive_post post_call [OF conn_cmd_none]; auto simp: cx_keeps_def)
  next
    case (Some c)
    then show ?thesis
    proof (cases c)
      case (OneDrive cn)
      with Some assms have g: "cx_ops cx = Some general_ops" "onedrive_good cn cn" by (simp_all add: cx_good_def)
      show ?thesis
        unfolding Some OneDrive g(1) option.case connection.case Option.bind.bind_lunit
        by (intro hive_post post_call [OF od [OF g(2)]])
          (use g(1) in \<open>auto simp: cx_keeps_def cx_good_def keeps_target_def split: option.splits\<close>)
    next
      case (IPFS cn)
      with Some assms have g: "cx_ops cx = Some ipfs_ops" "ipfs_good (rpc_nodes (ic_rpc cn)) cn" by (simp_all add: cx_good_def)
      show ?thesis
        unfolding Some IPFS g(1) option.case connection.case Option.bind.bind_lunit
        by (intro hive_post post_call [OF ip [OF g(2)]])
          (use g(1) in \<open>auto simp: cx_keeps_def cx_good_def keeps_target_def split: option.splits\<close>)
    qed
  qed
  have simple: "cx_keeps w (out, cx, w)" "cx_keeps w (out, cx\<lparr>cx_stop := True\<rparr>, w)" for out
    using assms by (simp_all add: cx_keeps_def cx_good_def split: option.splits connection.splits)
  show ?thesis
    by (cases cb) (simp_all only: run_cmd_def Let_def cmd_cb.case on_conn client_connect_keeps [OF assms] post_Some simple)
qed

lemma do_cmd_keeps:
  assumes "cx_good cx"
  shows "post (do_cmd E line cx w) (cx_keeps w)"
  unfolding do_cmd_def
  by (intro hive_post run_cmd_keeps assms | rule postI | ((use assms in \<open>auto simp: cx_keeps_def\<close>)[1]; fail))+

lemma shell_loop_keeps: "cx_good cx \<Longrightarrow> post (shell_loop E input cx w) (cx_keeps w)"
proof (induction E input cx w rule: shell_loop.induct)
  case (1 E input cx w)
  have "post (shell_loop E rest cx1 w1) (cx_keeps w1)"
    if "read_cmd [] input = Some (Some cmd, out, rest)" "do_cmd E cmd cx w = Some (out1, cx1, w1)" "\<not> cx_stop cx1"
      "cx_good cx1" for cmd out rest out1 cx1 w1
    using 1(1) [OF that(1) _ refl refl that(2) refl refl that(3,4)] by simp
  note loop = this and cmd = do_cmd_keeps [OF 1(2)]
  show ?case
    unfolding shell_loop.simps [of E input cx w]
    by (intro hive_post
        | (use 1(2) in \<open>fastforce simp: cx_keeps_def post_def dest: postD [OF loop] postD [OF cmd]\<close>)[1])+
qed

lemma deinit_keeps:
  assumes "cx_good cx"
  shows "post (deinit E cx w) (\<lambda>w'. held w' = held w)"
  using assms unfolding deinit_def cx_good_def
  by (intro hive_post
      | (auto simp: post_def bind_eq_Some_iff dest!: preserves_result [OF onedrive.other_calls(3)]
           preserves_result [OF ipfs.other_calls(3)] split: connection.splits)[1])+

lemma client_new_held: "hive_client_new opts w = (c, w') \<Longrightarrow> held w' = held w"
  by (auto simp: hive_client_new_def Let_def fs_live hive_set_error_def dest!: mkdirs_live c_alloc_held
      split: option.splits prod.splits if_splits)

lemma mkdir_held: "c_mkdir p w = (rc, w') \<Longrightarrow> held w' = held w"
  by (simp add: fs_live)

lemma hivecmd_post:
  "post (hivecmd E L home cwd path input w) (\<lambda>(rc, out, w'). held w' = held w \<and> rc \<in> {0, -1} \<and> (rc = -1 \<longrightarrow> out = []))"
  unfolding hivecmd_def
  by (intro hive_post | rule post_call [OF load_config_held] | rule post_call [OF shell_loop_keeps]
      | rule post_call [OF deinit_keeps] | rule postI
      | ((auto simp: fs_live cx_good_def cx_keeps_def dest!: mkdir_held client_new_held)[1]; fail))+

text \<open>C35: Whatever is given to the command-line client as arguments and typed at it, on whatever
  configuration file, against whatever servers: when the program ends it has closed every HTTP
  client and descriptor it opened, its exit status is 0 or -1, and with -1 it has printed nothing
  but the usage or the text for a debugger.\<close>

theorem hivecmd_balanced:
  assumes "cmd_main E L P argv input w = Some (rc, out, w')"
  shows "held w' = held w \<and> rc \<in> {0, -1} \<and> (rc = -1 \<longrightarrow> out \<in> {[], cmd_usage, debug_text (p_pid P)})"
proof -
  have "post (cmd_main E L P argv input w)
      (\<lambda>(rc, out, w'). held w' = held w \<and> rc \<in> {0, -1} \<and> (rc = -1 \<longrightarrow> out \<in> {[], cmd_usage, debug_text (p_pid P)}))"
    unfolding cmd_main_def
    by (intro hive_post | rule post_call [OF hivecmd_post] | rule postI | (auto; fail))+
  from postD [OF this assms] show ?thesis by simp
qed

section \<open>The command line\<close>

text \<open>However the option is spelled, the file it names is the configuration file, and a name that does not
  fit into the array is copied past its end.\<close>

lemma cmd_option:
  assumes "sp \<in> set (spellings CHR ''c'' ''config'' path)" and "path \<noteq> []"
  shows "cmd_main E L P (program # sp) input w = (if length path < 2048 then hivecmd E L (p_home P) (p_cwd P) path input w else None)"
proof -
  have o: "short_option cmd_shortopts CHR ''c'' = Some True"
    "long_option_of cmd_longopts ''config'' = Some (''config'', True, opt_char CHR ''c'')"
    by (simp_all add: cmd_shortopts_def cmd_longopts_def long_option_of_def)
  show ?thesis
    using spelled [OF o _ _ _ assms(2,1), of "[]"] assms(2)
    by (simp add: cmd_main_def config_path_def case_prod_unfold)
qed

section \<open>What IPFS does not offer\<close>

definition ipfs_lacks :: "(cmd_cb \<times> nat) list" where
  "ipfs_lacks = [(cb_delete_file, 2), (cb_list_files, 1), (cb_put_value, 3), (cb_set_value, 3), (cb_get_values, 2),
     (cb_delete_key, 2)]"

text \<open>On an IPFS connection the commands for keys, listings and deletion answer that the operation
  is not supported, or that the syntax is wrong when the number of words is, and change nothing.\<close>

theorem ipfs_unsupported:
  assumes "cx_connect cx = Some (IPFS cn)" and "cx_ops cx = Some ipfs_ops" and "(cb, n) \<in> set ipfs_lacks"
  shows "run_cmd E cb argv cx w = Some (console (if length argv = n
    then ''Error: HiveConnect instance does not support this operation.'' else ''Error: invalid command syntax.''), cx, w)"
proof -
  have cx: "cx\<lparr>cx_connect := Some (IPFS cn)\<rparr> = cx" using assms(1) by (cases cx) simp
  show ?thesis
    using assms
    by (auto simp: ipfs_lacks_def run_cmd_def Let_def delete_file_def list_files_def put_value_def set_value_def
        get_values_def delete_key_def connected_def supported_def cx)
qed

section \<open>Examples\<close>

definition sample_shell :: "(json, unit) shell_env" where
  "sample_shell = \<lparr>se_ext = fixed_status 200, se_inet_pton = sample_pton, se_strerror = [],
     se_net = sample_net True, se_thread_rc = 0, se_system = (\<lambda>_ r. ([], r))\<rparr>"

definition idle_ctx :: "(json, unit) ctx" where
  "idle_ctx = \<lparr>cx_nodes = [], cx_client = Some ''d'', cx_connect = None, cx_ops = None, cx_stop = False\<rparr>"

lemma typed_line_roundtrip_witness:
  "read_cmd [] (''put_val k v'' @ LF # ''exit'') = Some (Some ''put_val k v'', [], ''exit'')
     \<and> split_line [] False ''put_val k v'' = Some [''put_val'', ''k'', ''v'']"
  using typed_line_roundtrip [of "[''put_val'', ''k'', ''v'']" "''exit''"]
  by (simp add: typed_word_def c_isprint_def c_isspace_def)

lemma shell_runs_session_witness:
  "\<exists>cx. shell_loop sample_shell (''ls'' @ [LF] @ ''exit'' @ [LF] @ ''ls'' @ [LF]) idle_ctx (calm_world ())
     = Some (console ''Error: No HiveConnect instance created.'' @ prompt, cx, calm_world ()) \<and> cx_stop cx"
  using shell_runs_session [of "[[''ls''], [''exit''], [''ls'']]" sample_shell idle_ctx "calm_world ()"]
  by (simp add: typed_cmd_def typed_word_def c_isprint_def c_isspace_def command_def commands_def run_cmd_def
      idle_ctx_def list_files_def connected_def Let_def)

lemma ipfs_unsupported_witness:
  "\<exists>cn w. ipfs_client_connect (node_server (\<lambda>_. True)) sample_pton sample_ipfs_options (calm_world ()) = Some (Some cn, w)
     \<and> (let cx = idle_ctx\<lparr>cx_connect := Some (IPFS cn), cx_ops := Some ipfs_ops\<rparr> in
          run_cmd sample_shell cb_list_files [''ls''] cx w
            = Some (console ''Error: HiveConnect instance does not support this operation.'', cx, w))"
proof -
  obtain cn w where c: "ipfs_client_connect (node_server (\<lambda>_. True)) sample_pton sample_ipfs_options (calm_world ())
      = Some (Some cn, w)"
    using sample_ipfs_connects by blast
  from ipfs_unsupported [of "idle_ctx\<lparr>cx_connect := Some (IPFS cn), cx_ops := Some ipfs_ops\<rparr>" cn cb_list_files 1
      sample_shell "[''ls'']" w] c
  show ?thesis by (auto simp: ipfs_lacks_def Let_def)
qed

definition config_world :: "unit world" where
  "config_world = put_node [''etc'', ''data''] Dir (put_node [''etc'', ''hive.conf''] (File []) (calm_world ()))"

definition sample_process :: process where
  "sample_process = \<lparr>p_home = None, p_cwd = ''/'', p_pid = 1, p_realpath = Some\<rparr>"

lemma hivecmd_balanced_witness:
  "\<exists>w'. cmd_main sample_shell (sample_libconfig sample_setting) sample_process [''hivecmd'', ''-c'', ''/etc/hive.conf'']
      (''ls'' @ [LF] @ ''exit'' @ [LF]) config_world
     = Some (0, prompt @ console ''Error: No HiveConnect instance created.'' @ prompt, w') \<and> held w' = (0, 0)"
proof -
  have w: "faults config_world = []" "held config_world = (0, 0)"
    "node_at config_world (path_key ''/etc/hive.conf'') = Some (File [])"
    "node_at config_world (path_key ''/etc/data'') = Some Dir"
    "node_at (config_world\<lparr>errno := e\<rparr>) (path_key ''/etc/data'') = Some Dir" for e
    by (simp_all add: config_world_def put_node_def node_at_def path_key_def)
  have q: "qualified_path None ''/'' ''data'' (Some ''/etc/hive.conf'') = Some ''/etc/data''"
    by (simp add: qualified_path_def dir_part_def PATH_MAX_def)
  have "\<exists>c. load_config (sample_libconfig sample_setting) None ''/'' ''/etc/hive.conf'' config_world = Some (Some c, config_world)
      \<and> cfg_data_location c = Some ''/etc/data''"
    using w(1) q by (simp add: load_config_def sample_libconfig_def sample_setting_def load_node_calm string_option_calm
        setting_node_def has_address_def c_strdup_def libc_defs)
  then obtain c where c: "load_config (sample_libconfig sample_setting) None ''/'' ''/etc/hive.conf'' config_world
      = Some (Some c, config_world)" "cfg_data_location c = Some ''/etc/data''" by blast
  have "shell_loop sample_shell (''ls'' @ [LF] @ ''exit'' @ [LF]) cx v
      = Some (console ''Error: No HiveConnect instance created.'' @ prompt, cx\<lparr>cx_stop := True\<rparr>, v)"
    if "cx_connect cx = None" "\<not> cx_stop cx" for cx v
    using that by (simp add: shell_loop.simps [of sample_shell] c_isprint_def do_cmd_words trim_line_def c_isspace_def
        command_def commands_def run_cmd_def list_files_def connected_def Let_def)
  with w c have "\<exists>w'. cmd_main sample_shell (sample_libconfig sample_setting) sample_process [''hivecmd'', ''-c'', ''/etc/hive.conf'']
      (''ls'' @ [LF] @ ''exit'' @ [LF]) config_world
     = Some (0, prompt @ console ''Error: No HiveConnect instance created.'' @ prompt, w')"
    by (simp add: cmd_option [of "[''-c'', ''/etc/hive.conf'']" "''/etc/hive.conf''", simplified spellings_def, simplified] sample_process_def hivecmd_def libc_defs hive_client_new_def null_or_empty_def deinit_def)
  then show ?thesis using hivecmd_balanced w(2) by fastforce
qed

end
