(* ===== verification/Hive_Prober.thy ===== *)
theory Hive_Prober
  imports Hive_Ipfs_Rpc Hive_Cmd
begin

text \<open>
  The prober (\<open>src/apps/prober/prober.c\<close>), which asks a list of IPFS nodes for their version:
  \<open>probe\<close>, and \<open>main\<close> with its command line.  Standard output is a string; reading
  the file of nodes does not fail once it is open.
\<close>

section \<open>One node\<close>

definition printed_line :: "string \<Rightarrow> string" where
  "printed_line s = s @ [LF]"

text \<open>\<open>url\<close> is an array of 1024 bytes, into which \<open>snprintf\<close> writes as much as fits.\<close>

definition probe_url :: "string \<Rightarrow> bool \<Rightarrow> string" where
  "probe_url node port = snd (c_snprintf 1024 (''http://'' @ node @ (if port then '':9095'' else []) @ ''/version''))"

definition set_probe_url :: "('j, 'r) ext \<Rightarrow> http_client \<Rightarrow> string \<Rightarrow> (int \<times> http_client) option" where
  "set_probe_url X c node = do {
     (rc, c1) \<leftarrow> http_client_set_url X c (probe_url node True);
     if rc \<noteq> 0 then http_client_set_url X c1 (probe_url node False) else Some (rc, c1)
   }"

definition probe :: "('j, 'r) ext \<Rightarrow> string \<Rightarrow> 'r world \<Rightarrow> (string \<times> 'r world) option" where
  "probe X node w =
     (let say = (\<lambda>s. ''probing '' @ node @ ''...'' @ printed_line s) in
      case http_client_new X w of
        (None, w1) \<Rightarrow> Some (say ''internal error.'', w1)
      | (Some c, w1) \<Rightarrow> do {
          (rc, c1) \<leftarrow> set_probe_url X c node;
          if rc \<noteq> 0 then Some (say ''invalid node address.'', w1)
          else do {
            let (_, c2) = http_client_set_method X c1 HTTP_METHOD_POST;
            (_, c3) \<leftarrow> http_client_set_timeout X (http_client_set_request_body_instant c2 None 0) 5;
            (rc, c4, w2) \<leftarrow> http_client_request X c3 w1;
            if rc \<noteq> 0 then Some (say ''unreachable.'', w2)
            else (case http_client_get_response_code c4 of (rc, resp) \<Rightarrow>
              let w3 = http_client_close w2 in
              Some (say (if rc \<noteq> 0 then ''unreachable.''
                         else if resp_code_of resp \<noteq> HttpStatus_OK then ''unreachable.'' else ''ok.''), w3))
          }
        })"

section \<open>All nodes\<close>

text \<open>The loop over the arguments.\<close>

fun probe_args :: "('j, 'r) ext \<Rightarrow> string list \<Rightarrow> 'r world \<Rightarrow> (string \<times> 'r world) option" where
  "probe_args X [] w = Some ([], w)"
| "probe_args X (node # nodes) w = do {
     (out, w1) \<leftarrow> probe X node w;
     (out', w2) \<leftarrow> probe_args X nodes w1;
     Some (out @ out', w2)
   }"

text \<open>The loop over the words of the file; \<open>node\<close> is an array of 256 bytes, and a word is read as a C
  string.\<close>

fun probe_words :: "('j, 'r) ext \<Rightarrow> string list \<Rightarrow> 'r world \<Rightarrow> (string \<times> 'r world) option" where
  "probe_words X [] w = Some ([], w)"
| "probe_words X (word # words) w =
     (if 256 \<le> length word then None
      else do {
        (out, w1) \<leftarrow> probe X (takeWhile (\<lambda>c. c \<noteq> NUL) word) w;
        (out', w2) \<leftarrow> probe_words X words w1;
        Some (out @ out', w2)
      })"

text \<open>\<open>main\<close> behind the options: the nodes of the command line, then those of the file.\<close>

definition probe_all :: "('j, 'r) ext \<Rightarrow> string \<Rightarrow> string list \<Rightarrow> 'r world \<Rightarrow> (int \<times> string \<times> 'r world) option" where
  "probe_all X file args w = do {
     (out, w1) \<leftarrow> probe_args X args w;
     if file = [] then Some (0, out, w1)
     else (case c_open file RDONLY w1 of
       (None, w2) \<Rightarrow> Some (0, out @ printed_line (''cannot open file ('' @ file @ '').''), w2)
     | (Some fd, w2) \<Rightarrow> (case node_at w2 fd of
         Some (File d) \<Rightarrow> do {
           (out', w3) \<leftarrow> probe_words X (line_words d) w2;
           Some (0, out @ out', c_close fd w3)
         }
       | _ \<Rightarrow> Some (0, out, c_close fd w2)))
   }"

definition prober_shortopts :: string where
  "prober_shortopts = ''f:h?''"

definition prober_longopts :: "long_option list" where
  "prober_longopts = [(''file'', True, opt_char CHR ''f''), (''debug'', False, 2), (''help'', False, opt_char CHR ''h'')]"

definition prober_usage :: string where
  "prober_usage = concat (map printed_line
     [''prober, a utility detecting connectivity of IPFS nodes.'', ''Usage: prober [OPTION]... [NODE_IP[:NODE_PORT]] ...'',
      ''Description: prober tests connectivity of each IPFS nodes provided as command line arguments and nodes listed in the file ''
        @ ''specified by -f option. Node address takes the form NODE_IP[:NODE_PORT] where node port can be omitted to take the ''
        @ ''default port 9095.'',
      ''First run options:'',
      ''  -f, --file=FILE_PATH          File containing addresses of nodes to be tested.''
        @ '' Nodes are separated by whitespaces or newlines.'',
      [], ''Debugging options:'', ''      --debug                   Wait for debugger attach after start.'', []])"

definition prober :: "('j, 'r) ext \<Rightarrow> process \<Rightarrow> string list \<Rightarrow> 'r world \<Rightarrow> (int \<times> string \<times> 'r world) option" where
  "prober X P argv w =
     (case getopt_long prober_shortopts prober_longopts (tl argv) of (vals, nodes) \<Rightarrow> do {
        opts \<leftarrow> option_loop (opt_char CHR ''f'') vals [] False;
        case opts of
          None \<Rightarrow> Some (-1, prober_usage, w)
        | Some (file, wait) \<Rightarrow> do {
            (rc, out, w1) \<leftarrow> probe_all X file nodes w;
            Some (rc, (if wait then debug_text (p_pid P) else []) @ out, w1)
          }
      })"

section \<open>What is printed, and what is leaked\<close>

text \<open>The servers of the network, by the URL of the request.\<close>

definition answered_by :: "('j, 'r) ext \<Rightarrow> (string \<Rightarrow> transfer) \<Rightarrow> bool" where
  "answered_by X T \<longleftrightarrow> (\<forall>us u. curl_url_set_rc X us u = 0) \<and>
     (\<forall>os us r. fst (curl_perform X os us r) = T (url_of us))"

definition node_answer :: "(string \<Rightarrow> transfer) \<Rightarrow> string \<Rightarrow> transfer" where
  "node_answer T node = T (probe_url node True)"

definition node_ok :: "(string \<Rightarrow> transfer) \<Rightarrow> string \<Rightarrow> bool" where
  "node_ok T node \<longleftrightarrow> (let t = node_answer T node in t_code t = 0 \<and> t_info t = 0 \<and> t_status t = HttpStatus_OK)"

definition probe_report :: "(string \<Rightarrow> transfer) \<Rightarrow> string \<Rightarrow> string" where
  "probe_report T node = ''probing '' @ node @ ''...'' @ (if node_ok T node then ''ok.'' else ''unreachable.'') @ [LF]"

lemma probe_answer:
  assumes "answered_by X T" and "network_up w"
  shows "\<exists>w'. probe X node w = Some (probe_report T node, w') \<and> network_up w' \<and> files w' = files w \<and> open_fds w' = open_fds w
    \<and> live_http w' = live_http w + (if t_code (node_answer T node) \<noteq> 0 then 1 else 0)"
proof -
  have new: "http_client_new X w = (Some fresh_client, w\<lparr>live_http := live_http w + 1\<rparr>)"
    using assms(2) by (cases w) (simp add: network_up_def http_client_new_def c_alloc_def take_fault_def)
  have url: "set_probe_url X fresh_client node
      = Some (0, fresh_client\<lparr>hc_url := [Url_set CURLUPART_URL (Some (probe_url node True)) True False]\<rparr>)"
    using assms(1) by (simp add: set_probe_url_def http_client_set_url_def curl_url_set_def answered_by_def fresh_client_def
        probe_url_def c_snprintf_def)
  let ?us = "[Url_set CURLUPART_URL (Some (probe_url node True)) True False]" and ?t = "node_answer T node"
  have perform: "fst (curl_perform X os ?us r) = ?t" for os r
    using assms(1) by (simp add: answered_by_def node_answer_def url_of_def)
  have request: "http_client_request X c v = Some (t_code ?t, c\<lparr>hc_info := (t_info ?t, t_status ?t)\<rparr>,
      v\<lparr>remote := snd (curl_perform X (hc_opts c) ?us (remote v))\<rparr>)"
    if "hc_hdr c = []" "hc_mime c = None" "write_fn_of (hc_opts c) = Eat_output" "hc_url c = ?us"
    for c and v :: "'b world"
    using that perform by (simp add: http_client_request_def prepare_request_def feed_eat case_prod_unfold)
  show ?thesis
    using assms(2)
    by (auto simp: probe_def new url [unfolded fresh_client_def base_opts_def] http_client_set_method_def http_client_set_timeout_def fresh_client_def base_opts_def
        http_client_set_request_body_instant_def setopt_def request write_fn_of_def http_client_get_response_code_def
        http_client_close_def network_up_def probe_report_def node_ok_def printed_line_def resp_code_of_def Let_def hive_const)
qed

lemma probe_args_answer:
  assumes "answered_by X T"
  shows "network_up w \<Longrightarrow> \<exists>w'. probe_args X nodes w = Some (concat (map (probe_report T) nodes), w') \<and> network_up w'
    \<and> files w' = files w \<and> open_fds w' = open_fds w
    \<and> live_http w' = live_http w + int (length (filter (\<lambda>n. t_code (node_answer T n) \<noteq> 0) nodes))"
proof (induction nodes arbitrary: w)
  case (Cons node nodes)
  obtain w1 where w1: "probe X node w = Some (probe_report T node, w1)" "network_up w1" "files w1 = files w"
    "open_fds w1 = open_fds w" "live_http w1 = live_http w + (if t_code (node_answer T node) \<noteq> 0 then 1 else 0)"
    using probe_answer [OF assms Cons.prems] by blast
  show ?case using Cons.IH [OF w1(2)] w1 by auto
qed simp

definition file_node :: "string \<Rightarrow> bool" where
  "file_node word \<longleftrightarrow> NUL \<notin> set word \<and> length word < 256"

text \<open>Nodes on the command line, before and behind the option.\<close>

lemma prober_command_line:
  assumes "list_all operand ns" and "list_all operand ns'" and "sp \<in> set (spellings CHR ''f'' ''file'' file)" and "file \<noteq> []"
  shows "prober X P (program # ns @ sp @ ns') w = (if length file < 2048 then probe_all X file (ns @ ns') w else None)"
proof -
  have o: "short_option prober_shortopts CHR ''f'' = Some True"
    "long_option_of prober_longopts ''file'' = Some (''file'', True, opt_char CHR ''f'')"
    by (simp_all add: prober_shortopts_def prober_longopts_def long_option_of_def)
  have "getopt_long prober_shortopts prober_longopts ns' = ([], ns')"
    using operands [OF assms(2), of prober_shortopts prober_longopts "[]"] by simp
  then have "getopt_long prober_shortopts prober_longopts (ns @ sp @ ns') = ([(opt_char CHR ''f'', Some file)], ns @ ns')"
    using operands [OF assms(1)] spelled [OF o _ _ _ assms(4,3), of ns'] by simp
  then show ?thesis by (simp add: prober_def case_prod_unfold)
qed

lemma probe_words_args: "list_all file_node words \<Longrightarrow> probe_words X words w = probe_args X words w"
proof (induction words arbitrary: w)
  case (Cons word words)
  then have "takeWhile (\<lambda>c. c \<noteq> NUL) word = word" by (auto simp: file_node_def takeWhile_eq_all_conv)
  with Cons show ?case by (simp add: file_node_def)
qed simp


section \<open>Examples\<close>


end
