(* ===== verification/Hive_Sandbird_Multipart.thy ===== *)
theory Hive_Sandbird_Multipart
  imports Hive_Sandbird_Stream
begin

text \<open>
  \<open>sb_get_multipart\<close> of the embedded server (\<open>src/src/sandbird/sandbird.c\<close>).

  A pointer into the receive buffer is an index into its block, \<open>end\<close> the index \<open>buf_len\<close>; what
  lies behind it in the block is whatever was there before.  A result \<open>None\<close> is a read outside the
  block or a header search that never ends; \<open>Some None\<close> is the jump to \<open>fail\<close>.
\<close>

section \<open>Searching\<close>

text \<open>\<open>mem_equal\<close>, which stops at the first difference.\<close>

fun mem_cmp :: "bytes \<Rightarrow> string \<Rightarrow> bool option" where
  "mem_cmp t [] = Some True"
| "mem_cmp [] (c # x) = None"
| "mem_cmp (d # t) (c # x) = (if d = c then mem_cmp t x else Some False)"

lemma mem_cmp_inside: "mem_cmp (drop p t) x = Some False \<Longrightarrow> p < length t"
  by (rule ccontr) (cases x; simp)

text \<open>\<open>P_AFTERL\<close>: the index behind the next occurrence of \<open>x\<close>.\<close>

function after_l :: "sb_Buffer \<Rightarrow> string \<Rightarrow> nat \<Rightarrow> nat option option" where
  "after_l buf x p =
     (if p + length x = buf_len buf then Some None
      else (case mem_cmp (drop p (buf_s buf)) x of
        None \<Rightarrow> None
      | Some True \<Rightarrow> Some (Some (p + length x))
      | Some False \<Rightarrow> after_l buf x (Suc p)))"
  by pat_completeness auto

termination
  by (relation "measure (\<lambda>(buf, x, p). length (buf_s buf) - p)") (auto dest: mem_cmp_inside)

declare after_l.simps [simp del]

lemma after_l_step:
  "p + length x = buf_len buf \<Longrightarrow> after_l buf x p = Some None"
  "p + length x \<noteq> buf_len buf \<Longrightarrow> mem_cmp (drop p (buf_s buf)) x = None \<Longrightarrow> after_l buf x p = None"
  "p + length x \<noteq> buf_len buf \<Longrightarrow> mem_cmp (drop p (buf_s buf)) x = Some True \<Longrightarrow> after_l buf x p = Some (Some (p + length x))"
  "p + length x \<noteq> buf_len buf \<Longrightarrow> mem_cmp (drop p (buf_s buf)) x = Some False \<Longrightarrow> after_l buf x p = after_l buf x (Suc p)"
  using after_l.simps [of buf x p] by simp_all

definition chk :: "'a option option \<Rightarrow> ('a \<Rightarrow> 'b option option) \<Rightarrow> 'b option option" where
  "chk m f = (case m of None \<Rightarrow> None | Some None \<Rightarrow> Some None | Some (Some p) \<Rightarrow> f p)"

text \<open>\<open>find_header_value(p, field)\<close> as an index.\<close>

definition header_at :: "sb_Buffer \<Rightarrow> string \<Rightarrow> nat \<Rightarrow> nat option option" where
  "header_at buf field p = do {
     s \<leftarrow> c_string_in (drop p (buf_s buf));
     v \<leftarrow> find_header_value s field;
     Some (map_option (\<lambda>r. p + (length s - length r)) v)
   }"

section \<open>The parts\<close>

text \<open>From \<open>next\<close> to the start of the name of the next part.\<close>

definition next_part :: "sb_Buffer \<Rightarrow> string \<Rightarrow> nat \<Rightarrow> nat option option" where
  "next_part buf boundary p =
     chk (after_l buf boundary p) (\<lambda>p1.
     chk (after_l buf [CR, LF] p1) (\<lambda>p2.
     chk (header_at buf ''Content-Disposition'' p2) (\<lambda>p3.
     after_l buf (''name='' @ [CHR 0x22]) p3)))"

lemma mem_cmp_length: "mem_cmp t x = Some True \<Longrightarrow> length x \<le> length t"
  by (induction t x rule: mem_cmp.induct) (auto split: if_splits)

lemma after_l_found:
  "after_l buf x p = Some (Some q) \<Longrightarrow> p + length x \<le> q \<and> (x \<noteq> [] \<longrightarrow> q \<le> length (buf_s buf))"
proof (induction buf x p rule: after_l.induct)
  case (1 buf x p)
  then have n: "p + length x \<noteq> buf_len buf" using after_l_step(1) by fastforce
  with 1(2) obtain b where b: "mem_cmp (drop p (buf_s buf)) x = Some b"
    using after_l_step(2) [of p x buf] by fastforce
  show ?case
  proof (cases b)
    case True
    with 1(2) have "q = p + length x" using after_l_step(3) [OF n] b by simp
    with True b mem_cmp_length [of "drop p (buf_s buf)" x] show ?thesis by (cases x) auto
  next
    case False
    with 1(2) b have "after_l buf x (Suc p) = Some (Some q)" using after_l_step(4) [OF n] by simp
    with 1(1) [OF n b] False show ?thesis by auto
  qed
qed

lemma chk_found: "chk m f = Some (Some q) \<longleftrightarrow> (\<exists>p. m = Some (Some p) \<and> f p = Some (Some q))"
  by (auto simp: chk_def split: option.splits)

lemma next_part_advances:
  assumes "next_part buf boundary p = Some (Some q)"
  shows "p < q \<and> q \<le> length (buf_s buf)"
proof -
  obtain p1 p2 p3 where "after_l buf boundary p = Some (Some p1)" "after_l buf [CR, LF] p1 = Some (Some p2)"
    "header_at buf ''Content-Disposition'' p2 = Some (Some p3)" "after_l buf (''name='' @ [CHR 0x22]) p3 = Some (Some q)"
    using assms by (auto simp: next_part_def chk_found)
  moreover from this(3) have "p2 \<le> p3" by (auto simp: header_at_def bind_eq_Some_iff)
  ultimately show ?thesis
    using after_l_found [of buf boundary p p1] after_l_found [of buf "[CR, LF]" p1 p2]
      after_l_found [of buf "''name='' @ [CHR 0x22]" p3 q] by auto
qed

function parts_loop :: "sb_Buffer \<Rightarrow> string \<Rightarrow> string \<Rightarrow> nat \<Rightarrow> (nat \<times> u64) option option" where
  "parts_loop buf boundary name p =
     (case next_part buf boundary p of
        None \<Rightarrow> None
      | Some None \<Rightarrow> Some None
      | Some (Some q) \<Rightarrow>
          (case mem_cmp (drop q (buf_s buf)) (name @ [CHR 0x22]) of
             None \<Rightarrow> None
           | Some False \<Rightarrow> parts_loop buf boundary name q
           | Some True \<Rightarrow>
               chk (after_l buf [CR, LF, CR, LF] q) (\<lambda>res.
               chk (after_l buf boundary res) (\<lambda>r.
               Some (Some (res, of_nat r - of_nat res - of_nat (length boundary) - 4))))))"
  by pat_completeness auto

termination
  by (relation "measure (\<lambda>(buf, boundary, name, p). length (buf_s buf) - p)")
    (auto dest!: next_part_advances)

declare parts_loop.simps [simp del]

definition sb_get_multipart :: "sb_Buffer \<Rightarrow> string \<Rightarrow> (nat \<times> u64) option option" where
  "sb_get_multipart buf name =
     chk (header_at buf ''Content-Type'' 0) (\<lambda>p.
     chk (after_l buf ''boundary='' p) (\<lambda>b.
     chk (after_l buf [CR, LF] b) (\<lambda>p.
     parts_loop buf (take (p - b - 2) (drop b (buf_s buf))) name p)))"

section \<open>Scanning a well-formed text\<close>

lemma mem_cmp_prefix: "length x \<le> length t \<Longrightarrow> mem_cmp t x = Some (prefix x t)"
  by (induction t x rule: mem_cmp.induct) auto

lemma mem_cmp_append: "mem_cmp (x @ t) x = Some True"
  by (induction x) auto

text \<open>Behind \<open>pre\<close> is the first occurrence of \<open>x\<close>.\<close>

definition first_at :: "string \<Rightarrow> string \<Rightarrow> bool" where
  "first_at x pre \<longleftrightarrow> (\<forall>k < length pre. \<not> prefix x (drop k (pre @ x)))"

lemma first_at_Nil [simp]: "first_at x []"
  by (simp add: first_at_def)

lemma first_at_Cons: "first_at x (c # pre) \<longleftrightarrow> \<not> prefix x (c # pre @ x) \<and> first_at x pre"
  by (auto simp: first_at_def less_Suc_eq_0_disj)

lemma first_at_suffix: "first_at x (u @ v) \<Longrightarrow> first_at x v"
  by (induction u) (auto simp: first_at_Cons)

lemma after_l_first:
  "buf_s buf = a @ pre @ x @ rst \<Longrightarrow> first_at x pre \<Longrightarrow> length a + length pre + length x < buf_len buf \<Longrightarrow>
     after_l buf x (length a) = Some (Some (length a + length pre + length x))"
proof (induction pre arbitrary: a)
  case Nil
  then show ?case using after_l_step(3) [of "length a" x buf] by (simp add: mem_cmp_append)
next
  case (Cons c pre)
  have "prefix x (c # pre @ x @ rst) \<longleftrightarrow> prefix x (c # pre @ x)"
    by (metis append_Cons append_assoc length_append length_Cons add_increasing le_add2 prefix_length_prefix prefixI prefix_order.trans le_SucI)
  then have "mem_cmp (drop (length a) (buf_s buf)) x = Some False"
    using Cons.prems mem_cmp_prefix [of x "c # pre @ x @ rst"] by (simp add: first_at_Cons)
  moreover have "after_l buf x (length (a @ [c])) = Some (Some (length (a @ [c]) + length pre + length x))"
    by (rule Cons.IH) (use Cons.prems in \<open>auto simp: first_at_Cons\<close>)
  ultimately show ?case using after_l_step(4) [of "length a" x buf] Cons.prems(3) by simp
qed

section \<open>Multipart bodies\<close>

abbreviation QUOTE :: char where "QUOTE \<equiv> CHR 0x22"

text \<open>A part is its name, what follows the name up to the empty line, and its data.\<close>

type_synonym part = "string \<times> string \<times> bytes"

fun part_rest :: "part \<Rightarrow> string" where
  "part_rest (nm, extra, dat) = nm @ QUOTE # extra @ [CR, LF, CR, LF] @ dat @ [CR, LF]"

definition part_head :: "string \<Rightarrow> string" where
  "part_head B = ''--'' @ B @ [CR, LF] @ ''Content-Disposition: '' @ ''form-data; '' @ ''name='' @ [QUOTE]"

definition part_text :: "string \<Rightarrow> part \<Rightarrow> string" where
  "part_text B prt = part_head B @ part_rest prt"

definition multipart_body :: "string \<Rightarrow> part list \<Rightarrow> string \<Rightarrow> string" where
  "multipart_body B parts tail = concat (map (part_text B) parts) @ ''--'' @ B @ ''--'' @ tail"

text \<open>The boundary and the empty line occur in a part only where they belong.\<close>

fun good_part :: "string \<Rightarrow> part \<Rightarrow> bool" where
  "good_part B (nm, extra, dat) \<longleftrightarrow> QUOTE \<notin> set nm \<and> first_at [CR, LF, CR, LF] (nm @ QUOTE # extra)
     \<and> first_at B (part_rest (nm, extra, dat) @ ''--'')"

lemma mem_cmp_name:
  "QUOTE \<notin> set nm \<Longrightarrow> QUOTE \<notin> set name \<Longrightarrow> mem_cmp (nm @ QUOTE # t) (name @ [QUOTE]) = Some (nm = name)"
proof (induction nm arbitrary: name)
  case Nil
  then show ?case by (cases name) auto
next
  case (Cons c nm)
  then show ?case by (cases name) auto
qed

lemma disposition_at:
  assumes "buf_s buf = a @ ''Content-Disposition: '' @ ''form-data; '' @ rest" and "NUL \<in> set rest"
  shows "header_at buf ''Content-Disposition'' (length a) = Some (Some (length a + 21))"
proof -
  define z where "z = takeWhile (\<lambda>c. c \<noteq> NUL) rest"
  have s: "c_string_in (drop (length a) (buf_s buf)) = Some (''Content-Disposition: '' @ ''form-data; '' @ z)"
    using assms by (simp add: c_string_in_def z_def)
  have "find_header_value (''Content-Disposition: '' @ ''form-data; '' @ z) ''Content-Disposition'' = Some (Some (''form-data; '' @ z))"
    by (subst find_header_value.simps) (simp add: mem_equal_def mem_case_equal_def str_from_def)
  with s show ?thesis by (simp add: header_at_def)
qed

lemma after_l_skip:
  assumes "buf_s buf = a @ pre @ x @ rst" and "first_at x pre" and "length a + length pre + length x < buf_len buf"
    and "p = length a" and "q = length (a @ pre @ x)"
  shows "after_l buf x p = Some (Some q)"
  using after_l_first [OF assms(1-3)] assms(4,5) by simp

lemma first_at_name: "first_at (''name='' @ [QUOTE]) ''form-data; ''"
  by (simp add: first_at_Cons)

lemma next_part_spec:
  assumes "buf_s buf = a @ skip @ part_head B @ rst" and "first_at B (skip @ ''--'')" and "NUL \<in> set rst"
    and "length (a @ skip @ part_head B) < buf_len buf"
  shows "next_part buf B (length a) = Some (Some (length (a @ skip @ part_head B)))"
proof -
  let ?p1 = "a @ skip @ ''--'' @ B" and ?d = "''Content-Disposition: ''" and ?f = "''form-data; ''"
    and ?n = "''name='' @ [QUOTE]"
  note blk = assms(1) [unfolded part_head_def] and len = assms(4) [unfolded part_head_def]
  have s1: "after_l buf B (length a) = Some (Some (length ?p1))"
    by (rule after_l_skip [where a = a and pre = "skip @ ''--''"]) (use blk assms(2) len in auto)
  have s2: "after_l buf [CR, LF] (length ?p1) = Some (Some (length (?p1 @ [CR, LF])))"
    by (rule after_l_skip [where a = ?p1 and pre = "[]"]) (use blk len in auto)
  have s3: "header_at buf ''Content-Disposition'' (length (?p1 @ [CR, LF])) = Some (Some (length (?p1 @ [CR, LF] @ ?d)))"
    using disposition_at [of buf "?p1 @ [CR, LF]" "?n @ rst"] blk assms(3) by simp
  have s4: "after_l buf ?n (length (?p1 @ [CR, LF] @ ?d)) = Some (Some (length (?p1 @ [CR, LF] @ ?d @ ?f @ ?n)))"
    by (rule after_l_skip [where a = "?p1 @ [CR, LF] @ ?d" and pre = ?f and rst = rst])
      (use blk len first_at_name in auto)
  show ?thesis
    using s1 s2 s3 s4 by (simp add: next_part_def chk_def part_head_def)
qed

lemma take_drop_mid: "t = u @ v @ z \<Longrightarrow> take (length v) (drop (length u) t) = v"
  by simp

lemma after_l_tail:
  assumes "tail = [] \<or> tail = [CR, LF]" and "buf_s buf = b @ ''--'' @ tail @ NUL # junk"
    and "buf_len buf = length b + 2 + length tail"
  shows "after_l buf [CR, LF] (length b) = Some None"
  using assms by (auto simp: after_l.simps [of buf])

lemma parts_loop_spec:
  assumes "list_all (good_part B) parts" and "QUOTE \<notin> set name" and "tail = [] \<or> tail = [CR, LF]"
  shows "buf_s buf = a @ skip @ multipart_body B parts tail @ NUL # junk \<Longrightarrow> first_at B (skip @ ''--'') \<Longrightarrow>
    buf_len buf = length (a @ skip @ multipart_body B parts tail) \<Longrightarrow>
    (case map_of parts name of
       None \<Rightarrow> parts_loop buf B name (length a) = Some None
     | Some (extra, dat) \<Rightarrow> \<exists>i. parts_loop buf B name (length a) = Some (Some (i, of_nat (length dat)))
         \<and> take (length dat) (drop i (buf_s buf)) = dat \<and> i + length dat \<le> buf_len buf)"
  using assms(1)
proof (induction parts arbitrary: a skip)
  case Nil
  let ?p1 = "a @ skip @ ''--'' @ B"
  have s1: "after_l buf B (length a) = Some (Some (length ?p1))"
    by (rule after_l_skip [where a = a and pre = "skip @ ''--''"]) (use Nil in \<open>auto simp: multipart_body_def\<close>)
  have s2: "after_l buf [CR, LF] (length ?p1) = Some None"
    by (rule after_l_tail [OF assms(3)]) (use Nil in \<open>auto simp: multipart_body_def\<close>)
  show ?case using s1 s2 by (simp add: parts_loop.simps [of buf B name "length a"] next_part_def chk_def)
next
  case (Cons prt parts)
  obtain nm extra dat where prt: "prt = (nm, extra, dat)" by (cases prt)
  let ?body = "multipart_body B parts tail" and ?h = "a @ skip @ part_head B"
  have body: "multipart_body B (prt # parts) tail = part_head B @ part_rest prt @ ?body"
    by (simp add: multipart_body_def part_text_def)
  have g: "QUOTE \<notin> set nm" "first_at [CR, LF, CR, LF] (nm @ QUOTE # extra)" "first_at B (part_rest prt @ ''--'')"
    "list_all (good_part B) parts" using Cons.prems(4) prt by simp_all
  have blk: "buf_s buf = ?h @ part_rest prt @ ?body @ NUL # junk" "buf_len buf = length ?h + length (part_rest prt) + length ?body"
    using Cons.prems(1,3) body by simp_all
  have n: "next_part buf B (length a) = Some (Some (length ?h))"
    by (rule next_part_spec [where rst = "part_rest prt @ ?body @ NUL # junk"])
      (use blk Cons.prems(2) prt in \<open>auto simp: multipart_body_def\<close>)
  have m: "mem_cmp (drop (length ?h) (buf_s buf)) (name @ [QUOTE]) = Some (nm = name)"
    using mem_cmp_name [OF g(1) assms(2)] blk(1) prt by simp
  show ?case
  proof (cases "nm = name")
    case True
    let ?res = "?h @ nm @ QUOTE # extra @ [CR, LF, CR, LF]"
    obtain more where more: "?body = ''--'' @ B @ more" "more \<noteq> []"
      by (cases parts) (auto simp: multipart_body_def part_text_def part_head_def)
    have r1: "after_l buf [CR, LF, CR, LF] (length ?h) = Some (Some (length ?res))"
      by (rule after_l_skip [where a = ?h and pre = "nm @ QUOTE # extra"]) (use blk g(2) prt in auto)
    have "first_at B (dat @ [CR, LF] @ ''--'')"
      using first_at_suffix [of B "nm @ QUOTE # extra @ [CR, LF, CR, LF]" "dat @ [CR, LF] @ ''--''"] g(3) prt by simp
    then have r2: "after_l buf B (length ?res) = Some (Some (length (?res @ dat @ [CR, LF] @ ''--'' @ B)))"
      by (intro after_l_skip [where a = ?res and pre = "dat @ [CR, LF] @ ''--''"]) (use blk prt more in auto)
    have "parts_loop buf B name (length a) = Some (Some (length ?res, of_nat (length dat)))"
      using n m r1 r2 True by (simp add: parts_loop.simps [of buf B name "length a"] chk_def)
    moreover have "take (length dat) (drop (length ?res) (buf_s buf)) = dat"
      by (rule take_drop_mid [where z = "[CR, LF] @ ?body @ NUL # junk"]) (use blk(1) prt in simp)
    moreover have "length ?res + length dat \<le> buf_len buf" using blk(2) prt by simp
    ultimately show ?thesis unfolding prt True by (simp del: length_append)
  next
    case False
    have "parts_loop buf B name (length a) = parts_loop buf B name (length ?h)"
      using n m False by (simp add: parts_loop.simps [of buf B name "length a"])
    moreover have "map_of (prt # parts) name = map_of parts name" using False prt by simp
    moreover have "first_at B (part_rest prt @ ''--'')" "buf_s buf = ?h @ part_rest prt @ ?body @ NUL # junk"
      "buf_len buf = length (?h @ part_rest prt @ ?body)" using blk g(3) by simp_all
    ultimately show ?thesis using Cons.IH [of ?h "part_rest prt"] g(4) by presburger
  qed
qed

section \<open>Whole requests\<close>

definition crlf_lines :: "string list \<Rightarrow> string" where
  "crlf_lines ls = concat (map (\<lambda>l. l @ [CR, LF]) ls)"

text \<open>The start of a request up to the line with the boundary.\<close>

definition request_start :: "string list \<Rightarrow> string \<Rightarrow> string" where
  "request_start ls B = crlf_lines ls @ ''Content-Type: '' @ ''multipart/form-data; '' @ ''boundary='' @ B @ [CR, LF]"

definition plain_line :: "string \<Rightarrow> bool" where
  "plain_line l \<longleftrightarrow> l \<noteq> [] \<and> set l \<inter> {CR, NUL} = {} \<and> \<not> header_line l ''Content-Type''"

lemma find_header_value_behind:
  assumes "CR \<notin> set field"
  shows "list_all (\<lambda>l. l \<noteq> [] \<and> CR \<notin> set l \<and> \<not> header_line l field) ls \<Longrightarrow>
    find_header_value (crlf_lines ls @ rest) field = find_header_value rest field"
proof (induction ls)
  case (Cons l ls)
  let ?t = "CR # LF # crlf_lines ls @ rest"
  have "\<not> mem_equal (l @ ?t) [CR, LF]" using Cons.prems by (cases l) (auto simp: mem_equal_def)
  moreover have "dropWhile (\<lambda>c. c \<noteq> CR) (l @ ?t) = ?t" using Cons.prems by auto
  moreover have "mem_equal ?t [CR, LF]" by (simp add: mem_equal_def)
  ultimately have "find_header_value (l @ ?t) field = find_header_value (crlf_lines ls @ rest) field"
    using Cons.prems header_line_text [OF assms, of l "LF # crlf_lines ls @ rest"]
    by (subst find_header_value.simps) auto
  with Cons show ?case by (simp add: crlf_lines_def)
qed (simp add: crlf_lines_def)

lemma content_type_at:
  assumes "buf_s buf = request_start ls B @ rst" and "list_all plain_line ls" and "NUL \<in> set rst"
  shows "header_at buf ''Content-Type'' 0 = Some (Some (length (crlf_lines ls @ ''Content-Type: '')))"
proof -
  define z where "z = takeWhile (\<lambda>c. c \<noteq> NUL) (''boundary='' @ B @ [CR, LF] @ rst)"
  have nul: "NUL \<notin> set (crlf_lines ls)"
    using assms(2) by (auto simp: crlf_lines_def list_all_iff plain_line_def)
  then have "takeWhile (\<lambda>c. c \<noteq> NUL) (crlf_lines ls @ u) = crlf_lines ls @ takeWhile (\<lambda>c. c \<noteq> NUL) u" for u
    by (intro takeWhile_append2) auto
  then have s: "c_string_in (drop 0 (buf_s buf)) = Some (crlf_lines ls @ ''Content-Type: '' @ ''multipart/form-data; '' @ z)"
    using assms(1,3) by (simp add: c_string_in_def z_def request_start_def)
  have "find_header_value (crlf_lines ls @ ''Content-Type: '' @ ''multipart/form-data; '' @ z) ''Content-Type''
      = find_header_value (''Content-Type: '' @ ''multipart/form-data; '' @ z) ''Content-Type''"
    by (rule find_header_value_behind) (use assms(2) in \<open>auto simp: list_all_iff plain_line_def\<close>)
  also have "\<dots> = Some (Some (''multipart/form-data; '' @ z))"
    by (subst find_header_value.simps) (simp add: mem_equal_def mem_case_equal_def str_from_def)
  finally show ?thesis using s by (simp add: header_at_def)
qed

lemma first_at_boundary: "first_at ''boundary='' ''multipart/form-data; ''"
  by (simp add: first_at_Cons)

lemma multipart_start:
  assumes "buf_s buf = request_start ls B @ rst" and "length (request_start ls B) < buf_len buf"
    and "list_all plain_line ls" and "NUL \<in> set rst" and "first_at [CR, LF] B"
  shows "sb_get_multipart buf name = parts_loop buf B name (length (request_start ls B))"
proof -
  let ?c = "crlf_lines ls @ ''Content-Type: ''" and ?m = "''multipart/form-data; ''" and ?b = "''boundary=''"
  note blk = assms(1) [unfolded request_start_def] and len = assms(2) [unfolded request_start_def]
  have s1: "after_l buf ?b (length ?c) = Some (Some (length (?c @ ?m @ ?b)))"
    by (rule after_l_skip [where a = ?c and pre = ?m and rst = "B @ [CR, LF] @ rst"]) (use blk len first_at_boundary in auto)
  have s2: "after_l buf [CR, LF] (length (?c @ ?m @ ?b)) = Some (Some (length (request_start ls B)))"
    by (rule after_l_skip [where a = "?c @ ?m @ ?b" and pre = B and rst = rst])
      (use blk len assms(5) in \<open>auto simp: request_start_def\<close>)
  have "take (length B) (drop (length (?c @ ?m @ ?b)) (buf_s buf)) = B"
    by (rule take_drop_mid [where z = "[CR, LF] @ rst"]) (use blk in simp)
  moreover have "length (request_start ls B) - length (?c @ ?m @ ?b) - 2 = length B" by (simp add: request_start_def)
  ultimately show ?thesis
    unfolding sb_get_multipart_def chk_def
    using content_type_at [OF assms(1,3,4)] s1 s2 by (simp del: length_append)
qed

text \<open>C38: On a well-formed multipart request, \<open>sb_get_multipart\<close> finds the first part of
  the name asked for, whatever its other fields and bytes, NUL included, and reports exactly its
  data; it reports nothing when no part has the name.\<close>

theorem multipart_found:
  assumes "list_all plain_line ls" and "first_at [CR, LF] B" and "first_at B (hdr @ ''--'')"
    and "list_all (good_part B) parts" and "QUOTE \<notin> set name" and "tail = [] \<or> tail = [CR, LF]"
    and "request = request_start ls B @ hdr @ multipart_body B parts tail"
    and "buf_s buf = request @ NUL # junk" and "buf_len buf = length request"
  shows "case map_of parts name of
      None \<Rightarrow> sb_get_multipart buf name = Some None
    | Some (extra, dat) \<Rightarrow> \<exists>i. sb_get_multipart buf name = Some (Some (i, of_nat (length dat)))
        \<and> take (length dat) (drop i (buf_s buf)) = dat \<and> i + length dat \<le> buf_len buf"
proof -
  have "sb_get_multipart buf name = parts_loop buf B name (length (request_start ls B))"
    by (rule multipart_start [where rst = "hdr @ multipart_body B parts tail @ NUL # junk"])
      (use assms in \<open>auto simp: multipart_body_def\<close>)
  moreover have "buf_s buf = request_start ls B @ hdr @ multipart_body B parts tail @ NUL # junk"
    "buf_len buf = length (request_start ls B @ hdr @ multipart_body B parts tail)" using assms(7-9) by simp_all
  ultimately show ?thesis
    using parts_loop_spec [OF assms(4-6), of buf "request_start ls B" hdr junk] assms(3) by presburger
qed


section \<open>Examples\<close>

definition sample_parts :: "part list" where
  "sample_parts = [(''a'', [], ''1''), (''f'', ''; filename=x'', [CHR ''h'', NUL, CHR ''i''])]"

lemma multipart_found_witness:
  "\<exists>i. sb_get_multipart \<lparr>buf_s = request_start [''POST / HTTP/1.1''] ''zz'' @ [CR, LF] @ multipart_body ''zz'' sample_parts [CR, LF] @ [NUL],
       buf_len = length (request_start [''POST / HTTP/1.1''] ''zz'' @ [CR, LF] @ multipart_body ''zz'' sample_parts [CR, LF])\<rparr> ''f''
     = Some (Some (i, 3))"
  using multipart_found [of "[''POST / HTTP/1.1'']" "''zz''" "[CR, LF]" sample_parts "''f''" "[CR, LF]" _
      "\<lparr>buf_s = request_start [''POST / HTTP/1.1''] ''zz'' @ [CR, LF] @ multipart_body ''zz'' sample_parts [CR, LF] @ [NUL],
       buf_len = length (request_start [''POST / HTTP/1.1''] ''zz'' @ [CR, LF] @ multipart_body ''zz'' sample_parts [CR, LF])\<rparr>" "[]", OF _ _ _ _ _ _ refl]
  by (auto simp: plain_line_def header_line_def mem_case_equal_def c_tolower_def first_at_Cons sample_parts_def Let_def)


end
