(* ===== verification/Hive_Trace.thy ===== *)
theory Hive_Trace
  imports Hive_Http Hive_Sandbird_Stream
begin

text \<open>
  The trace of the HTTP client (\<open>dump\<close> and \<open>trace_func\<close> of \<open>src/src/http/http_client.c\<close>): the
  messages that libcurl's debug callback hands to \<open>vlogD\<close>, as a list of strings.
\<close>

datatype curl_infotype =
    CURLINFO_TEXT | CURLINFO_HEADER_IN | CURLINFO_HEADER_OUT | CURLINFO_DATA_IN | CURLINFO_DATA_OUT
  | CURLINFO_SSL_DATA_IN | CURLINFO_SSL_DATA_OUT | CURLINFO_END

text \<open>A number printed with at least \<open>k\<close> digits.\<close>

definition padded :: "nat \<Rightarrow> string \<Rightarrow> string" where
  "padded k s = replicate (k - length s) (CHR ''0'') @ s"

definition hex_text :: "nat \<Rightarrow> nat \<Rightarrow> string" where
  "hex_text k n = padded k (map c_tolower (show_hex n))"

definition shown_char :: "char \<Rightarrow> char" where
  "shown_char c = (let n = of_char c :: nat in if 32 \<le> n \<and> n < 128 then c else CHR ''.'')"

text \<open>One line: the offset, up to 16 bytes in hexadecimal, and the same bytes as characters.\<close>

definition dump_row :: "nat \<Rightarrow> bytes \<Rightarrow> string" where
  "dump_row i chunk =
     hex_text 4 i @ '': '' @ concat (map (\<lambda>c. hex_text 2 (of_char c) @ '' '') chunk)
       @ concat (replicate (16 - length chunk) ''   '') @ map shown_char chunk"

text \<open>The line is composed in an array of 1024 bytes.\<close>

function dump_rows :: "nat \<Rightarrow> bytes \<Rightarrow> string list option" where
  "dump_rows i ptr =
     (if ptr = [] then Some []
      else do {
        buf \<leftarrow> c_strcpy 1024 (dump_row i (take 16 ptr));
        rows \<leftarrow> dump_rows (i + 16) (drop 16 ptr);
        Some ((''HttpClient: '' @ buf) # rows)
      })"
  by pat_completeness auto

termination
  by (relation "measure (\<lambda>(i, ptr). length ptr)") auto

declare dump_rows.simps [simp del]

definition dump :: "string \<Rightarrow> bytes \<Rightarrow> string list option" where
  "dump title ptr = do {
     rows \<leftarrow> dump_rows 0 ptr;
     Some ((''HttpClient: '' @ title @ '', '' @ padded 10 (show_nat (length ptr)) @ '' bytes (0x''
             @ hex_text 8 (length ptr) @ '')'') # rows)
   }"

text \<open>The message of \<open>CURLINFO_TEXT\<close> prints its data as a C string; \<open>debug\<close> tells whether the log level is
  at least that of debug messages.\<close>

definition trace_func :: "bool \<Rightarrow> curl_infotype \<Rightarrow> bytes \<Rightarrow> string list option" where
  "trace_func debug type ptr =
     (if \<not> debug then Some []
      else case type of
        CURLINFO_TEXT \<Rightarrow> do { s \<leftarrow> c_string_in ptr; Some [''== Info: '' @ s] }
      | CURLINFO_END \<Rightarrow> Some []
      | CURLINFO_HEADER_OUT \<Rightarrow> dump ''=> Send header'' ptr
      | CURLINFO_DATA_OUT \<Rightarrow> dump ''=> Send data'' ptr
      | CURLINFO_SSL_DATA_OUT \<Rightarrow> dump ''=> Send SSL data'' ptr
      | CURLINFO_HEADER_IN \<Rightarrow> dump ''<= Recv header'' ptr
      | CURLINFO_DATA_IN \<Rightarrow> dump ''<= Recv data'' ptr
      | CURLINFO_SSL_DATA_IN \<Rightarrow> dump ''<= Recv SSL data'' ptr)"

section \<open>The lines fit their array\<close>

lemma show_hex_length: "n < 16 ^ Suc k \<Longrightarrow> length (show_hex n) \<le> Suc k"
proof (induction k arbitrary: n)
  case 0
  then show ?case by (simp add: show_hex.simps [of n])
next
  case (Suc k)
  then have "n div 16 < 16 ^ Suc k" by (simp add: less_mult_imp_div_less)
  with Suc.IH show ?case by (subst show_hex.simps) simp
qed

lemma hex_text_length: "n < 16 ^ Suc k \<Longrightarrow> j \<le> Suc k \<Longrightarrow> length (hex_text j n) \<le> Suc k"
  using show_hex_length [of n k] by (simp add: hex_text_def padded_def)

lemma hex_byte_length: "length (hex_text 2 (of_char c)) = 2"
proof -
  have "(of_char c :: nat) < 16 ^ Suc 1" using nat_of_char_less_256 [of c] by simp
  from show_hex_length [OF this] show ?thesis by (simp add: hex_text_def padded_def)
qed

lemma dump_row_fits:
  assumes "i < 2 ^ 64" and "length chunk \<le> 16"
  shows "length (dump_row i chunk) < 1024"
proof -
  have "length (hex_text 4 i) \<le> 16" using hex_text_length [of i 15 4] assms(1) by simp
  moreover have "length (concat (map (\<lambda>c. hex_text 2 (of_char c) @ '' '') chunk)) = 3 * length chunk"
    by (induction chunk) (simp_all add: hex_byte_length)
  moreover have "length (concat (replicate (16 - length chunk) ''   '')) = 3 * (16 - length chunk)"
    by (simp add: length_concat sum_list_replicate)
  ultimately show ?thesis using assms(2) by (simp add: dump_row_def)
qed

text \<open>Tracing composes every line within its array, whatever bytes are traced.\<close>

theorem dump_fits:
  assumes "length ptr < 2 ^ 64"
  shows "\<exists>rows. dump title ptr = Some rows \<and> length rows = Suc ((length ptr + 15) div 16)"
proof -
  have "\<exists>rows. dump_rows i p = Some rows \<and> length rows = (length p + 15) div 16" if "i + length p < 2 ^ 64" for i p
    using that
  proof (induction i p rule: dump_rows.induct)
    case (1 i p)
    show ?case
    proof (cases "p = []")
      case False
      with 1 have "length (dump_row i (take 16 p)) < 1024" by (intro dump_row_fits) auto
      moreover have "\<exists>rows. dump_rows (i + 16) (drop 16 p) = Some rows \<and> length rows = (length (drop 16 p) + 15) div 16"
      proof (cases "length p \<le> 16")
        case True
        then show ?thesis by (simp add: dump_rows.simps [of "i + 16"])
      next
        case long: False
        have b: "c_strcpy 1024 (dump_row i (take 16 p)) = Some (dump_row i (take 16 p))" using calculation by simp
        show ?thesis by (rule 1(1) [OF False b]) (use 1(2) long in simp)
      qed
      then obtain rows where "dump_rows (i + 16) (drop 16 p) = Some rows"
        "length rows = (length (drop 16 p) + 15) div 16" by blast
      moreover have "Suc ((length p - 16 + 15) div 16) = (length p + 15) div 16"
        using False by (cases "length p \<le> 16"; cases p) auto
      ultimately show ?thesis using False by (simp add: dump_rows.simps [of i p])
    qed (simp add: dump_rows.simps)
  qed
  from this [of 0 ptr] show ?thesis using assms by (auto simp: dump_def)
qed

lemma dump_fits_witness:
  "\<exists>rows. dump ''=> Send data'' ''hello'' = Some rows \<and> length rows = Suc (Suc 0)"
  using dump_fits [of "''hello''" "''=> Send data''"] by simp

end
