(* ===== verification/Spec2Isabelle.thy ===== *)
theory Spec2Isabelle
  imports Hive_Strerror Hive_Swarm Hive_Tests Hive_Cmd Hive_Prober Hive_Sandbird_Multipart Hive_Trace
begin

text \<open>
  A model in Isabelle/HOL of the Elastos Hive native SDK (a C library that stores files and
  key-value pairs in OneDrive or IPFS, and two programs that use it), with the theorems that its
  operations are correct, and of the places where they are not.

  \<^bold>\<open>Parts of the program, and the theories that model them.\<close>

  \<^item> \<open>Hive_Prelude\<close>: bytes, C strings in arrays of a given size (\<open>strcpy\<close>, \<open>snprintf\<close>), decimal
    output, and the calculus \<open>post\<close> for operations that may have no result.
  \<^item> \<open>Hive_Error\<close>: the error numbers of \<open>src/src/ela_hive.h\<close> at 32 bits and the tables of error and
    HTTP status texts (\<open>src/src/hive_error.c\<close>, \<open>src/src/http_status.c\<close>).
  \<^item> \<open>Hive_Libc\<close>: what the sources use of the C library: files and directories, descriptors, the
    clock, random numbers, allocation, the error number of the thread (\<open>hive_get_error\<close> and its kin).
  \<^item> \<open>Hive_Strerror\<close>: \<open>hive_get_strerror\<close> and the functions of the facilities.
  \<^item> \<open>Hive_Mkdirs\<close>: \<open>src/src/mkdirs.c\<close>.
  \<^item> \<open>Hive_Http\<close>: the HTTP client \<open>src/src/http/http_client.c\<close> over libcurl; \<open>Hive_Trace\<close>: its trace
    messages.
  \<^item> \<open>Hive_Json\<close>: the laws of the JSON library the round trips rest on, and an instance of them.
  \<^item> The embedded HTTP server \<open>src/src/sandbird/sandbird.c\<close>.  \<open>Hive_Sandbird\<close>: header fields, query
    variables, cookies; \<open>Hive_Sandbird_Stream\<close>: growing buffers, streams, receiving a request byte
    by byte, composing and sending a response; \<open>Hive_Sandbird_Server\<close>: making, polling and closing a
    server; \<open>Hive_Sandbird_Multipart\<close>: \<open>sb_get_multipart\<close>.
  \<^item> \<open>Hive_Redirect\<close>: the event handler of the OAuth redirect and the loop that polls the server.
  \<^item> \<open>Hive_OAuth\<close>: the token of \<open>src/src/oauth/oauth_token.c\<close>: authorization through the redirect
    server, redeeming, refreshing, expiry, persistence.
  \<^item> \<open>Hive_OneDrive\<close>: the backend \<open>src/src/vendors/onedrive/onedrive.c\<close>: files, the pages of a
    listing, the key-value format, the connect call.
  \<^item> \<open>Hive_Ipfs_Rpc\<close> and \<open>Hive_Ipfs\<close>: the backend \<open>src/src/vendors/ipfs\<close>: the choice of a node, the
    check of the options, upload, length, download.
  \<^item> \<open>Hive_Api\<close>: the client API (\<open>src/src/hive_client.c\<close>, \<open>hive_file.c\<close>, \<open>hive_key.c\<close>) over the method
    tables of the two backends.
  \<^item> \<open>Hive_Drive\<close>: the client API over a OneDrive that behaves as its service documents it: the laws of
    such a drive, the store of keys and files it holds, and the refinement of that store by the API.
  \<^item> \<open>Hive_Swarm\<close>: the same for IPFS: the laws of a set of nodes some of which are down, and the
    refinement of the store of blocks they hold.
  \<^item> \<open>Hive_Tests\<close>: the cases of the OneDrive test suite (\<open>src/tests/api/cases\<close>) as clients of the API,
    and that they pass on such a drive.
  \<^item> \<open>Hive_Config\<close> and \<open>Hive_Cmd\<close>: the command-line client \<open>src/apps/cmd\<close>: its configuration file, its
    options, its shell and its commands.  \<open>Hive_Prober\<close>: the program \<open>src/apps/prober\<close>.
    \<open>Hive_Getopt\<close>: the reading of a command line, for both.

  \<^bold>\<open>How the code is rendered.\<close>  A C function becomes a function on the world it reads and
  changes (\<open>'r world\<close>: the files, the heap, the clock and an environment \<open>'r\<close> that is the rest of the
  world, the servers included).  A result \<open>None\<close> means that the C code has no defined result
  there: an assertion fails, a null pointer is dereferenced, an array is overrun, or a loop does
  not end.  C strings and buffers are lists of characters, NULL is \<open>None\<close> of an option type, structures are
  records.  Error numbers are \<open>32 word\<close>; an \<open>int\<close> function returns them negative (\<open>int_of_error\<close>), a
  \<open>ssize_t\<close> function that returns the macro itself returns them positive (\<open>ssize_of_error\<close>).
  Reference counts are not modelled; what is, is the number of open HTTP clients and descriptors
  (\<open>held\<close>).  Every call of \<open>malloc\<close> and of the file system may fail, as the list \<open>faults\<close> of the world says.

  \<^bold>\<open>What is not under \<open>src/\<close>.\<close>  libcurl and cJSON are the fields of the record \<open>ext\<close>, arguments of
  every operation that calls them: a transfer is a list of chunks, a code and a status
  (\<open>curl_perform\<close>), and all answers of the server are possible.  The record \<open>net\<close> gives the results of
  the socket calls that make a server, \<open>poll_env\<close> those of one round of its loop (\<open>select\<close>, \<open>accept\<close>,
  \<open>getpeername\<close>, \<open>recv\<close>, \<open>send\<close>), and \<open>auth_env\<close> gathers a network, the result of \<open>pthread_create\<close> and the rounds of
  one authorization.  libconfig is the record \<open>libconfig\<close>, and \<open>shell_env\<close> gathers what the
  command-line client is linked with; \<open>inet_pton\<close> is an argument.  Theorems that need a law of the
  JSON library name it (\<open>json_laws\<close>) and have a witness on an instance (\<open>json_ext\<close>); the theorems that
  need servers that answer as documented name the laws (\<open>drive_laws\<close>, \<open>swarm_laws\<close>) and have a witness on servers
  that obey them (\<open>sample_drive\<close>, \<open>sample_swarm\<close>).

  \<^bold>\<open>What the theorems show.\<close>  That on a drive that obeys the laws every sequence of calls of the client API
  computes what a store of two maps computes, and on nodes that obey theirs what a store of blocks
  computes; the invariants of a token, of a connection of either backend and of the redirect server over
  every sequence of operations, and that nothing is left open by the API, by the server and by the
  command-line client; that refreshing is all or nothing; that the
  key-value format, the tokens in the key store, the query variables of the redirect, the key store file
  and the words of a command are read back as they were written; that listing, collecting a response
  body, \<open>mkdirs\<close>, the error texts, multipart bodies, uploads and downloads of files and the choice of a
  node compute what they promise; that the embedded server refines a list of bytes, does not depend on how
  the network cuts a request, and delivers what it was given to send; that the authorization code
  gets from the bytes of the browser to the token; that the shell is the sequence of its commands; how the
  backends react to an expired token and to a dead node; and the bounds: where the code stays
  inside its buffers, and the inputs with which it does not.

  \<^bold>\<open>Interfaces.\<close>  \<open>errstring\<close> is the contract of an error-text function, interpreted for the
  four functions of the table; \<open>byte_sink\<close> that of a write callback of libcurl, interpreted for the body and the
  download callback; \<open>sb_handler\<close> that of an event handler of the embedded server, interpreted for the
  handler of the redirect; \<open>reachability\<close> that of the test of a node, interpreted for the code's test on
  networks whose nodes are up or down; \<open>backend\<close> that of a method table, interpreted for OneDrive and IPFS:
  the client API and the command-line client rest on it alone.

  \<^bold>\<open>Loops.\<close>  \<open>grow_loop\<close>, \<open>mkdirs_loop\<close>, \<open>cookie_loop\<close>, \<open>values_loop\<close>, \<open>select_loop\<close>, the search \<open>after_l\<close>,
  \<open>parts_loop\<close>, \<open>getopt_long\<close>, \<open>read_cmd\<close> and \<open>shell_loop\<close> are total with a measure.  \<open>find_header_value\<close> and \<open>list_loop\<close> may
  run for ever and are partial functions.  The loop of the redirect server, \<open>auth_loop\<close>, runs over the list of rounds it is
  given and has no result when they run out before the code stops it; that a response is sent whole is shown for every list of
  rounds in which the socket takes at least \<open>to_do\<close> times a byte, which is enough because each such round sends one.

  \<^bold>\<open>Not modelled.\<close>  The log files and what goes to \<open>stderr\<close>; the signal handlers (which call \<open>exit\<close>) and
  core dump limits of the two programs; flags and widths in the server's
  formats; \<open>curl_free\<close> and the allocations inside libcurl's MIME functions; Windows variants;
  the test programs other than the OneDrive cases.
\<close>

end
